theory Spec2Isabelle
  imports Complex_Main "HOL-Library.Product_Lexorder" "HOL-Library.Log_Nat"
begin

section \<open>Data model\<close>

text \<open>
  The conversion core of timsconvert (\<^verbatim>\<open>parse.py\<close>, \<^verbatim>\<open>write.py\<close>) is embedded function by
  function. Numeric array entries (m/z, intensity, mobility) are reals. A float64 value is
  the real it denotes and float64 arithmetic is exact. Where the source asks for the dtype
  of the \<^verbatim>\<open>encoding\<close> argument, a value that becomes float32 is rounded to the nearest
  float32 (\<open>np_float32\<close> below), and so is every result of float32 arithmetic. No array
  entry is infinite or NaN. Identifiers and counts taken from the SQLite tables (frame
  ids, scan numbers, row ids) are natural numbers.

  Every Python exception the embedded code can raise is a value of \<open>error\<close>; a function
  that can raise returns \<open>error + 'a\<close> with \<open>Inl\<close> for the exception.
\<close>

datatype error =
  IndexError | ValueError | AttributeError | TypeError | UnboundLocalError | KeyError

text \<open>A float read from a pandas column may be NaN (a NULL cell).\<close>

datatype pyfloat = NaN | Fl real

text \<open>
  The spectrum dictionary of \<^verbatim>\<open>init_scan_dict\<close>: every key is present from the start and
  holds \<^verbatim>\<open>None\<close> (here \<open>None\<close>) until a populate function assigns it.
\<close>

record scan_dict =
  scan_number :: "nat option"
  scan_type :: "string option"
  ms_level :: "nat option"
  mz_array :: "real list option"
  intensity_array :: "real list option"
  mobility_array :: "real list option"
  polarity :: "string option"
  centroided :: "bool option"
  retention_time :: "real option"
  coord :: "int list option"
  total_ion_current :: "real option"
  base_peak_mz :: "real option"
  base_peak_intensity :: "real option"
  high_mz :: "real option"
  low_mz :: "real option"
  target_mz :: "real option"
  isolation_lower_offset :: "real option"
  isolation_upper_offset :: "real option"
  selected_ion_mz :: "real option"
  selected_ion_intensity :: "real option"
  selected_ion_mobility :: "real option"
  selected_ion_ccs :: "real option"
  charge_state :: "pyfloat option"
  collision_energy :: "real option"
  frame :: "nat option"
  parent_frame :: "nat option"
  parent_scan :: "nat option"
  ms2_no_precursor :: bool

definition init_scan_dict :: scan_dict where
  "init_scan_dict =
     \<lparr> scan_number = None, scan_type = None, ms_level = None, mz_array = None,
       intensity_array = None, mobility_array = None, polarity = None, centroided = None,
       retention_time = None, coord = None, total_ion_current = None, base_peak_mz = None,
       base_peak_intensity = None, high_mz = None, low_mz = None, target_mz = None,
       isolation_lower_offset = None, isolation_upper_offset = None,
       selected_ion_mz = None, selected_ion_intensity = None, selected_ion_mobility = None,
       selected_ion_ccs = None, charge_state = None, collision_energy = None, frame = None,
       parent_frame = None, parent_scan = None, ms2_no_precursor = False \<rparr>"

section \<open>Derived statistics of a spectrum\<close>

text \<open>
  \<^verbatim>\<open>np.where(a == v)\<close> on a one-dimensional array: the indices holding \<open>v\<close>, ascending.
\<close>

definition np_where_eq :: "real list \<Rightarrow> real \<Rightarrow> nat list" where
  "np_where_eq a v = filter (\<lambda>i. a ! i = v) [0..<length a]"

text \<open>
  \<^verbatim>\<open>populate_scan_dict_w_spectrum_data\<close>. \<^verbatim>\<open>np.max\<close> of an empty array raises ValueError;
  indexing \<^verbatim>\<open>mz_array\<close> with the index array raises IndexError as soon as one index is
  out of bounds.
\<close>

definition populate_scan_dict_w_spectrum_data ::
  "scan_dict \<Rightarrow> real list \<Rightarrow> real list \<Rightarrow> error + scan_dict" where
  "populate_scan_dict_w_spectrum_data scan_dict mz_arr intensity_arr =
     (if intensity_arr = [] then Inl ValueError
      else
        let base_peak_index = np_where_eq intensity_arr (Max (set intensity_arr)) in
        if \<exists>i \<in> set base_peak_index. length mz_arr \<le> i then Inl IndexError
        else Inr (scan_dict
          \<lparr> mz_array := Some mz_arr,
            intensity_array := Some intensity_arr,
            total_ion_current := Some (sum_list intensity_arr),
            base_peak_mz := Some (mz_arr ! hd base_peak_index),
            base_peak_intensity := Some (intensity_arr ! hd base_peak_index),
            high_mz := Some (Max (set mz_arr)),
            low_mz := Some (Min (set mz_arr)) \<rparr>))"

section \<open>Encoding\<close>

text \<open>
  \<^verbatim>\<open>get_encoding_dtype\<close>. For an encoding other than 32 and 64 the function reaches its end
  and returns \<^verbatim>\<open>None\<close>, which numpy takes as ``no dtype requested''.
\<close>

datatype dtype = float32 | float64

definition get_encoding_dtype :: "nat \<Rightarrow> dtype option" where
  "get_encoding_dtype encoding =
     (if encoding = 32 then Some float32 else if encoding = 64 then Some float64 else None)"

text \<open>
  Rounding of a real to an integer, to nearest, a tie going to the even neighbour.
\<close>

definition round_half_even :: "real \<Rightarrow> int" where
  "round_half_even x =
     (let f = \<lfloor>x\<rfloor>; r = x - of_int f
      in if r < 1 / 2 then f else if 1 / 2 < r then f + 1 else if even f then f else f + 1)"

text \<open>The power \<open>2 ^ e\<close> for an integer \<open>e\<close>, and the binary exponent of a positive real:
  the \<open>e\<close> with \<open>2 ^ e \<le> x < 2 ^ (e + 1)\<close>.\<close>

definition pow2 :: "int \<Rightarrow> real" where
  "pow2 e = (if 0 \<le> e then 2 ^ nat e else 1 / 2 ^ nat (- e))"

definition float_exponent :: "real \<Rightarrow> int" where
  "float_exponent x =
     (if 1 \<le> x then int (floorlog 2 (nat \<lfloor>x\<rfloor>)) - 1
      else - int (floorlog 2 (nat (\<lceil>1 / x\<rceil> - 1))))"

text \<open>
  The float32 nearest to a real (IEEE 754 binary32, round to nearest, ties to even), which
  is what a cast of a float64 to \<^verbatim>\<open>np.float32\<close> yields. A binary32 number is an integer
  multiple of the quantum \<open>2 ^ (e - 23)\<close> of its binade, \<open>e\<close> being its binary exponent
  and at least \<open>-126\<close> (the subnormal numbers share the quantum \<open>2 ^ (-149)\<close>). The largest
  binary32 number is \<open>float32_max\<close>; numpy turns a value that rounds beyond it into an
  infinity, which is not represented here: \<open>np_float32\<close> is the cast for arguments of
  magnitude up to \<open>float32_max\<close>.
\<close>

definition np_float32 :: "real \<Rightarrow> real" where
  "np_float32 x =
     (if x = 0 then 0
      else
        let quantum = pow2 (max (float_exponent \<bar>x\<bar>) (- 126) - 23)
        in sgn x * (of_int (round_half_even (\<bar>x\<bar> / quantum)) * quantum))"

definition float32_max :: real where
  "float32_max = (2 ^ 24 - 1) * 2 ^ 104"

text \<open>
  The value of a float64 as an entry of an array of the given dtype: unchanged for
  float64 and when no dtype is requested.
\<close>

definition np_cast :: "dtype option \<Rightarrow> real \<Rightarrow> real" where
  "np_cast dtype x = (case dtype of Some float32 \<Rightarrow> np_float32 x | _ \<Rightarrow> x)"

text \<open>\<^verbatim>\<open>np.array(a, dtype=dtype)\<close> on a one-dimensional array.\<close>

definition np_array :: "real list \<Rightarrow> dtype option \<Rightarrow> real list" where
  "np_array a dtype = map (np_cast dtype) a"

section \<open>The numpy operations the source relies on\<close>

text \<open>
  \<^verbatim>\<open>np.linspace(start, stop, num, dtype=dtype)\<close> with the default \<^verbatim>\<open>endpoint=True\<close>: \<open>num\<close>
  evenly spaced samples, the last one being \<open>stop\<close>; a single sample is \<open>start\<close>. numpy
  computes the samples in float64 and casts the finished array to the dtype.
\<close>

definition np_linspace :: "real \<Rightarrow> real \<Rightarrow> nat \<Rightarrow> dtype option \<Rightarrow> real list" where
  "np_linspace start stop num dtype =
     np_array
       (if num = 1 then [start]
        else map (\<lambda>i. start + real i * ((stop - start) / real (num - 1))) [0..<num])
       dtype"

text \<open>
  numpy's monotonicity test of the bin edges: leading repetitions are skipped, the first
  differing pair fixes the direction, and the rest has to follow it. The result is \<open>1\<close>
  (non-decreasing, also for constant or empty edges), \<open>-1\<close> (non-increasing) or \<open>0\<close>.
\<close>

definition np_monotonicity :: "real list \<Rightarrow> int" where
  "np_monotonicity a =
     (case dropWhile (\<lambda>x. x = hd a) a of
        [] \<Rightarrow> 1
      | nxt # rest \<Rightarrow>
          if hd a < nxt then (if sorted (nxt # rest) then 1 else 0)
          else (if sorted (rev (nxt # rest)) then - 1 else 0))"

text \<open>
  \<^verbatim>\<open>np.searchsorted(a, v, side='right')\<close> on an ascending array \<open>a\<close>: the number of
  leading entries that are at most \<open>v\<close>.
\<close>

definition np_searchsorted_right :: "real list \<Rightarrow> real \<Rightarrow> nat" where
  "np_searchsorted_right a v = length (takeWhile (\<lambda>e. e \<le> v) a)"

text \<open>
  \<^verbatim>\<open>np.digitize(x, bins)\<close> with the default \<^verbatim>\<open>right=False\<close>: ValueError for edges that are
  not monotonic, the mirrored search for decreasing edges.
\<close>

definition np_digitize :: "real list \<Rightarrow> real list \<Rightarrow> error + nat list" where
  "np_digitize x bins =
     (let mono = np_monotonicity bins in
      if mono = 0 then Inl ValueError
      else if mono = - 1
        then Inr (map (\<lambda>v. length bins - np_searchsorted_right (rev bins) v) x)
      else Inr (map (np_searchsorted_right bins) x))"

text \<open>
  \<^verbatim>\<open>np.unique(a, return_inverse=True)\<close> on a one-dimensional array: the sorted distinct
  values, and for every entry of \<open>a\<close> its position among them.
\<close>

definition np_unique :: "nat list \<Rightarrow> nat list" where
  "np_unique a = sort (remdups a)"

definition np_unique_inverse :: "nat list \<Rightarrow> nat list" where
  "np_unique_inverse a = map (\<lambda>v. length (takeWhile (\<lambda>u. u \<noteq> v) (np_unique a))) a"

text \<open>
  \<^verbatim>\<open>np.bincount(x)\<close> and \<^verbatim>\<open>np.bincount(x, weights=w)\<close>: one output entry for each value
  from \<open>0\<close> to the maximum of \<open>x\<close>; weights of another length raise ValueError.
\<close>

definition bincount_length :: "nat list \<Rightarrow> nat" where
  "bincount_length x = (if x = [] then 0 else Suc (Max (set x)))"

definition np_bincount :: "nat list \<Rightarrow> nat list" where
  "np_bincount x = map (\<lambda>k. length (filter (\<lambda>i. i = k) x)) [0..<bincount_length x]"

definition np_bincount_weights :: "nat list \<Rightarrow> real list \<Rightarrow> error + real list" where
  "np_bincount_weights x w =
     (if length w \<noteq> length x then Inl ValueError
      else Inr (map (\<lambda>k. sum_list (map snd (filter (\<lambda>p. fst p = k) (zip x w))))
                  [0..<bincount_length x]))"

text \<open>\<^verbatim>\<open>np.place(bin_counts, bin_counts < 1, [1])\<close>: every count below one becomes one.\<close>

definition np_place_lt1 :: "nat list \<Rightarrow> nat list" where
  "np_place_lt1 counts = map (\<lambda>c. if c < 1 then 1 else c) counts"

text \<open>
  \<^verbatim>\<open>np.unique(rows[np.argsort(rows[:, 0])], axis=0)\<close> on a two-dimensional array, each row
  a tuple: the rows are first ordered by their first column, then \<^verbatim>\<open>np.unique\<close> sorts
  whole rows lexicographically and drops rows that repeat exactly. (numpy's default
  argsort is not stable; the order it leaves among equal keys is erased by the sort of
  \<^verbatim>\<open>np.unique\<close>.)
\<close>

definition np_argsort_rows :: "(real \<times> 'b) list \<Rightarrow> (real \<times> 'b) list" where
  "np_argsort_rows rows = sort_key fst rows"

definition np_unique_rows :: "('a::linorder) list \<Rightarrow> 'a list" where
  "np_unique_rows rows = sort (remdups rows)"

section \<open>SpectrumBinner\<close>

text \<open>
  \<^verbatim>\<open>bin_profile_spectrum\<close>. The edges run from the first to the last entry of
  \<^verbatim>\<open>mz_array\<close> (an empty array raises IndexError at \<^verbatim>\<open>mz_array[0]\<close>) and have the dtype of
  the encoding, while the m/z values they are compared with stay float64; the binned m/z
  is \<^verbatim>\<open>np.bincount(inverse_indices, weights=mz_array) / bin_counts\<close>.
\<close>

definition bin_profile_spectrum ::
  "real list \<Rightarrow> real list \<Rightarrow> nat \<Rightarrow> nat \<Rightarrow> error + (real list \<times> real list)" where
  "bin_profile_spectrum mz_arr intensity_arr profile_bins encoding =
     (if mz_arr = [] then Inl IndexError
      else
        let mz_acq_range_lower = hd mz_arr;
            mz_acq_range_upper = last mz_arr;
            bins = np_linspace mz_acq_range_lower mz_acq_range_upper profile_bins
                     (get_encoding_dtype encoding)
        in case np_digitize mz_arr bins of
             Inl e \<Rightarrow> Inl e
           | Inr digitized \<Rightarrow>
               let inverse_indices = np_unique_inverse digitized;
                   bin_counts = np_place_lt1 (np_bincount inverse_indices)
               in (case np_bincount_weights inverse_indices mz_arr of
                     Inl e \<Rightarrow> Inl e
                   | Inr mz_sums \<Rightarrow>
                       (case np_bincount_weights inverse_indices intensity_arr of
                          Inl e \<Rightarrow> Inl e
                        | Inr intensity_sums \<Rightarrow>
                            Inr (map2 (\<lambda>s c. s / real c) mz_sums bin_counts,
                                 intensity_sums))))"

text \<open>
  The values of \<open>w\<close> whose point was digitized into bin \<open>b\<close>: the members of a bin, as the
  binner's description speaks of them. This definition is not part of the source; the
  properties of \<open>bin_profile_spectrum\<close> are stated with it.
\<close>

definition bin_members :: "nat list \<Rightarrow> real list \<Rightarrow> nat \<Rightarrow> real list" where
  "bin_members digitized w b = map snd (filter (\<lambda>p. fst p = b) (zip digitized w))"

section \<open>Mode flags\<close>

text \<open>
  \<^verbatim>\<open>get_centroid_status\<close>. The second argument is a bool or \<^verbatim>\<open>None\<close>. A mode other than the
  three known ones leaves \<^verbatim>\<open>centroided\<close> unassigned, so the \<^verbatim>\<open>return\<close> raises
  UnboundLocalError.
\<close>

definition get_centroid_status :: "string \<Rightarrow> bool option \<Rightarrow> error + (bool \<times> bool option)" where
  "get_centroid_status mode exclude_mobility =
     (if mode = ''profile'' then Inr (False, Some True)
      else if mode = ''centroid'' \<or> mode = ''raw'' then Inr (True, exclude_mobility)
      else Inl UnboundLocalError)"

text \<open>Python truth value of a bool-or-None: only \<^verbatim>\<open>True\<close> is true.\<close>

definition py_truthy :: "bool option \<Rightarrow> bool" where
  "py_truthy b = (b = Some True)"

text \<open>\<^verbatim>\<open>int(x)\<close> of a finite float truncates towards zero.\<close>

definition py_int :: "real \<Rightarrow> int" where
  "py_int x = (if 0 \<le> x then \<lfloor>x\<rfloor> else \<lceil>x\<rceil>)"

section \<open>The TDF metadata tables and the vendor SDK\<close>

text \<open>
  One record per table of \<^verbatim>\<open>analysis.tdf\<close>, holding the columns the parser reads. A table
  is the list of its rows in table order.
\<close>

record frames_row =
  fr_Id :: nat
  fr_MsMsType :: int
  fr_ScanMode :: int
  fr_NumScans :: nat
  fr_Polarity :: string
  fr_Time :: real

record precursors_row =
  pr_Id :: nat
  pr_Parent :: nat
  pr_ScanNumber :: nat
  pr_Charge :: pyfloat
  pr_AverageMz :: real
  pr_LargestPeakMz :: real
  pr_MonoisotopicMz :: pyfloat
  pr_Intensity :: real

record pasefframemsmsinfo_row =
  pf_Frame :: nat
  pf_Precursor :: nat
  pf_ScanNumBegin :: nat
  pf_ScanNumEnd :: nat
  pf_IsolationWidth :: real
  pf_CollisionEnergy :: real

record diaframemsmsinfo_row =
  di_Frame :: nat
  di_WindowGroup :: nat

record diaframemsmswindows_row =
  dw_WindowGroup :: nat
  dw_ScanNumBegin :: nat
  dw_ScanNumEnd :: nat
  dw_IsolationMz :: real
  dw_IsolationWidth :: real
  dw_CollisionEnergy :: real

record framemsmsinfo_row =
  fm_Frame :: nat
  fm_TriggerMass :: real
  fm_IsolationWidth :: real
  fm_PrecursorCharge :: pyfloat
  fm_CollisionEnergy :: real

record prmframemsmsinfo_row =
  pm_Frame :: nat
  pm_Target :: nat
  pm_ScanNumBegin :: nat
  pm_ScanNumEnd :: nat
  pm_IsolationMz :: real
  pm_IsolationWidth :: real
  pm_CollisionEnergy :: real

record prmtargets_row =
  pt_Id :: nat
  pt_OneOverK0 :: real
  pt_Charge :: pyfloat

text \<open>
  The \<^verbatim>\<open>tdf_data\<close> object: the tables, the acquisition range of the global metadata, and the
  functions of the vendor SDK bound to the open file (\<^verbatim>\<open>api\<close> and \<^verbatim>\<open>handle\<close>). The SDK is an
  opaque collaborator, so each of its functions is a field:
  \<^item> \<open>tims_read_scans_v2 frame scan_begin scan_end\<close>: one (index array, intensity array)
    pair per sub-scan;
  \<^item> \<open>tims_index_to_mz frame indices\<close>: the m/z array of an index array;
  \<^item> \<open>tims_scannum_to_oneoverk0 frame scan_num\<close>: the mobility of one sub-scan (the source
    passes a one-element array and takes element 0 of the answer);
  \<^item> \<open>tims_oneoverk0_to_ccs_for_mz mobility charge mz\<close>;
  \<^item> \<open>tims_extract_profile_for_frame\<close> and
    \<open>tims_extract_centroided_spectrum_for_frame_v2\<close>, each on \<open>frame scan_begin scan_end\<close>.

  \<open>MSMS_TYPE_CATEGORY_ms1\<close> is the list \<^verbatim>\<open>MSMS_TYPE_CATEGORY['ms1']\<close> of \<^verbatim>\<open>constants.py\<close>, a
  file that is not among the sources: the list is a parameter.
\<close>

record tdf_data =
  Frames :: "frames_row list"
  Precursors :: "precursors_row list"
  PasefFrameMsMsInfo :: "pasefframemsmsinfo_row list"
  DiaFrameMsMsInfo :: "diaframemsmsinfo_row list"
  DiaFrameMsMsWindows :: "diaframemsmswindows_row list"
  FrameMsMsInfo :: "framemsmsinfo_row list"
  PrmFrameMsMsInfo :: "prmframemsmsinfo_row list"
  PrmTargets :: "prmtargets_row list"
  MzAcqRangeLower :: real
  MzAcqRangeUpper :: real
  MSMS_TYPE_CATEGORY_ms1 :: "int list"
  tims_read_scans_v2 :: "nat \<Rightarrow> nat \<Rightarrow> nat \<Rightarrow> (nat list \<times> real list) list"
  tims_index_to_mz :: "nat \<Rightarrow> nat list \<Rightarrow> real list"
  tims_scannum_to_oneoverk0 :: "nat \<Rightarrow> nat \<Rightarrow> real"
  tims_oneoverk0_to_ccs_for_mz :: "real \<Rightarrow> int \<Rightarrow> real \<Rightarrow> real"
  tims_extract_profile_for_frame :: "nat \<Rightarrow> nat \<Rightarrow> nat \<Rightarrow> nat list \<times> real list"
  tims_extract_centroided_spectrum_for_frame_v2 :: "nat \<Rightarrow> nat \<Rightarrow> nat \<Rightarrow> real list \<times> real list"

text \<open>
  \<^verbatim>\<open>table[condition].to_dict(orient='records')\<close> is the list of matching rows, and
  \<^verbatim>\<open>[0]\<close> on it raises IndexError when no row matches.
\<close>

definition first_row :: "('r \<Rightarrow> bool) \<Rightarrow> 'r list \<Rightarrow> error + 'r" where
  "first_row cond table =
     (case filter cond table of [] \<Rightarrow> Inl IndexError | r # _ \<Rightarrow> Inr r)"

section \<open>ArrayExtractor\<close>

text \<open>
  The sub-scan loop of \<^verbatim>\<open>extract_3d_tdf_spectrum\<close>. The source appends to three parallel
  lists in the same step; here one list holds the triples. \<^verbatim>\<open>list_of_scans[scan_num]\<close>
  raises IndexError past the end of the list.
\<close>

fun scan_loop_3d ::
  "tdf_data \<Rightarrow> nat \<Rightarrow> (nat list \<times> real list) list \<Rightarrow> nat list
     \<Rightarrow> error + (real list \<times> real list \<times> real list) list" where
  "scan_loop_3d d frm list_of_scans [] = Inr []"
| "scan_loop_3d d frm list_of_scans (scan_num # rest) =
     (if length list_of_scans \<le> scan_num then Inl IndexError
      else
        (case scan_loop_3d d frm list_of_scans rest of
           Inl e \<Rightarrow> Inl e
         | Inr later \<Rightarrow>
             (let indices = fst (list_of_scans ! scan_num);
                  intensity_arr = snd (list_of_scans ! scan_num)
              in if indices \<noteq> [] \<and> intensity_arr \<noteq> []
                    \<and> length indices = length intensity_arr
                 then
                   (let mz_arr = tims_index_to_mz d frm indices;
                        mobility = tims_scannum_to_oneoverk0 d frm scan_num;
                        mobility_arr = replicate (length mz_arr) mobility
                    in Inr ((mz_arr, intensity_arr, mobility_arr) # later))
                 else Inr later)))"

text \<open>
  \<^verbatim>\<open>extract_3d_tdf_spectrum\<close>. The result \<open>None\<close> is the source's \<^verbatim>\<open>(None, None, None)\<close>.
  \<^verbatim>\<open>np.stack\<close> raises ValueError when the concatenated columns differ in length.
\<close>

definition extract_3d_tdf_spectrum ::
  "tdf_data \<Rightarrow> nat \<Rightarrow> nat \<Rightarrow> nat \<Rightarrow> error + (real list \<times> real list \<times> real list) option" where
  "extract_3d_tdf_spectrum d frm scan_begin scan_end =
     (let list_of_scans = tims_read_scans_v2 d frm scan_begin scan_end;
          scan_end' = (if scan_begin \<noteq> 0 then scan_end - scan_begin else scan_end);
          scan_begin' = (if scan_begin \<noteq> 0 then 0 else scan_begin)
      in case scan_loop_3d d frm list_of_scans [scan_begin'..<scan_end'] of
           Inl e \<Rightarrow> Inl e
         | Inr frame_arrays \<Rightarrow>
             if frame_arrays \<noteq> [] then
               (let mzs = concat (map fst frame_arrays);
                    intensities = concat (map (fst \<circ> snd) frame_arrays);
                    mobilities = concat (map (snd \<circ> snd) frame_arrays)
                in if length intensities = length mzs \<and> length mobilities = length mzs
                   then
                     (let frames_array =
                            np_unique_rows (np_argsort_rows (zip mzs (zip intensities mobilities)))
                      in Inr (Some (map fst frames_array,
                                    map (fst \<circ> snd) frames_array,
                                    map (snd \<circ> snd) frames_array)))
                   else Inl ValueError)
             else Inr None)"

text \<open>
  The sub-scan loop of \<^verbatim>\<open>extract_2d_tdf_spectrum\<close> in raw mode. Unlike the 3-D loop it
  indexes \<^verbatim>\<open>list_of_scans\<close> with the scan number as given.
\<close>

fun scan_loop_2d ::
  "tdf_data \<Rightarrow> nat \<Rightarrow> (nat list \<times> real list) list \<Rightarrow> nat list
     \<Rightarrow> error + (real list \<times> real list) list" where
  "scan_loop_2d d frm list_of_scans [] = Inr []"
| "scan_loop_2d d frm list_of_scans (scan_num # rest) =
     (if length list_of_scans \<le> scan_num then Inl IndexError
      else
        (case scan_loop_2d d frm list_of_scans rest of
           Inl e \<Rightarrow> Inl e
         | Inr later \<Rightarrow>
             (let indices = fst (list_of_scans ! scan_num);
                  intensity_arr = snd (list_of_scans ! scan_num)
              in if indices \<noteq> [] \<and> intensity_arr \<noteq> []
                    \<and> length indices = length intensity_arr
                 then Inr ((tims_index_to_mz d frm indices, intensity_arr) # later)
                 else Inr later)))"

text \<open>
  \<^verbatim>\<open>extract_2d_tdf_spectrum\<close>. The result \<open>None\<close> is the source's \<^verbatim>\<open>(None, None)\<close>, which
  only raw mode returns; an unknown mode reaches the final \<^verbatim>\<open>return\<close> with both names
  unassigned. Raw mode does not use the encoding; profile mode casts the intensities and
  centroid mode both arrays.
\<close>

definition extract_2d_tdf_spectrum ::
  "tdf_data \<Rightarrow> string \<Rightarrow> nat \<Rightarrow> nat \<Rightarrow> nat \<Rightarrow> nat \<Rightarrow> nat
     \<Rightarrow> error + (real list \<times> real list) option" where
  "extract_2d_tdf_spectrum d mode frm scan_begin scan_end profile_bins encoding =
     (if mode = ''raw'' then
        (case scan_loop_2d d frm (tims_read_scans_v2 d frm scan_begin scan_end)
                [scan_begin..<scan_end] of
           Inl e \<Rightarrow> Inl e
         | Inr frame_arrays \<Rightarrow>
             if frame_arrays \<noteq> [] then
               (let mzs = concat (map fst frame_arrays);
                    intensities = concat (map snd frame_arrays)
                in if length intensities \<noteq> length mzs then Inl ValueError
                   else
                     (let frames_array = np_unique_rows (np_argsort_rows (zip mzs intensities))
                      in Inr (Some (map fst frames_array, map snd frames_array))))
             else Inr None)
      else if mode = ''profile'' then
        (let index_buf = fst (tims_extract_profile_for_frame d frm scan_begin scan_end);
             intensity_arr =
               np_array (snd (tims_extract_profile_for_frame d frm scan_begin scan_end))
                 (get_encoding_dtype encoding);
             mz_arr = tims_index_to_mz d frm index_buf
         in if profile_bins \<noteq> 0 then
              (case bin_profile_spectrum mz_arr intensity_arr profile_bins encoding of
                 Inl e \<Rightarrow> Inl e
               | Inr binned \<Rightarrow> Inr (Some binned))
            else Inr (Some (mz_arr, intensity_arr)))
      else if mode = ''centroid'' then
        (let mz_arr =
               fst (tims_extract_centroided_spectrum_for_frame_v2 d frm scan_begin scan_end);
             intensity_arr =
               snd (tims_extract_centroided_spectrum_for_frame_v2 d frm scan_begin scan_end)
         in Inr (Some (np_array mz_arr (get_encoding_dtype encoding),
                       np_array intensity_arr (get_encoding_dtype encoding))))
      else Inl UnboundLocalError)"

text \<open>
  The test the callers apply to an extraction result before they use it:
  \<^verbatim>\<open>mz_array.size != 0 and intensity_array.size != 0 and mz_array.size ==
  intensity_array.size\<close> (in \<^verbatim>\<open>parse_lcms_tdf\<close> followed by \<^verbatim>\<open>and mz_array is not None and
  intensity_array is not None\<close>). The conjunction is evaluated from the left, so on
  \<^verbatim>\<open>None\<close> the attribute access \<^verbatim>\<open>.size\<close> raises AttributeError before the \<^verbatim>\<open>is not None\<close>
  tests are reached. The result says whether the test passed.
\<close>

definition arrays_usable :: "(real list \<times> real list) option \<Rightarrow> error + bool" where
  "arrays_usable extracted =
     (case extracted of
        None \<Rightarrow> Inl AttributeError
      | Some (mz_arr, intensity_arr) \<Rightarrow>
          Inr (mz_arr \<noteq> [] \<and> intensity_arr \<noteq> [] \<and> length mz_arr = length intensity_arr))"

text \<open>
  \<^verbatim>\<open>np.arange(start, stop, step, dtype=dtype)\<close> with float arguments. The length is the
  ceiling of \<open>(stop - start) / step\<close>, computed on the float64 arguments. numpy stores
  \<open>start\<close> and \<open>start + step\<close> into the first two entries of an array of the dtype and
  fills the rest from these two: with \<open>delta\<close> their difference, entry \<open>i\<close> is
  \<open>first + i * delta\<close>, every operation done in the dtype. For float64 entry \<open>i\<close> is
  \<open>start + i * step\<close>.
\<close>

definition np_arange :: "real \<Rightarrow> real \<Rightarrow> real \<Rightarrow> dtype option \<Rightarrow> real list" where
  "np_arange start stop step dtype =
     (let len = nat \<lceil>(stop - start) / step\<rceil>;
          first = np_cast dtype start;
          second = np_cast dtype (start + step);
          delta = np_cast dtype (second - first)
      in take len
           (first # second #
              map (\<lambda>i. np_cast dtype (first + np_cast dtype (np_cast dtype (real i) * delta)))
                [2..<len]))"

text \<open>The loop of \<^verbatim>\<open>extract_ddapasef_precursor_spectrum\<close> over the PASEF windows.\<close>

fun pasef_loop ::
  "tdf_data \<Rightarrow> string \<Rightarrow> nat \<Rightarrow> nat \<Rightarrow> pasefframemsmsinfo_row list
     \<Rightarrow> error + (real list \<times> real list) list" where
  "pasef_loop d mode profile_bins encoding [] = Inr []"
| "pasef_loop d mode profile_bins encoding (pasef_dict # rest) =
     (case extract_2d_tdf_spectrum d mode (pf_Frame pasef_dict) (pf_ScanNumBegin pasef_dict)
             (pf_ScanNumEnd pasef_dict) profile_bins encoding of
        Inl e \<Rightarrow> Inl e
      | Inr extracted \<Rightarrow>
          (case arrays_usable extracted of
             Inl e \<Rightarrow> Inl e
           | Inr usable \<Rightarrow>
               (case pasef_loop d mode profile_bins encoding rest of
                  Inl e \<Rightarrow> Inl e
                | Inr later \<Rightarrow> Inr (if usable then the extracted # later else later))))"

text \<open>
  \<^verbatim>\<open>extract_ddapasef_precursor_spectrum\<close>: the windows of one precursor are merged and
  binned on a grid of width 0.005 over the acquisition range, the grid having the dtype
  of the encoding.
\<close>

definition extract_ddapasef_precursor_spectrum ::
  "tdf_data \<Rightarrow> pasefframemsmsinfo_row list \<Rightarrow> string \<Rightarrow> nat \<Rightarrow> nat
     \<Rightarrow> error + (real list \<times> real list) option" where
  "extract_ddapasef_precursor_spectrum d pasefframemsmsinfo_dicts mode profile_bins encoding =
     (case pasef_loop d mode profile_bins encoding pasefframemsmsinfo_dicts of
        Inl e \<Rightarrow> Inl e
      | Inr pasef_arrays \<Rightarrow>
          if pasef_arrays \<noteq> [] then
            (let pasef_array =
                   np_unique_rows (np_argsort_rows
                     (zip (concat (map fst pasef_arrays)) (concat (map snd pasef_arrays))));
                 bin_size = 0.005;
                 bins = np_arange (MzAcqRangeLower d) (MzAcqRangeUpper d) bin_size
                          (get_encoding_dtype encoding)
             in case np_digitize (map fst pasef_array) bins of
                  Inl e \<Rightarrow> Inl e
                | Inr digitized \<Rightarrow>
                    (let inverse_indices = np_unique_inverse digitized;
                         bin_counts = np_place_lt1 (np_bincount inverse_indices)
                     in (case np_bincount_weights inverse_indices (map fst pasef_array) of
                           Inl e \<Rightarrow> Inl e
                         | Inr mz_sums \<Rightarrow>
                             (case np_bincount_weights inverse_indices (map snd pasef_array) of
                                Inl e \<Rightarrow> Inl e
                              | Inr intensity_sums \<Rightarrow>
                                  Inr (Some (map2 (\<lambda>s c. s / real c) mz_sums bin_counts,
                                             intensity_sums))))))
          else Inr None)"

section \<open>ScanRecordBuilder\<close>

text \<open>\<^verbatim>\<open>populate_scan_dict_w_lcms_tsf_tdf_metadata\<close>.\<close>

definition populate_scan_dict_w_lcms_tsf_tdf_metadata ::
  "scan_dict \<Rightarrow> frames_row \<Rightarrow> string \<Rightarrow> bool option \<Rightarrow> error + scan_dict" where
  "populate_scan_dict_w_lcms_tsf_tdf_metadata scan_dict frames_dict mode exclude_mobility =
     (case get_centroid_status mode exclude_mobility of
        Inl e \<Rightarrow> Inl e
      | Inr status \<Rightarrow>
          Inr (scan_dict \<lparr> polarity := Some (fr_Polarity frames_dict),
                           centroided := Some (fst status),
                           retention_time := Some (fr_Time frames_dict / 60) \<rparr>))"

text \<open>\<^verbatim>\<open>populate_scan_dict_w_ms1\<close>.\<close>

definition populate_scan_dict_w_ms1 :: "scan_dict \<Rightarrow> nat \<Rightarrow> scan_dict" where
  "populate_scan_dict_w_ms1 scan_dict frm =
     scan_dict \<lparr> scan_type := Some ''MS1 spectrum'', ms_level := Some 1, frame := Some frm \<rparr>"

text \<open>
  \<^verbatim>\<open>populate_scan_dict_w_bbcid_iscid_ms2\<close> for the schemas TSF and TDF, the only ones the
  TDF parser passes; the BAF branch, which reads the BAF tables, is left out.
\<close>

definition populate_scan_dict_w_bbcid_iscid_ms2 ::
  "scan_dict \<Rightarrow> nat \<Rightarrow> framemsmsinfo_row \<Rightarrow> scan_dict" where
  "populate_scan_dict_w_bbcid_iscid_ms2 scan_dict frm framemsmsinfo_dict =
     scan_dict \<lparr> scan_type := Some ''MSn spectrum'', ms_level := Some 2,
                 collision_energy := Some (fm_CollisionEnergy framemsmsinfo_dict),
                 frame := Some frm, ms2_no_precursor := True \<rparr>"

text \<open>
  \<^verbatim>\<open>populate_scan_dict_w_ddapasef_ms2\<close>. \<^verbatim>\<open>pasefframemsmsinfo_dicts[0]\<close> raises IndexError
  on an empty list. The collision cross-section is assigned only under
  \<^verbatim>\<open>if not np.isnan(precursor_dict['Charge'])\<close>.
\<close>

definition populate_scan_dict_w_ddapasef_ms2 ::
  "scan_dict \<Rightarrow> tdf_data \<Rightarrow> precursors_row \<Rightarrow> pasefframemsmsinfo_row list
     \<Rightarrow> error + scan_dict" where
  "populate_scan_dict_w_ddapasef_ms2 scan_dict d precursor_dict pasefframemsmsinfo_dicts =
     (case pasefframemsmsinfo_dicts of
        [] \<Rightarrow> Inl IndexError
      | pasef0 # _ \<Rightarrow>
          (let mobility = tims_scannum_to_oneoverk0 d (pr_Parent precursor_dict)
                            (pr_ScanNumber precursor_dict);
               filled = scan_dict
                 \<lparr> scan_type := Some ''MSn spectrum'', ms_level := Some 2,
                   target_mz := Some (pr_AverageMz precursor_dict),
                   isolation_lower_offset := Some (pf_IsolationWidth pasef0 / 2),
                   isolation_upper_offset := Some (pf_IsolationWidth pasef0 / 2),
                   selected_ion_mz := Some (pr_LargestPeakMz precursor_dict),
                   selected_ion_intensity := Some (pr_Intensity precursor_dict),
                   selected_ion_mobility := Some mobility,
                   charge_state := Some (pr_Charge precursor_dict),
                   collision_energy := Some (pf_CollisionEnergy pasef0),
                   parent_frame := Some (pr_Parent precursor_dict),
                   parent_scan := Some (pr_ScanNumber precursor_dict) \<rparr>
           in case pr_Charge precursor_dict of
                NaN \<Rightarrow> Inr filled
              | Fl charge \<Rightarrow>
                  Inr (filled \<lparr> selected_ion_ccs :=
                         Some (tims_oneoverk0_to_ccs_for_mz d mobility (py_int charge)
                                 (pr_LargestPeakMz precursor_dict)) \<rparr>)))"

text \<open>\<^verbatim>\<open>populate_scan_dict_w_diapasef_ms2\<close>.\<close>

definition populate_scan_dict_w_diapasef_ms2 ::
  "scan_dict \<Rightarrow> diaframemsmswindows_row \<Rightarrow> scan_dict" where
  "populate_scan_dict_w_diapasef_ms2 scan_dict diaframemsmswindows_dict =
     scan_dict \<lparr> scan_type := Some ''MSn spectrum'', ms_level := Some 2,
                 target_mz := Some (dw_IsolationMz diaframemsmswindows_dict),
                 isolation_lower_offset := Some (dw_IsolationWidth diaframemsmswindows_dict / 2),
                 isolation_upper_offset := Some (dw_IsolationWidth diaframemsmswindows_dict / 2),
                 selected_ion_mz := Some (dw_IsolationMz diaframemsmswindows_dict),
                 collision_energy := Some (dw_CollisionEnergy diaframemsmswindows_dict) \<rparr>"

text \<open>
  \<^verbatim>\<open>populate_scan_dict_w_prmpasef_ms2\<close>. The collision cross-section is assigned only
  under \<^verbatim>\<open>if not np.isnan(prmtargets_dict['Charge'])\<close>.
\<close>

definition populate_scan_dict_w_prmpasef_ms2 ::
  "tdf_data \<Rightarrow> scan_dict \<Rightarrow> prmframemsmsinfo_row \<Rightarrow> prmtargets_row \<Rightarrow> scan_dict" where
  "populate_scan_dict_w_prmpasef_ms2 d scan_dict prmframemsmsinfo_dict prmtargets_dict =
     (let filled = scan_dict
            \<lparr> scan_type := Some ''MSn spectrum'', ms_level := Some 2,
              target_mz := Some (pm_IsolationMz prmframemsmsinfo_dict),
              isolation_lower_offset := Some (pm_IsolationWidth prmframemsmsinfo_dict / 2),
              isolation_upper_offset := Some (pm_IsolationWidth prmframemsmsinfo_dict / 2),
              selected_ion_mz := Some (pm_IsolationMz prmframemsmsinfo_dict),
              selected_ion_mobility := Some (pt_OneOverK0 prmtargets_dict),
              charge_state := Some (pt_Charge prmtargets_dict),
              collision_energy := Some (pm_CollisionEnergy prmframemsmsinfo_dict) \<rparr>
      in case pt_Charge prmtargets_dict of
           NaN \<Rightarrow> filled
         | Fl charge \<Rightarrow>
             filled \<lparr> selected_ion_ccs :=
               Some (tims_oneoverk0_to_ccs_for_mz d (pt_OneOverK0 prmtargets_dict)
                       (py_int charge) (pm_IsolationMz prmframemsmsinfo_dict)) \<rparr>)"

text \<open>
  \<^verbatim>\<open>populate_scan_dict_w_tsf_ms2\<close> as the TDF parser calls it, with \<^verbatim>\<open>lcms=False\<close>: the
  parent frame is not assigned.
\<close>

definition populate_scan_dict_w_tsf_ms2 :: "scan_dict \<Rightarrow> framemsmsinfo_row \<Rightarrow> scan_dict" where
  "populate_scan_dict_w_tsf_ms2 scan_dict framemsmsinfo_dict =
     scan_dict \<lparr> scan_type := Some ''MSn spectrum'', ms_level := Some 2,
                 target_mz := Some (fm_TriggerMass framemsmsinfo_dict),
                 isolation_lower_offset := Some (fm_IsolationWidth framemsmsinfo_dict / 2),
                 isolation_upper_offset := Some (fm_IsolationWidth framemsmsinfo_dict / 2),
                 selected_ion_mz := Some (fm_TriggerMass framemsmsinfo_dict),
                 charge_state := Some (fm_PrecursorCharge framemsmsinfo_dict),
                 collision_energy := Some (fm_CollisionEnergy framemsmsinfo_dict) \<rparr>"

section \<open>The TDF parser\<close>

text \<open>
  Four branches of \<^verbatim>\<open>parse_lcms_tdf\<close> repeat the same three steps inline; each step is one
  function here.

  First the extraction, \<^verbatim>\<open>if not exclude_mobility: ... extract_3d_tdf_spectrum ... elif
  exclude_mobility: ... extract_2d_tdf_spectrum\<close>. The result is the pair of arrays
  (\<open>None\<close> for the extractor's \<^verbatim>\<open>None\<close>s) and the value of \<^verbatim>\<open>mobility_array\<close>.
\<close>

definition extract_tdf_arrays ::
  "tdf_data \<Rightarrow> string \<Rightarrow> bool option \<Rightarrow> nat \<Rightarrow> nat \<Rightarrow> nat \<Rightarrow> nat \<Rightarrow> nat
     \<Rightarrow> error + ((real list \<times> real list) option \<times> real list option)" where
  "extract_tdf_arrays d mode exclude_mobility frm scan_begin scan_end profile_bins encoding =
     (if \<not> py_truthy exclude_mobility then
        (case extract_3d_tdf_spectrum d frm scan_begin scan_end of
           Inl e \<Rightarrow> Inl e
         | Inr None \<Rightarrow> Inr (None, None)
         | Inr (Some (mz_arr, intensity_arr, mobility_arr)) \<Rightarrow>
             Inr (Some (mz_arr, intensity_arr), Some mobility_arr))
      else
        (case extract_2d_tdf_spectrum d mode frm scan_begin scan_end profile_bins encoding of
           Inl e \<Rightarrow> Inl e
         | Inr extracted \<Rightarrow> Inr (extracted, None)))"

text \<open>
  Last the mobility array, \<^verbatim>\<open>if not exclude_mobility and mobility_array.size != 0 and
  mobility_array is not None: scan_dict['mobility_array'] = mobility_array\<close>.
\<close>

definition attach_mobility_array ::
  "bool option \<Rightarrow> real list option \<Rightarrow> scan_dict \<Rightarrow> error + scan_dict" where
  "attach_mobility_array exclude_mobility mobility scan_dict =
     (if \<not> py_truthy exclude_mobility then
        (case mobility of
           None \<Rightarrow> Inl AttributeError
         | Some mobility_arr \<Rightarrow>
             Inr (if mobility_arr \<noteq> [] then scan_dict \<lparr> mobility_array := Some mobility_arr \<rparr>
                  else scan_dict))
      else Inr scan_dict)"

text \<open>
  In between, the test of the arrays and the record: when \<open>arrays_usable\<close> holds the
  record is completed (\<open>fill\<close> stands for the populate call of the branch, where it
  comes before the spectrum data) and is the one record appended; otherwise nothing is
  appended.
\<close>

definition record_if_usable ::
  "bool option \<Rightarrow> (real list \<times> real list) option \<times> real list option \<Rightarrow> scan_dict
     \<Rightarrow> (scan_dict \<Rightarrow> scan_dict) \<Rightarrow> error + scan_dict list" where
  "record_if_usable exclude_mobility extracted scan_dict fill =
     (case arrays_usable (fst extracted) of
        Inl e \<Rightarrow> Inl e
      | Inr usable \<Rightarrow>
          if usable then
            (case populate_scan_dict_w_spectrum_data (fill scan_dict)
                    (fst (the (fst extracted))) (snd (the (fst extracted))) of
               Inl e \<Rightarrow> Inl e
             | Inr with_data \<Rightarrow>
                 (case attach_mobility_array exclude_mobility (snd extracted) with_data of
                    Inl e \<Rightarrow> Inl e
                  | Inr finished \<Rightarrow> Inr [finished]))
          else Inr [])"

text \<open>
  The loop over the precursors of a ddaPASEF MS1 frame (lines 867 to 886 of
  \<^verbatim>\<open>parse.py\<close>): the records appended to \<^verbatim>\<open>list_of_product_scans\<close>.
\<close>

fun precursor_loop ::
  "tdf_data \<Rightarrow> frames_row \<Rightarrow> string \<Rightarrow> bool option \<Rightarrow> nat \<Rightarrow> nat
     \<Rightarrow> precursors_row list
     \<Rightarrow> error + scan_dict list" where
  "precursor_loop d frames_dict mode exclude_mobility profile_bins encoding [] = Inr []"
| "precursor_loop d frames_dict mode exclude_mobility profile_bins encoding (precursor_dict # rest) =
     (case populate_scan_dict_w_lcms_tsf_tdf_metadata init_scan_dict frames_dict mode
             exclude_mobility of
        Inl e \<Rightarrow> Inl e
      | Inr scan_dict \<Rightarrow>
          (let pasefframemsmsinfo_dicts =
                 filter (\<lambda>r. pf_Precursor r = pr_Id precursor_dict) (PasefFrameMsMsInfo d)
           in case extract_ddapasef_precursor_spectrum d pasefframemsmsinfo_dicts mode
                     profile_bins encoding of
                Inl e \<Rightarrow> Inl e
              | Inr None \<Rightarrow> precursor_loop d frames_dict mode exclude_mobility profile_bins encoding rest
              | Inr (Some (mz_arr, intensity_arr)) \<Rightarrow>
                  (case populate_scan_dict_w_ddapasef_ms2 scan_dict d precursor_dict
                          pasefframemsmsinfo_dicts of
                     Inl e \<Rightarrow> Inl e
                   | Inr with_precursor \<Rightarrow>
                       (case populate_scan_dict_w_spectrum_data with_precursor mz_arr
                               intensity_arr of
                          Inl e \<Rightarrow> Inl e
                        | Inr finished \<Rightarrow>
                            (case precursor_loop d frames_dict mode exclude_mobility
                                    profile_bins encoding rest of
                               Inl e \<Rightarrow> Inl e
                             | Inr later \<Rightarrow> Inr (finished # later))))))"

text \<open>
  The loop over the isolation windows of a diaPASEF frame (lines 894 to 923): the records
  appended to \<^verbatim>\<open>list_of_parent_scans\<close>.
\<close>

fun dia_window_loop ::
  "tdf_data \<Rightarrow> frames_row \<Rightarrow> string \<Rightarrow> bool option \<Rightarrow> nat \<Rightarrow> nat \<Rightarrow> nat
     \<Rightarrow> diaframemsmswindows_row list \<Rightarrow> error + scan_dict list" where
  "dia_window_loop d frames_dict mode exclude_mobility profile_bins encoding frm [] = Inr []"
| "dia_window_loop d frames_dict mode exclude_mobility profile_bins encoding frm (window # rest) =
     (case populate_scan_dict_w_lcms_tsf_tdf_metadata init_scan_dict frames_dict mode
             exclude_mobility of
        Inl e \<Rightarrow> Inl e
      | Inr scan_dict \<Rightarrow>
          (case extract_tdf_arrays d mode exclude_mobility frm (dw_ScanNumBegin window)
                  (dw_ScanNumEnd window) profile_bins encoding of
             Inl e \<Rightarrow> Inl e
           | Inr extracted \<Rightarrow>
               (case record_if_usable exclude_mobility extracted scan_dict
                       (\<lambda>s. populate_scan_dict_w_diapasef_ms2 s window) of
                  Inl e \<Rightarrow> Inl e
                | Inr now \<Rightarrow>
                    (case dia_window_loop d frames_dict mode exclude_mobility profile_bins encoding frm
                            rest of
                       Inl e \<Rightarrow> Inl e
                     | Inr later \<Rightarrow> Inr (now @ later)))))"

text \<open>
  The body of the frame loop of \<^verbatim>\<open>parse_lcms_tdf\<close> is a chain \<^verbatim>\<open>if ... elif ...\<close> with one
  branch for each acquisition mode. Each branch is a function here, named after the
  comment that opens it in the source; its result is the pair of the records the branch
  appends to \<^verbatim>\<open>list_of_parent_scans\<close> and to \<^verbatim>\<open>list_of_product_scans\<close>. \<open>exclude_mobility\<close>
  is the flag after line 826 has replaced it.

  ``Parse MS1 frame(s)'' (lines 834 to 886): the MS1 record, then, when the window spans
  more than one frame and the frame is a ddaPASEF precursor frame, its precursors.
\<close>

definition parse_ms1_frame ::
  "tdf_data \<Rightarrow> nat \<Rightarrow> nat \<Rightarrow> string \<Rightarrow> bool option \<Rightarrow> nat \<Rightarrow> nat \<Rightarrow> nat
     \<Rightarrow> frames_row
     \<Rightarrow> error + (scan_dict list \<times> scan_dict list)" where
  "parse_ms1_frame d frame_start frame_stop mode exclude_mobility profile_bins encoding frm frames_dict =
     (case populate_scan_dict_w_lcms_tsf_tdf_metadata init_scan_dict frames_dict mode
             exclude_mobility of
        Inl e \<Rightarrow> Inl e
      | Inr scan_dict \<Rightarrow>
          (case extract_tdf_arrays d mode exclude_mobility frm 0 (fr_NumScans frames_dict)
                  profile_bins encoding of
             Inl e \<Rightarrow> Inl e
           | Inr extracted \<Rightarrow>
               (case record_if_usable exclude_mobility extracted
                       (populate_scan_dict_w_ms1 scan_dict frm) (\<lambda>s. s) of
                  Inl e \<Rightarrow> Inl e
                | Inr parents \<Rightarrow>
                    if frame_stop - frame_start > 1
                       \<and> fr_ScanMode frames_dict = 8 \<and> fr_MsMsType frames_dict = 0
                    then
                      (case precursor_loop d frames_dict mode exclude_mobility profile_bins encoding
                              (filter (\<lambda>r. pr_Parent r = frm) (Precursors d)) of
                         Inl e \<Rightarrow> Inl e
                       | Inr products \<Rightarrow> Inr (parents, products))
                    else Inr (parents, []))))"

text \<open>``Parse frames with diaPASEF spectra'' (lines 888 to 923).\<close>

definition parse_diapasef_frame ::
  "tdf_data \<Rightarrow> string \<Rightarrow> bool option \<Rightarrow> nat \<Rightarrow> nat \<Rightarrow> nat \<Rightarrow> frames_row
     \<Rightarrow> error + (scan_dict list \<times> scan_dict list)" where
  "parse_diapasef_frame d mode exclude_mobility profile_bins encoding frm frames_dict =
     (case first_row (\<lambda>r. di_Frame r = frm) (DiaFrameMsMsInfo d) of
        Inl e \<Rightarrow> Inl e
      | Inr diaframemsmsinfo_dict \<Rightarrow>
          (case dia_window_loop d frames_dict mode exclude_mobility profile_bins encoding frm
                  (filter (\<lambda>r. dw_WindowGroup r = di_WindowGroup diaframemsmsinfo_dict)
                     (DiaFrameMsMsWindows d)) of
             Inl e \<Rightarrow> Inl e
           | Inr parents \<Rightarrow> Inr (parents, [])))"

text \<open>``Parse frames with bbCID spectra'' (lines 925 to 955).\<close>

definition parse_bbcid_frame ::
  "tdf_data \<Rightarrow> string \<Rightarrow> bool option \<Rightarrow> nat \<Rightarrow> nat \<Rightarrow> nat \<Rightarrow> frames_row
     \<Rightarrow> error + (scan_dict list \<times> scan_dict list)" where
  "parse_bbcid_frame d mode exclude_mobility profile_bins encoding frm frames_dict =
     (case populate_scan_dict_w_lcms_tsf_tdf_metadata init_scan_dict frames_dict mode
             exclude_mobility of
        Inl e \<Rightarrow> Inl e
      | Inr scan_dict \<Rightarrow>
          (case first_row (\<lambda>r. fm_Frame r = frm) (FrameMsMsInfo d) of
             Inl e \<Rightarrow> Inl e
           | Inr framemsmsinfo_dict \<Rightarrow>
               (case extract_tdf_arrays d mode exclude_mobility frm 0 (fr_NumScans frames_dict)
                       profile_bins encoding of
                  Inl e \<Rightarrow> Inl e
                | Inr extracted \<Rightarrow>
                    (case record_if_usable exclude_mobility extracted
                            (populate_scan_dict_w_bbcid_iscid_ms2 scan_dict frm
                               framemsmsinfo_dict) (\<lambda>s. s) of
                       Inl e \<Rightarrow> Inl e
                     | Inr parents \<Rightarrow> Inr (parents, [])))))"

text \<open>
  ``Parse frames with MRM spectra'' (lines 957 to 977). This branch and the next always
  extract in two dimensions and never assign a mobility array.
\<close>

definition parse_mrm_frame ::
  "tdf_data \<Rightarrow> string \<Rightarrow> bool option \<Rightarrow> nat \<Rightarrow> nat \<Rightarrow> nat \<Rightarrow> frames_row
     \<Rightarrow> error + (scan_dict list \<times> scan_dict list)" where
  "parse_mrm_frame d mode exclude_mobility profile_bins encoding frm frames_dict =
     (case populate_scan_dict_w_lcms_tsf_tdf_metadata init_scan_dict frames_dict mode
             exclude_mobility of
        Inl e \<Rightarrow> Inl e
      | Inr scan_dict \<Rightarrow>
          (case first_row (\<lambda>r. fm_Frame r = frm) (FrameMsMsInfo d) of
             Inl e \<Rightarrow> Inl e
           | Inr framemsmsinfo_dict \<Rightarrow>
               (case extract_2d_tdf_spectrum d mode frm 0 (fr_NumScans frames_dict)
                       profile_bins encoding of
                  Inl e \<Rightarrow> Inl e
                | Inr extracted \<Rightarrow>
                    (case record_if_usable (Some True) (extracted, None) scan_dict
                            (\<lambda>s. populate_scan_dict_w_tsf_ms2 s framemsmsinfo_dict) of
                       Inl e \<Rightarrow> Inl e
                     | Inr parents \<Rightarrow> Inr (parents, [])))))"

text \<open>``Parse frames with prm-PASEF spectra'' (lines 979 to 1003).\<close>

definition parse_prmpasef_frame ::
  "tdf_data \<Rightarrow> string \<Rightarrow> bool option \<Rightarrow> nat \<Rightarrow> nat \<Rightarrow> nat \<Rightarrow> frames_row
     \<Rightarrow> error + (scan_dict list \<times> scan_dict list)" where
  "parse_prmpasef_frame d mode exclude_mobility profile_bins encoding frm frames_dict =
     (case populate_scan_dict_w_lcms_tsf_tdf_metadata init_scan_dict frames_dict mode
             exclude_mobility of
        Inl e \<Rightarrow> Inl e
      | Inr scan_dict \<Rightarrow>
          (case first_row (\<lambda>r. pm_Frame r = frm) (PrmFrameMsMsInfo d) of
             Inl e \<Rightarrow> Inl e
           | Inr prmframemsmsinfo_dict \<Rightarrow>
               (case first_row (\<lambda>r. pt_Id r = pm_Target prmframemsmsinfo_dict)
                       (PrmTargets d) of
                  Inl e \<Rightarrow> Inl e
                | Inr prmtargets_dict \<Rightarrow>
                    (case extract_2d_tdf_spectrum d mode frm
                            (pm_ScanNumBegin prmframemsmsinfo_dict)
                            (pm_ScanNumEnd prmframemsmsinfo_dict) profile_bins encoding of
                       Inl e \<Rightarrow> Inl e
                     | Inr extracted \<Rightarrow>
                         (case record_if_usable (Some True) (extracted, None) scan_dict
                                 (\<lambda>s. populate_scan_dict_w_prmpasef_ms2 d s
                                         prmframemsmsinfo_dict prmtargets_dict) of
                            Inl e \<Rightarrow> Inl e
                          | Inr parents \<Rightarrow> Inr (parents, []))))))"

text \<open>
  The chain itself: the row of the frame is looked up, then the first branch whose
  condition holds runs; a frame that matches none appends nothing.
\<close>

definition parse_tdf_frame ::
  "tdf_data \<Rightarrow> nat \<Rightarrow> nat \<Rightarrow> string \<Rightarrow> bool \<Rightarrow> bool option \<Rightarrow> nat \<Rightarrow> nat \<Rightarrow> nat
     \<Rightarrow> error + (scan_dict list \<times> scan_dict list)" where
  "parse_tdf_frame d frame_start frame_stop mode ms2_only exclude_mobility profile_bins encoding frm =
     (case first_row (\<lambda>r. fr_Id r = frm) (Frames d) of
        Inl e \<Rightarrow> Inl e
      | Inr frames_dict \<Rightarrow>
          if fr_MsMsType frames_dict \<in> set (MSMS_TYPE_CATEGORY_ms1 d) \<and> \<not> ms2_only then
            parse_ms1_frame d frame_start frame_stop mode exclude_mobility profile_bins encoding frm
              frames_dict
          else if fr_ScanMode frames_dict = 9 \<and> fr_MsMsType frames_dict = 9 then
            parse_diapasef_frame d mode exclude_mobility profile_bins encoding frm frames_dict
          else if fr_ScanMode frames_dict = 4 \<and> fr_MsMsType frames_dict = 2 then
            parse_bbcid_frame d mode exclude_mobility profile_bins encoding frm frames_dict
          else if fr_ScanMode frames_dict = 2 \<and> fr_MsMsType frames_dict = 2 then
            parse_mrm_frame d mode exclude_mobility profile_bins encoding frm frames_dict
          else if fr_ScanMode frames_dict = 10 \<and> fr_MsMsType frames_dict = 10 then
            parse_prmpasef_frame d mode exclude_mobility profile_bins encoding frm frames_dict
          else Inr ([], []))"

text \<open>The frame loop: the two lists grow frame by frame.\<close>

fun parse_tdf_frames ::
  "tdf_data \<Rightarrow> nat \<Rightarrow> nat \<Rightarrow> string \<Rightarrow> bool \<Rightarrow> bool option \<Rightarrow> nat \<Rightarrow> nat
     \<Rightarrow> nat list
     \<Rightarrow> error + (scan_dict list \<times> scan_dict list)" where
  "parse_tdf_frames d frame_start frame_stop mode ms2_only exclude_mobility profile_bins encoding [] =
     Inr ([], [])"
| "parse_tdf_frames d frame_start frame_stop mode ms2_only exclude_mobility profile_bins encoding
     (frm # rest) =
     (case parse_tdf_frame d frame_start frame_stop mode ms2_only exclude_mobility
             profile_bins encoding frm of
        Inl e \<Rightarrow> Inl e
      | Inr now \<Rightarrow>
          (case parse_tdf_frames d frame_start frame_stop mode ms2_only exclude_mobility
                  profile_bins encoding rest of
             Inl e \<Rightarrow> Inl e
           | Inr later \<Rightarrow> Inr (fst now @ fst later, snd now @ snd later)))"

text \<open>
  \<^verbatim>\<open>parse_lcms_tdf\<close>: line 826 replaces the caller's flag by the second component of
  \<^verbatim>\<open>get_centroid_status\<close>, then the frames of \<^verbatim>\<open>range(frame_start, frame_stop)\<close> are parsed.
\<close>

definition parse_lcms_tdf ::
  "tdf_data \<Rightarrow> nat \<Rightarrow> nat \<Rightarrow> string \<Rightarrow> bool \<Rightarrow> bool option \<Rightarrow> nat \<Rightarrow> nat
     \<Rightarrow> error + (scan_dict list \<times> scan_dict list)" where
  "parse_lcms_tdf d frame_start frame_stop mode ms2_only exclude_mobility profile_bins encoding =
     (case get_centroid_status mode exclude_mobility of
        Inl e \<Rightarrow> Inl e
      | Inr status \<Rightarrow>
          parse_tdf_frames d frame_start frame_stop mode ms2_only (snd status) profile_bins encoding
            [frame_start..<frame_stop])"

section \<open>The input of the LC-MS writer\<close>

text \<open>
  A BAF file. \<^verbatim>\<open>parse_lcms_baf\<close> is not embedded: its result on this file, as a function of
  \<open>frame_start frame_stop mode ms2_only profile_bins encoding\<close>, is a field, so every property
  of the writer below holds whatever the BAF parser returns. \<open>baf_AcquisitionKey\<close> is the
  column \<^verbatim>\<open>data.frames['AcquisitionKey']\<close>.
\<close>

record baf_data =
  baf_AcquisitionKey :: "nat list"
  parse_lcms_baf ::
    "nat \<Rightarrow> nat \<Rightarrow> string \<Rightarrow> bool \<Rightarrow> nat \<Rightarrow> nat \<Rightarrow> error + (scan_dict list \<times> scan_dict list)"

text \<open>
  \<^verbatim>\<open>data.meta_data['SchemaType']\<close> selects the parser; \<open>OtherSchema\<close> is any value but
  \<^verbatim>\<open>'TDF'\<close> and \<^verbatim>\<open>'Baf2Sql'\<close>. The attributes \<^verbatim>\<open>data.frames\<close> and \<^verbatim>\<open>data.precursors\<close> are set
  in \<^verbatim>\<open>classes.py\<close>, which is not among the sources; for a TDF file they are taken to be the
  tables \<open>Frames\<close> and \<open>Precursors\<close>. \<^verbatim>\<open>data.ms1_frames\<close>, the ids of the MS1 frames, is
  computed there too and is a field.
\<close>

datatype schema_data = TDF tdf_data | Baf2Sql baf_data | OtherSchema

record lcms_data =
  schema :: schema_data
  ms1_frames :: "nat list"

text \<open>\<^verbatim>\<open>data.frames.shape[0]\<close>, the number of rows of the frame table.\<close>

definition frames_shape0 :: "lcms_data \<Rightarrow> nat" where
  "frames_shape0 data =
     (case schema data of
        TDF d \<Rightarrow> length (Frames d)
      | Baf2Sql b \<Rightarrow> length (baf_AcquisitionKey b)
      | OtherSchema \<Rightarrow> 0)"

text \<open>Python truth value of a float: zero is false, everything else, NaN included, true.\<close>

definition float_truthy :: "pyfloat \<Rightarrow> bool" where
  "float_truthy x = (case x of NaN \<Rightarrow> True | Fl v \<Rightarrow> v \<noteq> 0)"

text \<open>
  \<^verbatim>\<open>get_spectra_count\<close>. For another schema neither branch assigns the counts and the
  \<^verbatim>\<open>return\<close> raises UnboundLocalError.
\<close>

definition get_spectra_count :: "lcms_data \<Rightarrow> error + nat" where
  "get_spectra_count data =
     (case schema data of
        TDF d \<Rightarrow>
          (let ms1_count = length (filter (\<lambda>r. fr_MsMsType r = 0) (Frames d));
               ms2_count = length (filter float_truthy (map pr_MonoisotopicMz (Precursors d)))
           in Inr (ms1_count + ms2_count))
      | Baf2Sql b \<Rightarrow>
          (let ms1_count = length (filter (\<lambda>k. k = 1) (baf_AcquisitionKey b));
               ms2_count = length (filter (\<lambda>k. k = 2) (baf_AcquisitionKey b))
           in Inr (ms1_count + ms2_count))
      | OtherSchema \<Rightarrow> Inl UnboundLocalError)"

section \<open>The output sink\<close>

text \<open>
  One call of \<^verbatim>\<open>writer.write_spectrum\<close>, reduced to what the properties speak of: the
  scan number printed into \<^verbatim>\<open>id='scan=' + str(...)\<close>, the record written, whether precursor
  information was passed, and the scan number printed into its \<^verbatim>\<open>spectrum_reference\<close>
  (\<open>None\<close> when that key is not set). The sink is the list of the calls so far.
\<close>

record written_spectrum =
  ws_id :: "nat option"
  ws_scan :: scan_dict
  ws_precursor_information :: bool
  ws_spectrum_reference :: "nat option option"

text \<open>
  \<^verbatim>\<open>write_lcms_ms1_spectrum\<close>. An encoding other than 32 or 64 leaves \<^verbatim>\<open>encoding_dtype\<close>
  unassigned.
\<close>

definition write_lcms_ms1_spectrum ::
  "written_spectrum list \<Rightarrow> scan_dict \<Rightarrow> nat \<Rightarrow> error + written_spectrum list" where
  "write_lcms_ms1_spectrum writer parent_dict encoding =
     (if encoding = 32 \<or> encoding = 64 then
        Inr (writer @ [\<lparr> ws_id = scan_number parent_dict, ws_scan = parent_dict,
                         ws_precursor_information = False,
                         ws_spectrum_reference = None \<rparr>])
      else Inl UnboundLocalError)"

text \<open>
  \<^verbatim>\<open>write_lcms_ms2_spectrum\<close>. \<^verbatim>\<open>np.isnan(product_scan['charge_state'])\<close> raises TypeError
  on \<^verbatim>\<open>None\<close>. The reference to the parent is set under \<^verbatim>\<open>if parent_scan is not None\<close>.
\<close>

definition write_lcms_ms2_spectrum ::
  "written_spectrum list \<Rightarrow> scan_dict option \<Rightarrow> nat \<Rightarrow> scan_dict
     \<Rightarrow> error + written_spectrum list" where
  "write_lcms_ms2_spectrum writer parent_dict encoding product_dict =
     (if charge_state product_dict = None then Inl TypeError
      else if encoding = 32 \<or> encoding = 64 then
        Inr (writer @ [\<lparr> ws_id = scan_number product_dict, ws_scan = product_dict,
                         ws_precursor_information = True,
                         ws_spectrum_reference =
                           (case parent_dict of
                              None \<Rightarrow> None
                            | Some parent \<Rightarrow> Some (scan_number parent)) \<rparr>])
      else Inl UnboundLocalError)"

section \<open>PrecursorLinker and StreamingSerializer\<close>

text \<open>
  A loop \<^verbatim>\<open>for product in ...: scan_count += 1; product['scan_number'] = scan_count;
  write_lcms_ms2_spectrum(writer, parent, encoding, product, compression)\<close>, as it occurs
  twice in \<^verbatim>\<open>write_lcms_chunk_to_mzml\<close>. The assignment changes the dictionary shared with
  \<^verbatim>\<open>product_scans\<close>; the only later reads of that list are of \<^verbatim>\<open>parent_frame\<close>, so the
  updated copy is passed to the writer and the list is left as it was.
\<close>

fun write_product_loop ::
  "written_spectrum list \<Rightarrow> scan_dict option \<Rightarrow> nat \<Rightarrow> scan_dict list \<Rightarrow> nat
     \<Rightarrow> error + (written_spectrum list \<times> nat)" where
  "write_product_loop writer parent encoding [] scan_count = Inr (writer, scan_count)"
| "write_product_loop writer parent encoding (product # rest) scan_count =
     (case write_lcms_ms2_spectrum writer parent encoding
             (product \<lparr> scan_number := Some (scan_count + 1) \<rparr>) of
        Inl e \<Rightarrow> Inl e
      | Inr writer' \<Rightarrow> write_product_loop writer' parent encoding rest (scan_count + 1))"

text \<open>The loop \<^verbatim>\<open>for parent in parent_scans\<close> (lines 216 to 226 of \<^verbatim>\<open>write.py\<close>).\<close>

fun write_parent_loop ::
  "written_spectrum list \<Rightarrow> nat \<Rightarrow> scan_dict list \<Rightarrow> scan_dict list \<Rightarrow> nat
     \<Rightarrow> error + (written_spectrum list \<times> nat)" where
  "write_parent_loop writer encoding [] product_scans scan_count = Inr (writer, scan_count)"
| "write_parent_loop writer encoding (parent # rest) product_scans scan_count =
     (let products = filter (\<lambda>i. parent_frame i = frame parent) product_scans;
          numbered = parent \<lparr> scan_number := Some (scan_count + 1) \<rparr>
      in case write_lcms_ms1_spectrum writer numbered encoding of
           Inl e \<Rightarrow> Inl e
         | Inr writer' \<Rightarrow>
             (case write_product_loop writer' (Some numbered) encoding products
                     (scan_count + 1) of
                Inl e \<Rightarrow> Inl e
              | Inr after \<Rightarrow>
                  write_parent_loop (fst after) encoding rest product_scans (snd after)))"

text \<open>
  The part of \<^verbatim>\<open>write_lcms_chunk_to_mzml\<close> after the parse (lines 214 to 232): what is
  written for given \<^verbatim>\<open>parent_scans\<close> and \<^verbatim>\<open>product_scans\<close>. The \<^verbatim>\<open>elif\<close> is reached only when
  \<^verbatim>\<open>ms2_only\<close> is true.
\<close>

definition write_parsed_chunk ::
  "written_spectrum list \<Rightarrow> nat \<Rightarrow> bool \<Rightarrow> nat \<Rightarrow> scan_dict list \<Rightarrow> scan_dict list
     \<Rightarrow> error + (written_spectrum list \<times> nat)" where
  "write_parsed_chunk writer scan_count ms2_only encoding parent_scans product_scans =
     (if \<not> ms2_only then
        write_parent_loop writer encoding parent_scans product_scans scan_count
      else if ms2_only \<or> parent_scans = [] then
        write_product_loop writer None encoding product_scans scan_count
      else Inr (writer, scan_count))"

text \<open>
  The first part of \<^verbatim>\<open>write_lcms_chunk_to_mzml\<close> (lines 195 to 212): the parser is chosen
  by the schema. For a schema other than TDF and Baf2Sql the two lists are never assigned
  and the first loop over one of them raises UnboundLocalError.
\<close>

definition parse_lcms_chunk ::
  "lcms_data \<Rightarrow> nat \<Rightarrow> nat \<Rightarrow> string \<Rightarrow> bool \<Rightarrow> bool option \<Rightarrow> nat \<Rightarrow> nat
     \<Rightarrow> error + (scan_dict list \<times> scan_dict list)" where
  "parse_lcms_chunk data frame_start frame_stop mode ms2_only exclude_mobility profile_bins
     encoding =
     (case schema data of
        TDF d \<Rightarrow>
          parse_lcms_tdf d frame_start frame_stop mode ms2_only exclude_mobility profile_bins
            encoding
      | Baf2Sql b \<Rightarrow>
          parse_lcms_baf b frame_start frame_stop mode ms2_only profile_bins encoding
      | OtherSchema \<Rightarrow> Inl UnboundLocalError)"

text \<open>
  \<^verbatim>\<open>write_lcms_chunk_to_mzml\<close>: parse the window, then write. The result is the sink and
  the returned \<^verbatim>\<open>scan_count\<close>.
\<close>

definition write_lcms_chunk_to_mzml ::
  "lcms_data \<Rightarrow> written_spectrum list \<Rightarrow> nat \<Rightarrow> nat \<Rightarrow> nat \<Rightarrow> string \<Rightarrow> bool \<Rightarrow> bool option
     \<Rightarrow> nat \<Rightarrow> nat \<Rightarrow> error + (written_spectrum list \<times> nat)" where
  "write_lcms_chunk_to_mzml data writer frame_start frame_stop scan_count mode ms2_only
     exclude_mobility profile_bins encoding =
     (case parse_lcms_chunk data frame_start frame_stop mode ms2_only exclude_mobility
             profile_bins encoding of
        Inl e \<Rightarrow> Inl e
      | Inr parsed \<Rightarrow>
          write_parsed_chunk writer scan_count ms2_only encoding (fst parsed) (snd parsed))"

text \<open>
  A loop \<^verbatim>\<open>for frame_start, frame_stop in chunk_list: scan_count =
  write_lcms_chunk_to_mzml(...)\<close>.
\<close>

fun write_chunk_list ::
  "lcms_data \<Rightarrow> string \<Rightarrow> bool \<Rightarrow> bool option \<Rightarrow> nat \<Rightarrow> nat \<Rightarrow> (nat \<times> nat) list
     \<Rightarrow> written_spectrum list \<Rightarrow> nat \<Rightarrow> error + (written_spectrum list \<times> nat)" where
  "write_chunk_list data mode ms2_only exclude_mobility profile_bins encoding [] writer
     scan_count = Inr (writer, scan_count)"
| "write_chunk_list data mode ms2_only exclude_mobility profile_bins encoding
     (window # rest) writer scan_count =
     (case write_lcms_chunk_to_mzml data writer (fst window) (snd window) scan_count mode
             ms2_only exclude_mobility profile_bins encoding of
        Inl e \<Rightarrow> Inl e
      | Inr after \<Rightarrow>
          write_chunk_list data mode ms2_only exclude_mobility profile_bins encoding rest
            (fst after) (snd after))"

text \<open>
  The \<^verbatim>\<open>while\<close> loop of \<^verbatim>\<open>write_lcms_mzml\<close> (lines 261 to 279). Its state is \<^verbatim>\<open>chunk\<close>, the loop
  variable \<^verbatim>\<open>j\<close> of the \<^verbatim>\<open>zip\<close> (unassigned, \<open>None\<close>, before the first pair), the sink and
  \<^verbatim>\<open>scan_count\<close>; the result is the state in which the condition fails. The logging call
  reads \<^verbatim>\<open>chunk_list[0][0]\<close>, an IndexError when the slices were empty.
\<close>

function chunk_while ::
  "lcms_data \<Rightarrow> string \<Rightarrow> bool \<Rightarrow> bool option \<Rightarrow> nat \<Rightarrow> nat \<Rightarrow> nat \<Rightarrow> nat \<Rightarrow> nat option
     \<Rightarrow> written_spectrum list \<Rightarrow> nat
     \<Rightarrow> error + (nat \<times> nat option \<times> written_spectrum list \<times> nat)" where
  "chunk_while data mode ms2_only exclude_mobility profile_bins encoding chunk_size chunk j
     writer scan_count =
     (if chunk + chunk_size + 1 \<le> length (ms1_frames data) then
        (if zip (take chunk_size (drop chunk (ms1_frames data)))
                (take chunk_size (drop (chunk + 1) (ms1_frames data))) = []
         then Inl IndexError
         else
           (case write_chunk_list data mode ms2_only exclude_mobility profile_bins encoding
                   (zip (take chunk_size (drop chunk (ms1_frames data)))
                        (take chunk_size (drop (chunk + 1) (ms1_frames data))))
                   writer scan_count of
              Inl e \<Rightarrow> Inl e
            | Inr after \<Rightarrow>
                chunk_while data mode ms2_only exclude_mobility profile_bins encoding
                  chunk_size (chunk + chunk_size)
                  (Some (snd (last (zip (take chunk_size (drop chunk (ms1_frames data)))
                                        (take chunk_size (drop (chunk + 1) (ms1_frames data)))))))
                  (fst after) (snd after)))
      else Inr (chunk, j, writer, scan_count))"
  by pat_completeness auto
termination
proof (relation "measure (\<lambda>(data, mode, ms2_only, exclude_mobility, profile_bins, encoding,
                             chunk_size, chunk, j, writer, scan_count).
                           length (ms1_frames data) - chunk)")
  show "wf (measure (\<lambda>(data, mode, ms2_only, exclude_mobility, profile_bins, encoding,
                       chunk_size, chunk, j, writer, scan_count).
                     length (ms1_frames data) - chunk))"
    by simp
next
  fix data :: lcms_data and chunk_size chunk :: nat
  fix mode ms2_only exclude_mobility profile_bins encoding j writer scan_count x2
  assume le: "chunk + chunk_size + 1 \<le> length (ms1_frames data)"
    and ne: "zip (take chunk_size (drop chunk (ms1_frames data)))
                 (take chunk_size (drop (chunk + 1) (ms1_frames data))) \<noteq> []"
  from ne have "chunk_size \<noteq> 0" by auto
  with le show "((data, mode, ms2_only, exclude_mobility, profile_bins, encoding, chunk_size,
            chunk + chunk_size,
            Some (snd (last (zip (take chunk_size (drop chunk (ms1_frames data)))
                                 (take chunk_size (drop (chunk + 1) (ms1_frames data)))))),
            fst x2, snd x2),
           (data, mode, ms2_only, exclude_mobility, profile_bins, encoding, chunk_size,
            chunk, j, writer, scan_count))
          \<in> measure (\<lambda>(data, mode, ms2_only, exclude_mobility, profile_bins, encoding,
                        chunk_size, chunk, j, writer, scan_count).
                      length (ms1_frames data) - chunk)"
    by simp
qed

declare chunk_while.simps [simp del]

text \<open>
  The \<^verbatim>\<open>else\<close> clause of the loop (lines 281 to 298), which runs once the condition fails:
  the remaining windows \<^verbatim>\<open>zip(ms1_frames[chunk:-1], ms1_frames[chunk + 1:])\<close>, then the
  window from \<^verbatim>\<open>j\<close> to \<^verbatim>\<open>data.frames.shape[0] + 1\<close>. Reading \<^verbatim>\<open>j\<close> raises UnboundLocalError
  when no \<^verbatim>\<open>zip\<close> of the function has produced a pair.
\<close>

definition chunk_else ::
  "lcms_data \<Rightarrow> string \<Rightarrow> bool \<Rightarrow> bool option \<Rightarrow> nat \<Rightarrow> nat \<Rightarrow> nat \<Rightarrow> nat option
     \<Rightarrow> written_spectrum list \<Rightarrow> nat \<Rightarrow> error + (written_spectrum list \<times> nat)" where
  "chunk_else data mode ms2_only exclude_mobility profile_bins encoding chunk j writer
     scan_count =
     (let pairs = zip (butlast (drop chunk (ms1_frames data)))
                      (drop (chunk + 1) (ms1_frames data));
          j' = (if pairs = [] then j else Some (snd (last pairs)))
      in case j' of
           None \<Rightarrow> Inl UnboundLocalError
         | Some last_frame \<Rightarrow>
             write_chunk_list data mode ms2_only exclude_mobility profile_bins encoding
               (pairs @ [(last_frame, frames_shape0 data + 1)]) writer scan_count)"

section \<open>Count reconciliation\<close>

text \<open>\<^verbatim>\<open>str(n)\<close> of a non-negative integer: its decimal digits.\<close>

definition digit_char :: "nat \<Rightarrow> char" where
  "digit_char n = char_of (48 + n)"

function py_str :: "nat \<Rightarrow> string" where
  "py_str n = (if n < 10 then [digit_char n] else py_str (n div 10) @ [digit_char (n mod 10)])"
  by pat_completeness auto
termination
  by (relation "measure (\<lambda>n. n)") auto

declare py_str.simps [simp del]

text \<open>
  \<^verbatim>\<open>s.replace(old, new)\<close>: every occurrence of \<open>old\<close>, found from the left without
  overlap, is replaced; an empty \<open>old\<close> matches before every character and at the end.
\<close>

function replace_nonempty :: "string \<Rightarrow> string \<Rightarrow> string \<Rightarrow> string" where
  "replace_nonempty [] old new = []"
| "replace_nonempty (c # s) old new =
     (if old \<noteq> [] \<and> take (length old) (c # s) = old
      then new @ replace_nonempty (drop (length old) (c # s)) old new
      else c # replace_nonempty s old new)"
  by pat_completeness auto
termination
  by (relation "measure (\<lambda>(s, old, new). length s)") auto

definition py_replace :: "string \<Rightarrow> string \<Rightarrow> string \<Rightarrow> string" where
  "py_replace s old new =
     (if old = [] then new @ concat (map (\<lambda>c. c # new) s) else replace_nonempty s old new)"

text \<open>
  The line that \<^verbatim>\<open>update_spectra_count\<close> looks for and the line it puts in its place, as
  the source spells them: six spaces, the opening tag with the count in double quotes,
  and the reference to the data processing \<^verbatim>\<open>exportation\<close>.
\<close>

definition spectrum_list_tag :: "nat \<Rightarrow> string" where
  "spectrum_list_tag n =
     ''      <spectrumList count='' @ [CHR 0x22] @ py_str n @ [CHR 0x22]
       @ '' defaultDataProcessingRef='' @ [CHR 0x22] @ ''exportation'' @ [CHR 0x22] @ ''>''"

text \<open>
  The two files of a run: the temporary file the sink writes and the final file, each
  \<open>None\<close> while it does not exist, otherwise its lines.
\<close>

record output_files =
  tmp_mzML :: "string list option"
  final_mzML :: "string list option"

text \<open>
  \<^verbatim>\<open>update_spectra_count\<close>: every line of the temporary file goes through the replacement
  into the final file, then the temporary file is removed. Opening a file that does not
  exist raises (FileNotFoundError, given here as KeyError on the missing name).
\<close>

definition update_spectra_count :: "output_files \<Rightarrow> nat \<Rightarrow> nat \<Rightarrow> error + output_files" where
  "update_spectra_count files num_of_spectra scan_count =
     (case tmp_mzML files of
        None \<Rightarrow> Inl KeyError
      | Some in_stream \<Rightarrow>
          Inr \<lparr> tmp_mzML = None,
                final_mzML = Some (map (\<lambda>line. py_replace line (spectrum_list_tag num_of_spectra)
                                                 (spectrum_list_tag scan_count)) in_stream) \<rparr>)"

text \<open>
  The outcome of \<^verbatim>\<open>write_lcms_mzml\<close>: the count declared to \<^verbatim>\<open>writer.spectrum_list\<close>, the
  spectra written, the final \<^verbatim>\<open>scan_count\<close>, and the files left behind.
\<close>

record mzml_run =
  run_declared :: nat
  run_written :: "written_spectrum list"
  run_scan_count :: nat
  run_files :: output_files

text \<open>
  \<^verbatim>\<open>write_lcms_mzml\<close> from the opening of the run (line 253) on. The text the sink
  (\<^verbatim>\<open>psims\<close>) puts into the temporary file is outside the sources: \<open>render declared written\<close>
  stands for its lines. The metadata written before the run is not modelled.
\<close>

definition write_lcms_mzml ::
  "lcms_data \<Rightarrow> (nat \<Rightarrow> written_spectrum list \<Rightarrow> string list) \<Rightarrow> string \<Rightarrow> bool
     \<Rightarrow> bool option \<Rightarrow> nat \<Rightarrow> nat \<Rightarrow> nat \<Rightarrow> error + mzml_run" where
  "write_lcms_mzml data render mode ms2_only exclude_mobility profile_bins encoding
     chunk_size =
     (case get_spectra_count data of
        Inl e \<Rightarrow> Inl e
      | Inr num_of_spectra \<Rightarrow>
          (case chunk_while data mode ms2_only exclude_mobility profile_bins encoding
                  chunk_size 0 None [] 0 of
             Inl e \<Rightarrow> Inl e
           | Inr (chunk, j, writer, scan_count) \<Rightarrow>
               (case chunk_else data mode ms2_only exclude_mobility profile_bins encoding
                       chunk j writer scan_count of
                  Inl e \<Rightarrow> Inl e
                | Inr (writer', scan_count') \<Rightarrow>
                    (let files = \<lparr> tmp_mzML = Some (render num_of_spectra writer'),
                                    final_mzML = None \<rparr>
                     in if num_of_spectra \<noteq> scan_count' then
                          (case update_spectra_count files num_of_spectra scan_count' of
                             Inl e \<Rightarrow> Inl e
                           | Inr files' \<Rightarrow>
                               Inr \<lparr> run_declared = num_of_spectra, run_written = writer',
                                     run_scan_count = scan_count', run_files = files' \<rparr>)
                        else
                          Inr \<lparr> run_declared = num_of_spectra, run_written = writer',
                                run_scan_count = scan_count', run_files = files \<rparr>))))"

section \<open>Example data\<close>

text \<open>
  A TDF file with empty tables, whose SDK decodes nothing: every sub-scan is empty and so
  are the profile and centroid spectra. The index-to-mass calibration maps index \<open>i\<close> to
  m/z \<open>i\<close>, sub-scan \<open>n\<close> has mobility \<open>1 + n / 10\<close>. The concrete inputs of the examples
  below are updates of this record.
\<close>

definition tdf_empty :: tdf_data where
  "tdf_empty =
     \<lparr> Frames = [], Precursors = [], PasefFrameMsMsInfo = [], DiaFrameMsMsInfo = [],
       DiaFrameMsMsWindows = [], FrameMsMsInfo = [], PrmFrameMsMsInfo = [], PrmTargets = [],
       MzAcqRangeLower = 0, MzAcqRangeUpper = 0, MSMS_TYPE_CATEGORY_ms1 = [0],
       tims_read_scans_v2 = (\<lambda>frm scan_begin scan_end. replicate (scan_end - scan_begin) ([], [])),
       tims_index_to_mz = (\<lambda>frm indices. map real indices),
       tims_scannum_to_oneoverk0 = (\<lambda>frm scan_num. 1 + real scan_num / 10),
       tims_oneoverk0_to_ccs_for_mz = (\<lambda>mobility charge mz. mobility * real_of_int charge),
       tims_extract_profile_for_frame = (\<lambda>frm scan_begin scan_end. ([], [])),
       tims_extract_centroided_spectrum_for_frame_v2 = (\<lambda>frm scan_begin scan_end. ([], [])) \<rparr>"

text \<open>
  An MS1 frame row with two sub-scans, used by the examples (scan mode 0, MS/MS type 0).
\<close>

definition ms1_frame_example :: "nat \<Rightarrow> frames_row" where
  "ms1_frame_example n =
     \<lparr> fr_Id = n, fr_MsMsType = 0, fr_ScanMode = 0, fr_NumScans = 2, fr_Polarity = ''+'',
       fr_Time = 60 \<rparr>"

section \<open>Predicates used in the statements\<close>

text \<open>
  A record has a collision cross-section only together with a finite charge state. This
  predicate is not part of the source.
\<close>

definition ccs_needs_charge :: "scan_dict \<Rightarrow> bool" where
  "ccs_needs_charge r = (selected_ion_ccs r \<noteq> None \<longrightarrow> (\<exists>c. charge_state r = Some (Fl c)))"

text \<open>
  What a spectrum written for the record \<open>s\<close> looks like: the record as parsed, with the
  scan number that was assigned at emission, printed as its id. Not part of the source.
\<close>

definition written_for :: "scan_dict \<Rightarrow> written_spectrum \<Rightarrow> bool" where
  "written_for s w = (ws_id w \<noteq> None \<and> ws_scan w = s \<lparr> scan_number := ws_id w \<rparr>)"

text \<open>
  A ddaPASEF window: MS1 frame 10 with two precursors (charges 2 and NaN), both
  fragmented in frame 11. The centroid spectrum of frame 10 is the argument; frame 11
  decodes to one peak.
\<close>

definition ddapasef_example :: "real list \<times> real list \<Rightarrow> tdf_data" where
  "ddapasef_example parent_spectrum =
     tdf_empty
       \<lparr> Frames := [(ms1_frame_example 10) \<lparr> fr_ScanMode := 8 \<rparr>,
                    (ms1_frame_example 11) \<lparr> fr_ScanMode := 8, fr_MsMsType := 8 \<rparr>],
         Precursors :=
           [\<lparr> pr_Id = 1, pr_Parent = 10, pr_ScanNumber = 3, pr_Charge = Fl 2,
               pr_AverageMz = 500, pr_LargestPeakMz = 500, pr_MonoisotopicMz = Fl 500,
               pr_Intensity = 10 \<rparr>,
            \<lparr> pr_Id = 2, pr_Parent = 10, pr_ScanNumber = 5, pr_Charge = NaN,
               pr_AverageMz = 600, pr_LargestPeakMz = 600, pr_MonoisotopicMz = NaN,
               pr_Intensity = 20 \<rparr>],
         PasefFrameMsMsInfo :=
           [\<lparr> pf_Frame = 11, pf_Precursor = 1, pf_ScanNumBegin = 0, pf_ScanNumEnd = 1,
               pf_IsolationWidth = 2, pf_CollisionEnergy = 30 \<rparr>,
            \<lparr> pf_Frame = 11, pf_Precursor = 2, pf_ScanNumBegin = 1, pf_ScanNumEnd = 2,
               pf_IsolationWidth = 2, pf_CollisionEnergy = 30 \<rparr>],
         MzAcqRangeLower := 100, MzAcqRangeUpper := 100.01,
         tims_extract_centroided_spectrum_for_frame_v2 :=
           (\<lambda>frm scan_begin scan_end.
              if frm = 11 then ([100.002], [9])
              else if frm = 10 then parent_spectrum else ([], [])) \<rparr>"

text \<open>
  An MS1-only acquisition of three frames of which frame 2 decodes to empty arrays.
\<close>

definition three_frame_example :: lcms_data where
  "three_frame_example =
     \<lparr> schema = TDF (tdf_empty
         \<lparr> Frames := [ms1_frame_example 1, ms1_frame_example 2, ms1_frame_example 3],
           tims_extract_centroided_spectrum_for_frame_v2 :=
             (\<lambda>frm scan_begin scan_end. if frm = 2 then ([], []) else ([100, 200], [5, 7])) \<rparr>),
       ms1_frames = [1, 2, 3] \<rparr>"

text \<open>
  A bbCID acquisition: MS1 frames 1 and 3 with the bbCID frame 2 (scan mode 4, MS/MS
  type 2) between them; every frame decodes to two peaks. The precursor table is empty.
\<close>

definition bbcid_example :: lcms_data where
  "bbcid_example =
     \<lparr> schema = TDF (tdf_empty
         \<lparr> Frames := [ms1_frame_example 1,
                      (ms1_frame_example 2) \<lparr> fr_ScanMode := 4, fr_MsMsType := 2 \<rparr>,
                      ms1_frame_example 3],
           FrameMsMsInfo := [\<lparr> fm_Frame = 2, fm_TriggerMass = 0, fm_IsolationWidth = 0,
                                 fm_PrecursorCharge = NaN, fm_CollisionEnergy = 25 \<rparr>],
           tims_extract_centroided_spectrum_for_frame_v2 :=
             (\<lambda>frm scan_begin scan_end. ([100, 200], [5, 7])) \<rparr>),
       ms1_frames = [1, 3] \<rparr>"

text \<open>
  A stand-in for the sink's text: the temporary file holds the one line that declares the
  count.
\<close>

definition header_only :: "nat \<Rightarrow> written_spectrum list \<Rightarrow> string list" where
  "header_only declared written = [spectrum_list_tag declared @ [CHR 0x0A]]"


section \<open>Properties of the derived statistics\<close>

lemma np_where_eq_Max_nonempty:
  assumes "a \<noteq> []"
  shows "np_where_eq a (Max (set a)) \<noteq> []"
proof -
  have "Max (set a) \<in> set a" using assms by simp
  then obtain i where "i < length a" "a ! i = Max (set a)"
    by (auto simp: in_set_conv_nth)
  then have "i \<in> set (np_where_eq a (Max (set a)))"
    by (simp add: np_where_eq_def)
  then show ?thesis by auto
qed

lemma hd_filter_upt_first:
  assumes "filter P [0..<n] \<noteq> []"
  shows "hd (filter P [0..<n]) < n \<and> P (hd (filter P [0..<n]))
         \<and> (\<forall>j < hd (filter P [0..<n]). \<not> P j)"
proof -
  obtain k ks where eq: "filter P [0..<n] = k # ks"
    using assms by (cases "filter P [0..<n]") auto
  have "k \<in> set (filter P [0..<n])" by (simp add: eq)
  then have kn: "k < n" and pk: "P k" by auto
  have "\<not> P j" if "j < k" for j
  proof
    assume "P j"
    with that kn have jin: "j \<in> set (filter P [0..<n])" by auto
    have "sorted (filter P [0..<n])" by (simp add: sorted_wrt_filter)
    then have "\<forall>x \<in> set ks. k \<le> x" by (simp add: eq)
    with jin eq that show False by auto
  qed
  with kn pk show ?thesis by (simp add: eq)
qed

text \<open>
  Claim C5. A record populated from non-empty arrays of equal length has
  \<open>total_ion_current\<close> equal to the sum of the intensities, \<open>base_peak_intensity\<close> equal
  to their maximum, and \<open>base_peak_mz\<close> equal to the m/z at the first index at which the
  maximum is reached.
\<close>

theorem populate_spectrum_data_stats:
  assumes "intensity_arr \<noteq> []" and "length mz_arr = length intensity_arr"
  shows "\<exists>d i. populate_scan_dict_w_spectrum_data s mz_arr intensity_arr = Inr d
           \<and> mz_array d = Some mz_arr \<and> intensity_array d = Some intensity_arr
           \<and> total_ion_current d = Some (sum_list intensity_arr)
           \<and> base_peak_intensity d = Some (Max (set intensity_arr))
           \<and> i < length intensity_arr
           \<and> intensity_arr ! i = Max (set intensity_arr)
           \<and> (\<forall>j < i. intensity_arr ! j \<noteq> Max (set intensity_arr))
           \<and> base_peak_mz d = Some (mz_arr ! i)"
proof -
  let ?m = "Max (set intensity_arr)"
  let ?ix = "np_where_eq intensity_arr ?m"
  have ne: "?ix \<noteq> []" using assms(1) by (rule np_where_eq_Max_nonempty)
  then have first: "hd ?ix < length intensity_arr \<and> intensity_arr ! hd ?ix = ?m
      \<and> (\<forall>j < hd ?ix. intensity_arr ! j \<noteq> ?m)"
    unfolding np_where_eq_def by (rule hd_filter_upt_first)
  have inb: "\<not> (\<exists>i \<in> set ?ix. length mz_arr \<le> i)"
    using assms(2) by (auto simp: np_where_eq_def)
  let ?d = "s\<lparr> mz_array := Some mz_arr, intensity_array := Some intensity_arr,
              total_ion_current := Some (sum_list intensity_arr),
              base_peak_mz := Some (mz_arr ! hd ?ix),
              base_peak_intensity := Some (intensity_arr ! hd ?ix),
              high_mz := Some (Max (set mz_arr)),
              low_mz := Some (Min (set mz_arr)) \<rparr>"
  have run: "populate_scan_dict_w_spectrum_data s mz_arr intensity_arr = Inr ?d"
    using assms(1) inb by (simp add: populate_scan_dict_w_spectrum_data_def Let_def)
  show ?thesis
    unfolding run using first by (intro exI[of _ ?d] exI[of _ "hd ?ix"]) simp
qed

theorem populate_spectrum_data_stats_witness:
  "\<exists>d. populate_scan_dict_w_spectrum_data init_scan_dict [100, 200, 300] [5, 9, 9] = Inr d
       \<and> total_ion_current d = Some 23 \<and> base_peak_intensity d = Some 9
       \<and> base_peak_mz d = Some 200"
proof -
  have ne: "[5, 9, 9 :: real] \<noteq> []" by simp
  have len: "length [100, 200, 300 :: real] = length [5, 9, 9 :: real]" by simp
  obtain d i where d: "populate_scan_dict_w_spectrum_data init_scan_dict [100, 200, 300] [5, 9, 9] = Inr d"
    and tic: "total_ion_current d = Some (sum_list [5, 9, 9])"
    and bpi: "base_peak_intensity d = Some (Max (set [5, 9, 9]))"
    and i: "i < length [5, 9, 9 :: real]" "[5, 9, 9 :: real] ! i = Max (set [5, 9, 9])"
      "\<forall>j < i. [5, 9, 9 :: real] ! j \<noteq> Max (set [5, 9, 9])"
    and bpm: "base_peak_mz d = Some ([100, 200, 300] ! i)"
    using populate_spectrum_data_stats [OF ne len, of init_scan_dict] by blast
  have mx: "Max (set [5, 9, 9 :: real]) = 9" by simp
  have "i = 1"
  proof -
    from i(1) have "i = 0 \<or> i = 1 \<or> i = 2" by auto
    moreover have "i \<noteq> 0"
    proof
      assume "i = 0"
      with i(2) mx show False by simp
    qed
    moreover have "i \<noteq> 2"
    proof
      assume "i = 2"
      then have "(1::nat) < i" by simp
      with i(3) have "[5, 9, 9 :: real] ! 1 \<noteq> Max (set [5, 9, 9])" by blast
      with mx show False by simp
    qed
    ultimately show ?thesis by blast
  qed
  with d tic bpi bpm mx show ?thesis by simp
qed

section \<open>Properties of the float32 rounding\<close>

lemma pow2_powr: "pow2 e = 2 powr (real_of_int e)"
proof (cases "0 \<le> e")
  case True
  then show ?thesis by (simp add: pow2_def powr_realpow [symmetric])
next
  case False
  then have "2 powr (real_of_int e) = 1 / 2 powr (real (nat (- e)))"
    by (simp add: powr_minus_divide [symmetric])
  with False show ?thesis by (simp add: pow2_def powr_realpow [symmetric])
qed

lemma pow2_pos: "0 < pow2 e"
  by (simp add: pow2_powr)

lemma pow2_add: "pow2 (a + b) = pow2 a * pow2 b"
  by (simp add: pow2_powr powr_add)

lemma pow2_mono: "a \<le> b \<Longrightarrow> pow2 a \<le> pow2 b"
  by (simp add: pow2_powr)

lemma pow2_nat: "pow2 (int n) = 2 ^ n"
  by (simp add: pow2_def)

lemma float_exponent_bounds:
  assumes "0 < x"
  shows "pow2 (float_exponent x) \<le> x" and "x < pow2 (float_exponent x + 1)"
proof -
  have both: "pow2 (float_exponent x) \<le> x \<and> x < pow2 (float_exponent x + 1)"
  proof (cases "1 \<le> x")
    case True
    let ?n = "nat \<lfloor>x\<rfloor>"
    let ?k = "floorlog 2 ?n"
    from True have n: "0 < ?n" by simp
    from floorlog_bounds [of ?n 2] n
    have lo: "2 ^ (?k - 1) \<le> ?n" and hi: "?n < 2 ^ ?k" by simp_all
    from n have k: "0 < ?k" by (simp add: floorlog_def)
    have nx: "real ?n \<le> x" using True by simp
    have xn: "x < real ?n + 1" using True by linarith
    have e: "float_exponent x = int (?k - 1)"
      using True k by (simp add: float_exponent_def)
    have "pow2 (float_exponent x) = 2 ^ (?k - 1)"
      unfolding e by (rule pow2_nat)
    also have "\<dots> \<le> real ?n"
      using lo by (metis of_nat_le_iff of_nat_numeral of_nat_power)
    finally have 1: "pow2 (float_exponent x) \<le> x" using nx by simp
    have "float_exponent x + 1 = int ?k" using e k by simp
    then have "pow2 (float_exponent x + 1) = 2 ^ ?k" by (simp add: pow2_nat)
    moreover have "real ?n + 1 \<le> 2 ^ ?k"
    proof -
      from hi have "?n + 1 \<le> 2 ^ ?k" by linarith
      then have "real (?n + 1) \<le> real (2 ^ ?k)" by (rule of_nat_mono)
      then show ?thesis by simp
    qed
    ultimately have 2: "x < pow2 (float_exponent x + 1)" using xn by simp
    from 1 2 show ?thesis by simp
  next
    case False
    let ?m = "nat (\<lceil>1 / x\<rceil> - 1)"
    let ?k = "floorlog 2 ?m"
    from False assms have inv: "1 < 1 / x" by simp
    then have c: "2 \<le> \<lceil>1 / x\<rceil>" by linarith
    then have m: "0 < ?m" by simp
    from floorlog_bounds [of ?m 2] m
    have lo: "2 ^ (?k - 1) \<le> ?m" and hi: "?m < 2 ^ ?k" by simp_all
    from m have k: "0 < ?k" by (simp add: floorlog_def)
    have mlt: "real ?m < 1 / x" using c by linarith
    have mge: "1 / x \<le> real ?m + 1" using c by linarith
    have e: "float_exponent x = - int ?k"
      using False by (simp add: float_exponent_def)
    have "real ?m + 1 \<le> 2 ^ ?k"
    proof -
      from hi have "?m + 1 \<le> 2 ^ ?k" by linarith
      then have "real (?m + 1) \<le> real (2 ^ ?k)" by (rule of_nat_mono)
      then show ?thesis by simp
    qed
    with mge have "1 / x \<le> 2 ^ ?k" by simp
    then have "1 / 2 ^ ?k \<le> x"
      using assms by (simp add: field_simps)
    moreover have "pow2 (float_exponent x) = 1 / 2 ^ ?k"
      unfolding e using k by (simp add: pow2_def)
    ultimately have 1: "pow2 (float_exponent x) \<le> x" by simp
    have "(2::real) ^ (?k - 1) \<le> real ?m"
      using lo by (metis of_nat_le_iff of_nat_numeral of_nat_power)
    from this mlt have "2 ^ (?k - 1) < 1 / x" by (rule le_less_trans)
    then have "x < 1 / 2 ^ (?k - 1)"
      using assms by (simp add: field_simps)
    moreover have "pow2 (float_exponent x + 1) = 1 / 2 ^ (?k - 1)"
    proof -
      have "float_exponent x + 1 = - int (?k - 1)" using e k by simp
      then have "pow2 (float_exponent x + 1) = pow2 (- int (?k - 1))" by simp
      also have "\<dots> = 1 / 2 ^ (?k - 1)"
        by (cases "?k - 1 = 0") (simp_all add: pow2_def)
      finally show ?thesis .
    qed
    ultimately have 2: "x < pow2 (float_exponent x + 1)" by simp
    from 1 2 show ?thesis by simp
  qed
  from both show "pow2 (float_exponent x) \<le> x" by simp
  from both show "x < pow2 (float_exponent x + 1)" by simp
qed

lemma float_exponent_mono:
  assumes "0 < x" and "x \<le> y"
  shows "float_exponent x \<le> float_exponent y"
proof (rule ccontr)
  assume "\<not> float_exponent x \<le> float_exponent y"
  then have "float_exponent y + 1 \<le> float_exponent x" by simp
  then have "pow2 (float_exponent y + 1) \<le> pow2 (float_exponent x)" by (rule pow2_mono)
  also have "\<dots> \<le> x" using assms(1) by (rule float_exponent_bounds)
  finally have "pow2 (float_exponent y + 1) \<le> y" using assms(2) by simp
  moreover have "y < pow2 (float_exponent y + 1)"
    using assms by (intro float_exponent_bounds) simp
  ultimately show False by simp
qed

lemma round_half_even_cases:
  "round_half_even x = \<lfloor>x\<rfloor> \<or> round_half_even x = \<lfloor>x\<rfloor> + 1"
  by (simp add: round_half_even_def Let_def)

lemma round_half_even_of_int: "round_half_even (of_int n) = n"
  by (simp add: round_half_even_def)

lemma round_half_even_mono:
  assumes "x \<le> y"
  shows "round_half_even x \<le> round_half_even y"
proof (cases "\<lfloor>x\<rfloor> = \<lfloor>y\<rfloor>")
  case True
  with assms have "x - of_int \<lfloor>x\<rfloor> \<le> y - of_int \<lfloor>y\<rfloor>" by simp
  with True show ?thesis by (auto simp: round_half_even_def Let_def)
next
  case False
  with assms have "\<lfloor>x\<rfloor> + 1 \<le> \<lfloor>y\<rfloor>" using floor_mono [of x y] by simp
  moreover have "round_half_even x \<le> \<lfloor>x\<rfloor> + 1"
    using round_half_even_cases [of x] by auto
  moreover have "\<lfloor>y\<rfloor> \<le> round_half_even y"
    using round_half_even_cases [of y] by auto
  ultimately show ?thesis by simp
qed

lemma np_float32_pos_mono:
  assumes "0 < x" and "x \<le> y"
  shows "np_float32 x \<le> np_float32 y"
proof -
  let ?E = "\<lambda>v. max (float_exponent v) (- 126)"
  let ?q = "\<lambda>v. pow2 (?E v - 23)"
  from assms have y: "0 < y" by simp
  have fx: "np_float32 x = of_int (round_half_even (x / ?q x)) * ?q x"
    using assms(1) by (simp add: np_float32_def Let_def)
  have fy: "np_float32 y = of_int (round_half_even (y / ?q y)) * ?q y"
    using y by (simp add: np_float32_def Let_def)
  have E: "?E x \<le> ?E y"
    using float_exponent_mono [OF assms] by simp
  show ?thesis
  proof (cases "?E x = ?E y")
    case True
    then have q: "?q x = ?q y" by simp
    have "x / ?q y \<le> y / ?q y"
      using assms(2) pow2_pos [of "?E y - 23"] by (simp add: divide_right_mono)
    then have "round_half_even (x / ?q y) \<le> round_half_even (y / ?q y)"
      by (rule round_half_even_mono)
    then have "real_of_int (round_half_even (x / ?q y)) * ?q y
        \<le> real_of_int (round_half_even (y / ?q y)) * ?q y"
      using pow2_pos [of "?E y - 23"] by (simp add: mult_right_mono)
    then show ?thesis unfolding fx fy q .
  next
    case False
    with E have lt: "?E x + 1 \<le> ?E y" by simp
    then have Ey: "?E y = float_exponent y" by simp
    have "x < pow2 (float_exponent x + 1)"
      using assms(1) by (rule float_exponent_bounds)
    also have "\<dots> \<le> pow2 (?E x + 1)" by (rule pow2_mono) simp
    finally have xlt: "x < pow2 (?E x + 1)" .
    have split_x: "pow2 (?E x + 1) = 2 ^ 24 * ?q x"
    proof -
      have "pow2 (?E x + 1) = pow2 (int 24 + (?E x - 23))"
        by (rule arg_cong [of _ _ pow2]) simp
      also have "\<dots> = pow2 (int 24) * ?q x" by (rule pow2_add)
      finally show ?thesis by (simp only: pow2_nat)
    qed
    have "x / ?q x \<le> of_int (2 ^ 24)"
      using xlt split_x pow2_pos [of "?E x - 23"] by (simp add: field_simps)
    then have "round_half_even (x / ?q x) \<le> round_half_even (of_int (2 ^ 24))"
      by (rule round_half_even_mono)
    then have "round_half_even (x / ?q x) \<le> 2 ^ 24"
      by (simp only: round_half_even_of_int)
    then have "real_of_int (round_half_even (x / ?q x)) \<le> 2 ^ 24"
      by (metis of_int_le_iff of_int_numeral of_int_power)
    then have "np_float32 x \<le> 2 ^ 24 * ?q x"
      unfolding fx using pow2_pos [of "?E x - 23"] by (simp add: mult_right_mono)
    then have up: "np_float32 x \<le> pow2 (?E x + 1)" by (simp only: split_x)
    have split_y: "pow2 (?E y) = 2 ^ 23 * ?q y"
    proof -
      have "pow2 (?E y) = pow2 (int 23 + (?E y - 23))"
        by (rule arg_cong [of _ _ pow2]) simp
      also have "\<dots> = pow2 (int 23) * ?q y" by (rule pow2_add)
      finally show ?thesis by (simp only: pow2_nat)
    qed
    have "pow2 (?E y) \<le> y"
      unfolding Ey using y by (rule float_exponent_bounds)
    then have "of_int (2 ^ 23) \<le> y / ?q y"
      using split_y pow2_pos [of "?E y - 23"] by (simp add: field_simps)
    then have "round_half_even (of_int (2 ^ 23)) \<le> round_half_even (y / ?q y)"
      by (rule round_half_even_mono)
    then have "2 ^ 23 \<le> round_half_even (y / ?q y)"
      by (simp only: round_half_even_of_int)
    then have "2 ^ 23 \<le> real_of_int (round_half_even (y / ?q y))"
      by (metis of_int_le_iff of_int_numeral of_int_power)
    then have "2 ^ 23 * ?q y \<le> np_float32 y"
      unfolding fy using pow2_pos [of "?E y - 23"] by (simp add: mult_right_mono)
    then have low: "pow2 (?E y) \<le> np_float32 y" by (simp only: split_y)
    have "pow2 (?E x + 1) \<le> pow2 (?E y)" using lt by (rule pow2_mono)
    with up low show ?thesis by simp
  qed
qed

lemma np_float32_nonneg:
  assumes "0 \<le> x"
  shows "0 \<le> np_float32 x"
proof (cases "x = 0")
  case True
  then show ?thesis by (simp add: np_float32_def)
next
  case False
  with assms have x: "0 < x" by simp
  let ?q = "pow2 (max (float_exponent x) (- 126) - 23)"
  have "0 \<le> x / ?q" using x pow2_pos [of "max (float_exponent x) (- 126) - 23"] by simp
  then have "round_half_even 0 \<le> round_half_even (x / ?q)" by (rule round_half_even_mono)
  then have "0 \<le> round_half_even (x / ?q)"
    using round_half_even_of_int [of 0] by simp
  then show ?thesis
    using x pow2_pos [of "max (float_exponent x) (- 126) - 23"]
    by (simp add: np_float32_def Let_def)
qed

lemma np_float32_minus: "np_float32 (- x) = - np_float32 x"
  by (simp add: np_float32_def Let_def sgn_minus)

lemma np_float32_mono:
  assumes "x \<le> y"
  shows "np_float32 x \<le> np_float32 y"
proof -
  consider "0 < x" | "x \<le> 0" "0 \<le> y" | "y < 0" by linarith
  then show ?thesis
  proof cases
    case 1
    then show ?thesis using assms by (rule np_float32_pos_mono)
  next
    case 2
    have "np_float32 x = - np_float32 (- x)" by (simp add: np_float32_minus)
    moreover have "0 \<le> np_float32 (- x)" using 2(1) by (intro np_float32_nonneg) simp
    moreover have "0 \<le> np_float32 y" using 2(2) by (rule np_float32_nonneg)
    ultimately show ?thesis by simp
  next
    case 3
    then have "0 < - y" "- y \<le> - x" using assms by simp_all
    then have "np_float32 (- y) \<le> np_float32 (- x)" by (rule np_float32_pos_mono)
    then show ?thesis by (simp add: np_float32_minus)
  qed
qed


lemma float_exponent_unique:
  assumes "0 < y" and "pow2 a \<le> y" and "y < pow2 (a + 1)"
  shows "float_exponent y = a"
proof (rule ccontr)
  assume neq: "float_exponent y \<noteq> a"
  note b = float_exponent_bounds [OF assms(1)]
  show False
  proof (cases "float_exponent y < a")
    case True
    then have "pow2 (float_exponent y + 1) \<le> pow2 a" by (intro pow2_mono) simp
    with b(2) assms(2) show False by simp
  next
    case False
    with neq have "pow2 (a + 1) \<le> pow2 (float_exponent y)" by (intro pow2_mono) simp
    with b(1) assms(3) show False by simp
  qed
qed

lemma np_float32_pos:
  assumes "0 < x"
  shows "np_float32 x
           = of_int (round_half_even (x / pow2 (max (float_exponent x) (- 126) - 23)))
               * pow2 (max (float_exponent x) (- 126) - 23)"
    and "0 \<le> round_half_even (x / pow2 (max (float_exponent x) (- 126) - 23))"
    and "round_half_even (x / pow2 (max (float_exponent x) (- 126) - 23)) \<le> 2 ^ 24"
    and "- 126 \<le> float_exponent x \<Longrightarrow>
           2 ^ 23 \<le> round_half_even (x / pow2 (max (float_exponent x) (- 126) - 23))"
proof -
  let ?E = "max (float_exponent x) (- 126)"
  let ?q = "pow2 (?E - 23)"
  have q: "0 < ?q" by (rule pow2_pos)
  show "np_float32 x = of_int (round_half_even (x / ?q)) * ?q"
    using assms by (simp add: np_float32_def Let_def)
  have "0 \<le> x / ?q" using assms q by simp
  then have "round_half_even 0 \<le> round_half_even (x / ?q)" by (rule round_half_even_mono)
  then show "0 \<le> round_half_even (x / ?q)"
    using round_half_even_of_int [of 0] by simp
  have "x < pow2 (float_exponent x + 1)"
    using assms by (rule float_exponent_bounds)
  also have "\<dots> \<le> pow2 (?E + 1)" by (rule pow2_mono) simp
  finally have xlt: "x < pow2 (?E + 1)" .
  have split: "pow2 (?E + 1) = 2 ^ 24 * ?q"
  proof -
    have "pow2 (?E + 1) = pow2 (int 24 + (?E - 23))"
      by (rule arg_cong [of _ _ pow2]) simp
    also have "\<dots> = pow2 (int 24) * ?q" by (rule pow2_add)
    finally show ?thesis by (simp only: pow2_nat)
  qed
  have "x / ?q \<le> of_int (2 ^ 24)"
    using xlt split q by (simp add: field_simps)
  then have "round_half_even (x / ?q) \<le> round_half_even (of_int (2 ^ 24))"
    by (rule round_half_even_mono)
  then show "round_half_even (x / ?q) \<le> 2 ^ 24"
    by (simp only: round_half_even_of_int)
  show "2 ^ 23 \<le> round_half_even (x / ?q)" if "- 126 \<le> float_exponent x"
  proof -
    from that have E: "?E = float_exponent x" by simp
    have split': "pow2 ?E = 2 ^ 23 * ?q"
    proof -
      have "pow2 ?E = pow2 (int 23 + (?E - 23))"
        by (rule arg_cong [of _ _ pow2]) simp
      also have "\<dots> = pow2 (int 23) * ?q" by (rule pow2_add)
      finally show ?thesis by (simp only: pow2_nat)
    qed
    have "pow2 ?E \<le> x"
      unfolding E using assms by (rule float_exponent_bounds)
    then have "of_int (2 ^ 23) \<le> x / ?q"
      using split' q by (simp add: field_simps)
    then have "round_half_even (of_int (2 ^ 23)) \<le> round_half_even (x / ?q)"
      by (rule round_half_even_mono)
    then show ?thesis by (simp only: round_half_even_of_int)
  qed
qed





lemma np_float32_max: "np_float32 float32_max = float32_max"
proof -
  have pos: "0 < float32_max" by (simp add: float32_max_def)
  have "pow2 127 \<le> float32_max" "float32_max < pow2 (127 + 1)"
    by (simp_all add: pow2_def float32_max_def)
  with pos have e: "float_exponent float32_max = 127" by (intro float_exponent_unique)
  have q: "pow2 (max 127 (- 126) - 23) = 2 ^ 104" by (simp add: pow2_def)
  have d: "float32_max / 2 ^ 104 = of_int (2 ^ 24 - 1)" by (simp add: float32_max_def)
  have "np_float32 float32_max
      = of_int (round_half_even (float32_max / 2 ^ 104)) * 2 ^ 104"
    using np_float32_pos(1) [OF pos] by (simp only: e q)
  also have "\<dots> = of_int (2 ^ 24 - 1) * 2 ^ 104"
    by (simp only: d round_half_even_of_int)
  also have "\<dots> = float32_max" by (simp add: float32_max_def)
  finally show ?thesis .
qed

lemma np_float32_bounded:
  assumes "\<bar>x\<bar> \<le> float32_max"
  shows "\<bar>np_float32 x\<bar> \<le> float32_max"
proof -
  from assms have "- float32_max \<le> x" "x \<le> float32_max" by simp_all
  then have "np_float32 (- float32_max) \<le> np_float32 x" "np_float32 x \<le> np_float32 float32_max"
    by (simp_all add: np_float32_mono)
  then show ?thesis by (simp add: np_float32_minus np_float32_max)
qed

section \<open>Properties of the binner\<close>

lemma np_cast_mono: "x \<le> y \<Longrightarrow> np_cast dtype x \<le> np_cast dtype y"
  by (auto simp: np_cast_def np_float32_mono split: option.splits dtype.splits)



lemma sorted_all_equal:
  assumes "\<forall>x \<in> set a. x = c"
  shows "sorted a"
  using assms by (induction a) auto

lemma np_monotonicity_sorted:
  assumes "sorted a"
  shows "np_monotonicity a = 1"
proof (cases "dropWhile (\<lambda>x. x = hd a) a")
  case Nil
  show ?thesis unfolding np_monotonicity_def Nil by simp
next
  case (Cons nxt rest)
  then have ne: "a \<noteq> []" by auto
  have suf: "a = takeWhile (\<lambda>x. x = hd a) a @ nxt # rest"
    using Cons takeWhile_dropWhile_id [of "\<lambda>x. x = hd a" a] by simp
  have srt: "sorted (nxt # rest)"
    using assms suf by (metis sorted_append)
  have "nxt \<in> set a" using suf by (metis in_set_conv_decomp)
  then have le: "hd a \<le> nxt" using assms ne by (cases a) auto
  have "nxt \<noteq> hd a" using Cons hd_dropWhile [of "\<lambda>x. x = hd a" a] by auto
  with le have "hd a < nxt" by simp
  with srt show ?thesis unfolding np_monotonicity_def Cons by simp
qed

lemma np_monotonicity_sorted_rev:
  assumes "sorted (rev a)"
  shows "np_monotonicity a = 1 \<or> np_monotonicity a = - 1"
proof (cases "dropWhile (\<lambda>x. x = hd a) a")
  case Nil
  show ?thesis unfolding np_monotonicity_def Nil by simp
next
  case (Cons nxt rest)
  then have ne: "a \<noteq> []" by auto
  have suf: "a = takeWhile (\<lambda>x. x = hd a) a @ nxt # rest"
    using Cons takeWhile_dropWhile_id [of "\<lambda>x. x = hd a" a] by simp
  have "rev a = rev (nxt # rest) @ rev (takeWhile (\<lambda>x. x = hd a) a)"
    by (subst suf) simp
  then have srt: "sorted (rev (nxt # rest))"
    using assms by (metis sorted_append)
  have "nxt \<in> set a" using suf by (metis in_set_conv_decomp)
  then have le: "nxt \<le> hd a" using assms ne by (cases a) (auto simp: sorted_append)
  then have "\<not> hd a < nxt" by simp
  with srt show ?thesis unfolding np_monotonicity_def Cons by simp
qed

lemma np_monotonicity_range:
  "np_monotonicity a = 1 \<or> np_monotonicity a = 0 \<or> np_monotonicity a = - 1"
  by (simp add: np_monotonicity_def split: list.splits)

text \<open>Conversely, the value of the test tells how the edges are ordered.\<close>

lemma np_monotonicity_increasing:
  assumes "np_monotonicity a = 1"
  shows "sorted a"
proof (cases "dropWhile (\<lambda>x. x = hd a) a")
  case Nil
  then have "\<forall>x \<in> set a. x = hd a" by (simp add: dropWhile_eq_Nil_conv)
  then show ?thesis by (rule sorted_all_equal)
next
  case (Cons nxt rest)
  have suf: "a = takeWhile (\<lambda>x. x = hd a) a @ nxt # rest"
    using Cons takeWhile_dropWhile_id [of "\<lambda>x. x = hd a" a] by simp
  from assms have lt: "hd a < nxt" and srt: "sorted (nxt # rest)"
    unfolding np_monotonicity_def Cons by (simp_all split: if_splits)
  have pre: "\<forall>x \<in> set (takeWhile (\<lambda>x. x = hd a) a). x = hd a"
    by (metis set_takeWhileD)
  have "sorted (takeWhile (\<lambda>x. x = hd a) a @ nxt # rest)"
    unfolding sorted_append
  proof (intro conjI ballI)
    show "sorted (takeWhile (\<lambda>x. x = hd a) a)" using pre by (rule sorted_all_equal)
    show "sorted (nxt # rest)" by (rule srt)
    fix x y
    assume "x \<in> set (takeWhile (\<lambda>x. x = hd a) a)" and y: "y \<in> set (nxt # rest)"
    then have "x = hd a" using pre by simp
    moreover have "nxt \<le> y" using srt y by auto
    ultimately show "x \<le> y" using lt by simp
  qed
  with suf show ?thesis by simp
qed

lemma np_monotonicity_decreasing:
  assumes "np_monotonicity a = - 1"
  shows "sorted (rev a)" and "\<exists>x \<in> set a. x < hd a"
proof -
  from assms obtain nxt rest where Cons: "dropWhile (\<lambda>x. x = hd a) a = nxt # rest"
    unfolding np_monotonicity_def by (cases "dropWhile (\<lambda>x. x = hd a) a") simp_all
  have suf: "a = takeWhile (\<lambda>x. x = hd a) a @ nxt # rest"
    using Cons takeWhile_dropWhile_id [of "\<lambda>x. x = hd a" a] by simp
  from assms have nlt: "\<not> hd a < nxt" and srt: "sorted (rev (nxt # rest))"
    unfolding np_monotonicity_def Cons by (simp_all split: if_splits)
  have "nxt \<noteq> hd a" using Cons hd_dropWhile [of "\<lambda>x. x = hd a" a] by auto
  with nlt have lt: "nxt < hd a" by simp
  have mem: "nxt \<in> set a" using suf by (metis in_set_conv_decomp)
  with lt show "\<exists>x \<in> set a. x < hd a" by blast
  have pre: "\<forall>x \<in> set (rev (takeWhile (\<lambda>x. x = hd a) a)). x = hd a"
    by (metis set_rev set_takeWhileD)
  have top: "y \<le> nxt" if "y \<in> set (nxt # rest)" for y
    using srt that by (auto simp: sorted_append)
  have "sorted (rev (nxt # rest) @ rev (takeWhile (\<lambda>x. x = hd a) a))"
    unfolding sorted_append
  proof (intro conjI ballI)
    show "sorted (rev (nxt # rest))" by (rule srt)
    show "sorted (rev (takeWhile (\<lambda>x. x = hd a) a))" using pre by (rule sorted_all_equal)
    fix y x
    assume "y \<in> set (rev (nxt # rest))" and "x \<in> set (rev (takeWhile (\<lambda>x. x = hd a) a))"
    then have "y \<le> nxt" and "x = hd a" using top pre by simp_all
    then show "y \<le> x" using lt by simp
  qed
  moreover have "rev a = rev (nxt # rest) @ rev (takeWhile (\<lambda>x. x = hd a) a)"
    by (subst suf) simp
  ultimately show "sorted (rev a)" by simp
qed

lemma np_monotonicity_not_sorted:
  assumes "np_monotonicity a = - 1"
  shows "\<not> sorted a"
proof
  assume "sorted a"
  then have "np_monotonicity a = 1" by (rule np_monotonicity_sorted)
  with assms show False by simp
qed

lemma np_linspace_cast:
  "np_linspace start stop n dtype = map (np_cast dtype) (np_linspace start stop n None)"
  by (simp add: np_linspace_def np_array_def np_cast_def)

lemma length_np_linspace: "length (np_linspace start stop n dtype) = n"
  by (simp add: np_linspace_def np_array_def)

lemma sorted_np_linspace_exact:
  assumes "start \<le> stop"
  shows "sorted (np_linspace start stop n None)"
proof (cases "n = 1")
  case True
  then show ?thesis by (simp add: np_linspace_def np_array_def)
next
  case False
  have step: "0 \<le> (stop - start) / real (n - 1)" using assms by simp
  have "sorted_wrt (\<lambda>i j. start + real i * ((stop - start) / real (n - 1))
                          \<le> start + real j * ((stop - start) / real (n - 1))) [0..<n]"
  proof (rule sorted_wrt_mono_rel [of _ "(\<le>)"])
    show "sorted_wrt (\<le>) [0..<n]" by simp
  next
    fix i j :: nat
    assume "i \<le> j"
    then show "start + real i * ((stop - start) / real (n - 1))
                \<le> start + real j * ((stop - start) / real (n - 1))"
      using step by (intro add_left_mono mult_right_mono) simp_all
  qed
  then show ?thesis
    using False by (simp add: np_linspace_def np_array_def np_cast_def sorted_map)
qed

lemma sorted_rev_np_linspace_exact:
  assumes "stop \<le> start"
  shows "sorted (rev (np_linspace start stop n None))"
proof (cases "n = 1")
  case True
  then show ?thesis by (simp add: np_linspace_def np_array_def)
next
  case False
  have step: "(stop - start) / real (n - 1) \<le> 0" using assms by (simp add: divide_nonpos_nonneg)
  have "sorted_wrt (\<lambda>i j. start + real i * ((stop - start) / real (n - 1))
                          \<le> start + real j * ((stop - start) / real (n - 1))) (rev [0..<n])"
  proof (rule sorted_wrt_mono_rel [of _ "(\<ge>)"])
    show "sorted_wrt (\<ge>) (rev [0..<n])" by (simp add: sorted_wrt_rev)
  next
    fix i j :: nat
    assume "i \<ge> j"
    then show "start + real i * ((stop - start) / real (n - 1))
                \<le> start + real j * ((stop - start) / real (n - 1))"
      using step by (intro add_left_mono mult_right_mono_neg) simp_all
  qed
  then show ?thesis
    using False by (simp add: np_linspace_def np_array_def np_cast_def sorted_map rev_map)
qed

lemma sorted_map_np_cast:
  assumes "sorted xs"
  shows "sorted (map (np_cast dtype) xs)"
  using assms by (rule sorted_map_mono) (simp add: mono_on_def np_cast_mono)

lemma sorted_np_linspace:
  assumes "start \<le> stop"
  shows "sorted (np_linspace start stop n dtype)"
  unfolding np_linspace_cast [of start stop n dtype]
  using assms by (intro sorted_map_np_cast sorted_np_linspace_exact)

lemma sorted_rev_np_linspace:
  assumes "stop \<le> start"
  shows "sorted (rev (np_linspace start stop n dtype))"
proof -
  have "sorted (map (np_cast dtype) (rev (np_linspace start stop n None)))"
    using assms by (intro sorted_map_np_cast sorted_rev_np_linspace_exact)
  then show ?thesis
    unfolding np_linspace_cast [of start stop n dtype] by (simp add: rev_map)
qed

text \<open>The samples lie between the two end points, so a cast to float32 does not overflow
  when the end points are in the float32 range.\<close>

lemma np_linspace_exact_between:
  assumes "e \<in> set (np_linspace start stop n None)"
  shows "min start stop \<le> e \<and> e \<le> max start stop"
proof (cases "n = 1")
  case True
  with assms show ?thesis by (simp add: np_linspace_def np_array_def np_cast_def)
next
  case False
  from assms False obtain i where i: "i < n"
    and e: "e = start + real i * ((stop - start) / real (n - 1))"
    by (auto simp: np_linspace_def np_array_def np_cast_def)
  from i False have n: "1 < n" by (cases n) auto
  define t where "t = real i / real (n - 1)"
  have t: "0 \<le> t" "t \<le> 1" using i n by (simp_all add: t_def)
  define off where "off = t * (stop - start)"
  have et: "e = start + off" by (simp add: e t_def off_def)
  show ?thesis
  proof (cases "start \<le> stop")
    case True
    then have "0 \<le> off" using t by (simp add: off_def)
    moreover have "t * (stop - start) \<le> 1 * (stop - start)"
      using t True by (intro mult_right_mono) simp_all
    then have "off \<le> stop - start" by (simp only: off_def mult_1)
    ultimately have "start \<le> e" "e \<le> stop" unfolding et by linarith+
    then show ?thesis using True by (simp add: min_def max_def)
  next
    case False
    then have "off \<le> 0" using t by (simp add: off_def mult_nonneg_nonpos)
    moreover have "1 * (stop - start) \<le> t * (stop - start)"
      using t False by (intro mult_right_mono_neg) simp_all
    then have "stop - start \<le> off" by (simp only: off_def mult_1)
    ultimately have "stop \<le> e" "e \<le> start" unfolding et by linarith+
    then show ?thesis using False by (simp add: min_def max_def)
  qed
qed

lemma np_linspace_float32_bounded:
  assumes "\<bar>start\<bar> \<le> float32_max" and "\<bar>stop\<bar> \<le> float32_max"
    and "e \<in> set (np_linspace start stop n (Some float32))"
  shows "\<bar>e\<bar> \<le> float32_max"
proof -
  from assms(3) obtain x where x: "x \<in> set (np_linspace start stop n None)"
    and e: "e = np_float32 x"
    unfolding np_linspace_cast [of start stop n "Some float32"]
    by (auto simp: np_cast_def)
  from np_linspace_exact_between [OF x] assms(1,2) have "\<bar>x\<bar> \<le> float32_max" by auto
  then show ?thesis unfolding e by (rule np_float32_bounded)
qed

lemma np_digitize_length:
  assumes "np_digitize x bins = Inr dig"
  shows "length dig = length x"
  using assms by (auto simp: np_digitize_def Let_def split: if_splits)

lemma np_digitize_linspace_total:
  "\<exists>dig. np_digitize x (np_linspace start stop n dtype) = Inr dig"
proof (cases "start \<le> stop")
  case True
  then have "np_monotonicity (np_linspace start stop n dtype) = 1"
    by (intro np_monotonicity_sorted sorted_np_linspace)
  then show ?thesis by (simp add: np_digitize_def)
next
  case False
  then have "np_monotonicity (np_linspace start stop n dtype) = 1
       \<or> np_monotonicity (np_linspace start stop n dtype) = - 1"
    by (intro np_monotonicity_sorted_rev sorted_rev_np_linspace) simp
  then show ?thesis by (auto simp: np_digitize_def)
qed

lemma np_unique_props:
  "sorted (np_unique a)" "distinct (np_unique a)" "set (np_unique a) = set a"
  by (simp_all add: np_unique_def)

lemma position_in_list:
  assumes "v \<in> set U"
  shows "length (takeWhile (\<lambda>u. u \<noteq> v) U) < length U"
    and "U ! length (takeWhile (\<lambda>u. u \<noteq> v) U) = v"
proof -
  show lt: "length (takeWhile (\<lambda>u. u \<noteq> v) U) < length U"
  proof (rule ccontr)
    assume "\<not> length (takeWhile (\<lambda>u. u \<noteq> v) U) < length U"
    then have "length (takeWhile (\<lambda>u. u \<noteq> v) U) = length U"
      using length_takeWhile_le [of "\<lambda>u. u \<noteq> v" U] by simp
    then have "takeWhile (\<lambda>u. u \<noteq> v) U = U"
      by (metis takeWhile_dropWhile_id append_eq_conv_conj length_0_conv length_drop diff_self_eq_0 append_Nil2)
    then have "\<forall>u \<in> set U. u \<noteq> v" by (metis set_takeWhileD)
    with assms show False by blast
  qed
  show "U ! length (takeWhile (\<lambda>u. u \<noteq> v) U) = v"
    using nth_length_takeWhile [OF lt] by simp
qed

lemma position_of_nth:
  assumes "distinct U" and "k < length U"
  shows "length (takeWhile (\<lambda>u. u \<noteq> U ! k) U) = k"
proof -
  have "takeWhile (\<lambda>u. u \<noteq> U ! k) U = take k U"
  proof (rule takeWhile_eq_take_P_nth)
    fix i assume "i < k" "i < length U"
    with assms show "U ! i \<noteq> U ! k" by (simp add: nth_eq_iff_index_eq)
  next
    show "\<not> U ! k \<noteq> U ! k" by simp
  qed
  with assms(2) show ?thesis by simp
qed

lemma position_eq_iff:
  assumes "distinct U" and "k < length U" and "v \<in> set U"
  shows "length (takeWhile (\<lambda>u. u \<noteq> v) U) = k \<longleftrightarrow> v = U ! k"
  using position_in_list(2) [OF assms(3)] position_of_nth [OF assms(1,2)] by auto

lemma set_np_unique_inverse:
  "set (np_unique_inverse a) = {0..<length (np_unique a)}"
proof -
  let ?U = "np_unique a"
  let ?pos = "\<lambda>v. length (takeWhile (\<lambda>u. u \<noteq> v) ?U)"
  have "?pos ` set a = {0..<length ?U}"
  proof (intro equalityI subsetI)
    fix k assume "k \<in> ?pos ` set a"
    then obtain v where "v \<in> set a" "k = ?pos v" by auto
    then show "k \<in> {0..<length ?U}"
      using position_in_list(1) [of v ?U] by (simp add: np_unique_props)
  next
    fix k assume "k \<in> {0..<length ?U}"
    then have k: "k < length ?U" by simp
    then have "?pos (?U ! k) = k"
      by (intro position_of_nth) (simp_all add: np_unique_props)
    moreover have "?U ! k \<in> set a"
      using k nth_mem [of k ?U] by (simp add: np_unique_props)
    ultimately show "k \<in> ?pos ` set a" by force
  qed
  then show ?thesis by (simp add: np_unique_inverse_def)
qed

lemma bincount_length_np_unique_inverse:
  "bincount_length (np_unique_inverse a) = length (np_unique a)"
proof (cases "a = []")
  case True
  then show ?thesis by (simp add: bincount_length_def np_unique_inverse_def np_unique_def)
next
  case False
  then have "set (np_unique a) \<noteq> {}" by (simp add: np_unique_props)
  then have pos: "0 < length (np_unique a)" by auto
  then have "Max {0..<length (np_unique a)} = length (np_unique a) - 1"
    by (intro Max_eqI) auto
  moreover have "np_unique_inverse a \<noteq> []"
    using False by (simp add: np_unique_inverse_def)
  ultimately show ?thesis
    using pos by (simp add: bincount_length_def set_np_unique_inverse)
qed

lemma filter_zip_map_fst:
  "map snd (filter (\<lambda>p. fst p = k) (zip (map f xs) w))
     = map snd (filter (\<lambda>p. f (fst p) = k) (zip xs w))"
proof (induction xs arbitrary: w)
  case Nil
  show ?case by simp
next
  case (Cons x xs)
  show ?case by (cases w) (simp_all add: Cons.IH)
qed

lemma members_of_position:
  assumes "k < length (np_unique dig)"
  shows "map snd (filter (\<lambda>p. fst p = k) (zip (np_unique_inverse dig) w))
           = bin_members dig w (np_unique dig ! k)"
proof -
  let ?U = "np_unique dig"
  have "filter (\<lambda>p. length (takeWhile (\<lambda>u. u \<noteq> fst p) ?U) = k) (zip dig w)
          = filter (\<lambda>p. fst p = ?U ! k) (zip dig w)"
  proof (rule filter_cong [OF refl])
    fix p assume "p \<in> set (zip dig w)"
    then have "fst p \<in> set ?U"
      using set_zip_leftD [of "fst p" "snd p" dig w] by (simp add: np_unique_props)
    then show "(length (takeWhile (\<lambda>u. u \<noteq> fst p) ?U) = k) = (fst p = ?U ! k)"
      using assms by (intro position_eq_iff) (simp_all add: np_unique_props)
  qed
  then show ?thesis
    by (simp add: np_unique_inverse_def bin_members_def filter_zip_map_fst)
qed

lemma map_upt_nth: "map (\<lambda>k. g (U ! k)) [0..<length U] = map g U"
proof -
  have "map (\<lambda>k. g (U ! k)) [0..<length U] = map g (map (\<lambda>k. U ! k) [0..<length U])"
    by simp
  then show ?thesis by (simp only: map_nth)
qed

lemma np_bincount_weights_inverse:
  assumes "length w = length dig"
  shows "np_bincount_weights (np_unique_inverse dig) w
           = Inr (map (\<lambda>b. sum_list (bin_members dig w b)) (np_unique dig))"
proof -
  have len: "length w = length (np_unique_inverse dig)"
    using assms by (simp add: np_unique_inverse_def)
  have "map (\<lambda>k. sum_list (map snd (filter (\<lambda>p. fst p = k) (zip (np_unique_inverse dig) w))))
            [0..<length (np_unique dig)]
        = map (\<lambda>k. sum_list (bin_members dig w (np_unique dig ! k))) [0..<length (np_unique dig)]"
    by (rule map_cong [OF refl]) (simp add: members_of_position)
  also have "\<dots> = map (\<lambda>b. sum_list (bin_members dig w b)) (np_unique dig)"
    by (rule map_upt_nth)
  finally show ?thesis
    using len by (simp add: np_bincount_weights_def bincount_length_np_unique_inverse)
qed

lemma length_filter_zip_fst:
  "length xs = length w \<Longrightarrow>
     length (filter (\<lambda>p. fst p = k) (zip xs w)) = length (filter (\<lambda>i. i = k) xs)"
proof (induction xs arbitrary: w)
  case Nil
  show ?case by simp
next
  case (Cons x xs)
  then show ?case by (cases w) simp_all
qed

lemma np_bincount_inverse:
  assumes "length w = length dig"
  shows "np_bincount (np_unique_inverse dig)
           = map (\<lambda>b. length (bin_members dig w b)) (np_unique dig)"
proof -
  have len: "length (np_unique_inverse dig) = length w"
    using assms by (simp add: np_unique_inverse_def)
  have "map (\<lambda>k. length (filter (\<lambda>i. i = k) (np_unique_inverse dig))) [0..<length (np_unique dig)]
        = map (\<lambda>k. length (bin_members dig w (np_unique dig ! k))) [0..<length (np_unique dig)]"
  proof (rule map_cong [OF refl])
    fix k assume "k \<in> set [0..<length (np_unique dig)]"
    then have k: "k < length (np_unique dig)" by simp
    have "length (filter (\<lambda>i. i = k) (np_unique_inverse dig))
          = length (map snd (filter (\<lambda>p. fst p = k) (zip (np_unique_inverse dig) w)))"
      using length_filter_zip_fst [OF len, of k] by simp
    then show "length (filter (\<lambda>i. i = k) (np_unique_inverse dig))
          = length (bin_members dig w (np_unique dig ! k))"
      by (simp only: members_of_position [OF k])
  qed
  also have "\<dots> = map (\<lambda>b. length (bin_members dig w b)) (np_unique dig)"
    by (rule map_upt_nth)
  finally show ?thesis
    by (simp add: np_bincount_def bincount_length_np_unique_inverse)
qed

lemma bin_members_nonempty:
  assumes "length w = length dig" and "b \<in> set dig"
  shows "bin_members dig w b \<noteq> []"
proof -
  from assms(2) obtain i where i: "i < length dig" "dig ! i = b"
    by (auto simp: in_set_conv_nth)
  with assms(1) have "(b, w ! i) \<in> set (zip dig w)"
    by (auto simp: set_zip)
  then have "(b, w ! i) \<in> set (filter (\<lambda>p. fst p = b) (zip dig w))" by simp
  then show ?thesis unfolding bin_members_def by (auto simp del: set_filter)
qed

text \<open>
  The last lines of the binner, shared with the merge of PASEF windows: for digits \<open>dig\<close> of
  the m/z values the quotient of the two \<^verbatim>\<open>np.bincount\<close> results is, bin by bin, the sum of
  the member m/z values divided by their number.
\<close>

lemma binned_quotients:
  assumes "length mz = length dig"
  shows "map2 (\<lambda>s c. s / real c)
           (map (\<lambda>b. sum_list (bin_members dig mz b)) (np_unique dig))
           (np_place_lt1 (np_bincount (np_unique_inverse dig)))
         = map (\<lambda>b. sum_list (bin_members dig mz b) / real (length (bin_members dig mz b)))
             (np_unique dig)"
proof -
  have ne: "bin_members dig mz b \<noteq> []" if "b \<in> set (np_unique dig)" for b
    using that assms by (intro bin_members_nonempty) (simp_all add: np_unique_props)
  have cnt: "np_bincount (np_unique_inverse dig)
      = map (\<lambda>b. length (bin_members dig mz b)) (np_unique dig)"
    using assms by (rule np_bincount_inverse)
  have "map2 (\<lambda>s c. s / real c)
        (map (\<lambda>b. sum_list (bin_members dig mz b)) (np_unique dig))
        (np_place_lt1 (map (\<lambda>b. length (bin_members dig mz b)) (np_unique dig)))
      = map (\<lambda>b. sum_list (bin_members dig mz b)
                 / real (if length (bin_members dig mz b) < 1 then 1
                         else length (bin_members dig mz b))) (np_unique dig)"
    by (simp add: np_place_lt1_def zip_map_map zip_same_conv_map o_def)
  also have "\<dots> = map (\<lambda>b. sum_list (bin_members dig mz b)
                 / real (length (bin_members dig mz b))) (np_unique dig)"
  proof (rule map_cong [OF refl])
    fix b assume "b \<in> set (np_unique dig)"
    then have "bin_members dig mz b \<noteq> []" by (rule ne)
    then have "\<not> length (bin_members dig mz b) < 1" by simp
    then show "sum_list (bin_members dig mz b)
                 / real (if length (bin_members dig mz b) < 1 then 1
                         else length (bin_members dig mz b))
              = sum_list (bin_members dig mz b) / real (length (bin_members dig mz b))"
      by simp
  qed
  finally show ?thesis by (simp only: cnt)
qed

lemma np_searchsorted_right_spec:
  "np_searchsorted_right a v \<le> length a
   \<and> (\<forall>j < np_searchsorted_right a v. a ! j \<le> v)
   \<and> (np_searchsorted_right a v < length a \<longrightarrow> v < a ! np_searchsorted_right a v)"
proof (intro conjI allI impI)
  show "np_searchsorted_right a v \<le> length a"
    by (simp add: np_searchsorted_right_def length_takeWhile_le)
next
  fix j assume j: "j < np_searchsorted_right a v"
  then have "takeWhile (\<lambda>e. e \<le> v) a ! j \<in> set (takeWhile (\<lambda>e. e \<le> v) a)"
    by (simp add: np_searchsorted_right_def)
  moreover have "takeWhile (\<lambda>e. e \<le> v) a ! j = a ! j"
    using j by (simp add: np_searchsorted_right_def takeWhile_nth)
  ultimately show "a ! j \<le> v" by (metis set_takeWhileD)
next
  assume "np_searchsorted_right a v < length a"
  then have "\<not> a ! np_searchsorted_right a v \<le> v"
    unfolding np_searchsorted_right_def by (rule nth_length_takeWhile)
  then show "v < a ! np_searchsorted_right a v" by simp
qed

text \<open>The digit of a point against ascending and against descending edges.\<close>

lemma np_digitize_increasing:
  assumes "np_digitize x bins = Inr dig" and "sorted bins" and "i < length x"
  shows "dig ! i \<le> length bins"
    and "\<forall>j < dig ! i. bins ! j \<le> x ! i"
    and "dig ! i < length bins \<Longrightarrow> x ! i < bins ! (dig ! i)"
proof -
  have "np_monotonicity bins = 1" using assms(2) by (rule np_monotonicity_sorted)
  with assms(1) have "dig = map (np_searchsorted_right bins) x"
    by (simp add: np_digitize_def)
  then have d: "dig ! i = np_searchsorted_right bins (x ! i)" using assms(3) by simp
  note spec = np_searchsorted_right_spec [of bins "x ! i"]
  show "dig ! i \<le> length bins" using spec by (simp add: d)
  show "\<forall>j < dig ! i. bins ! j \<le> x ! i" using spec by (simp add: d)
  show "x ! i < bins ! (dig ! i)" if "dig ! i < length bins"
    using spec that by (simp add: d)
qed

lemma np_digitize_decreasing:
  assumes "np_digitize x bins = Inr dig" and "\<not> sorted bins" and "i < length x"
  shows "sorted (rev bins)"
    and "dig ! i \<le> length bins"
    and "\<forall>j < dig ! i. x ! i < bins ! j"
    and "dig ! i < length bins \<Longrightarrow> bins ! (dig ! i) \<le> x ! i"
proof -
  have "np_monotonicity bins \<noteq> 1"
    using assms(2) np_monotonicity_increasing by blast
  moreover have "np_monotonicity bins \<noteq> 0"
    using assms(1) by (auto simp: np_digitize_def Let_def)
  ultimately have mono: "np_monotonicity bins = - 1"
    using np_monotonicity_range [of bins] by blast
  with assms(1) have "dig = map (\<lambda>v. length bins - np_searchsorted_right (rev bins) v) x"
    by (auto simp: np_digitize_def Let_def)
  then have d: "dig ! i = length bins - np_searchsorted_right (rev bins) (x ! i)"
    using assms(3) by simp
  show srt: "sorted (rev bins)" using mono by (rule np_monotonicity_decreasing)
  let ?k = "np_searchsorted_right (rev bins) (x ! i)"
  note spec = np_searchsorted_right_spec [of "rev bins" "x ! i"]
  have k: "?k \<le> length bins" using spec by simp
  show "dig ! i \<le> length bins" by (simp add: d)
  show "\<forall>j < dig ! i. x ! i < bins ! j"
  proof (intro allI impI)
    fix j assume "j < dig ! i"
    then have j: "j < length bins - ?k" by (simp add: d)
    then have jl: "j < length bins" by simp
    have klt: "?k < length (rev bins)" using j by simp
    with spec have above: "x ! i < rev bins ! ?k" by simp
    have "rev bins ! ?k \<le> rev bins ! (length bins - Suc j)"
      using srt j by (intro sorted_nth_mono) simp_all
    also have "rev bins ! (length bins - Suc j) = bins ! j"
      using jl by (simp add: rev_nth)
    finally show "x ! i < bins ! j" using above by simp
  qed
  show "bins ! (dig ! i) \<le> x ! i" if "dig ! i < length bins"
  proof -
    from that have pos: "0 < ?k" by (simp add: d)
    then have "rev bins ! (?k - 1) \<le> x ! i" using spec by simp
    moreover have "rev bins ! (?k - 1) = bins ! (length bins - ?k)"
      using pos k by (simp add: rev_nth)
    ultimately show ?thesis by (simp add: d)
  qed
qed

lemma sorted_hd_Min_last_Max:
  fixes xs :: "real list"
  assumes "sorted xs" and "xs \<noteq> []"
  shows "hd xs = Min (set xs)" and "last xs = Max (set xs)"
proof -
  have "\<forall>y \<in> set xs. hd xs \<le> y" using assms by (cases xs) auto
  then show "hd xs = Min (set xs)"
    using assms(2) by (intro Min_eqI [symmetric]) simp_all
  have "\<forall>y \<in> set xs. y \<le> last xs"
    using assms by (cases xs rule: rev_cases) (auto simp: sorted_append)
  then show "last xs = Max (set xs)"
    using assms(2) by (intro Max_eqI [symmetric]) simp_all
qed

text \<open>
  Claim C3, as amended. For a non-empty m/z array and an intensity array of the same
  length (and, for encoding 32, first and last m/z within the float32 range) binning
  into \<open>N\<close> bins never fails. The \<open>N\<close> edges are evenly spaced from the first to the last
  entry of the m/z array, which for an ascending array are its minimum and maximum, and
  are rounded to float32 when the encoding is 32. Every point gets a digit by right-open
  digitization: against ascending edges the edges before position \<open>b\<close> are at or below a
  point of digit \<open>b\<close> and edge \<open>b\<close>, if there is one, is above it; against edges that are
  not ascending, which are then descending, the edges before position \<open>b\<close> are above the
  point and edge \<open>b\<close> is at or below it. The output has one point for each occupied bin,
  in ascending bin order; its intensity is the sum of the member intensities and its m/z
  is the plain arithmetic mean of the member m/z values (their sum divided by their
  number), not a mean weighted by intensity.
\<close>

theorem bin_profile_spectrum_plain_mean:
  assumes "mz \<noteq> []" and "length inten = length mz"
    and "encoding = 32 \<Longrightarrow> \<bar>hd mz\<bar> \<le> float32_max \<and> \<bar>last mz\<bar> \<le> float32_max"
  shows "\<exists>edges dig.
           edges = np_linspace (hd mz) (last mz) N (get_encoding_dtype encoding)
           \<and> length edges = N
           \<and> (encoding \<noteq> 32 \<longrightarrow> edges = np_linspace (hd mz) (last mz) N None)
           \<and> (encoding = 32 \<longrightarrow>
                edges = map np_float32 (np_linspace (hd mz) (last mz) N None)
                \<and> (\<forall>e \<in> set edges. \<bar>e\<bar> \<le> float32_max))
           \<and> (sorted mz \<longrightarrow> hd mz = Min (set mz) \<and> last mz = Max (set mz))
           \<and> (hd mz \<le> last mz \<longrightarrow> sorted edges)
           \<and> np_digitize mz edges = Inr dig
           \<and> length dig = length mz
           \<and> (sorted edges \<longrightarrow>
                (\<forall>i < length mz.
                   dig ! i \<le> N
                   \<and> (\<forall>j < dig ! i. edges ! j \<le> mz ! i)
                   \<and> (dig ! i < N \<longrightarrow> mz ! i < edges ! (dig ! i))))
           \<and> (\<not> sorted edges \<longrightarrow>
                sorted (rev edges)
                \<and> (\<forall>i < length mz.
                      dig ! i \<le> N
                      \<and> (\<forall>j < dig ! i. mz ! i < edges ! j)
                      \<and> (dig ! i < N \<longrightarrow> edges ! (dig ! i) \<le> mz ! i)))
           \<and> (\<forall>b \<in> set (np_unique dig). bin_members dig mz b \<noteq> [])
           \<and> bin_profile_spectrum mz inten N encoding
               = Inr (map (\<lambda>b. sum_list (bin_members dig mz b)
                                  / real (length (bin_members dig mz b))) (np_unique dig),
                      map (\<lambda>b. sum_list (bin_members dig inten b)) (np_unique dig))"
proof -
  define edges where "edges = np_linspace (hd mz) (last mz) N (get_encoding_dtype encoding)"
  obtain dig where dig: "np_digitize mz edges = Inr dig"
    unfolding edges_def using np_digitize_linspace_total by blast
  have len: "length dig = length mz" using dig by (rule np_digitize_length)
  have lenN: "length edges = N" by (simp add: edges_def length_np_linspace)
  have e64: "edges = np_linspace (hd mz) (last mz) N None" if "encoding \<noteq> 32"
    using that
    by (simp add: edges_def np_linspace_def np_array_def get_encoding_dtype_def np_cast_def)
  have e32: "edges = map np_float32 (np_linspace (hd mz) (last mz) N None)
      \<and> (\<forall>e \<in> set edges. \<bar>e\<bar> \<le> float32_max)" if enc: "encoding = 32"
  proof
    show "edges = map np_float32 (np_linspace (hd mz) (last mz) N None)"
      using enc
      by (simp add: edges_def np_linspace_def np_array_def get_encoding_dtype_def np_cast_def)
    from assms(3) [OF enc] have "\<bar>hd mz\<bar> \<le> float32_max" "\<bar>last mz\<bar> \<le> float32_max"
      by simp_all
    then show "\<forall>e \<in> set edges. \<bar>e\<bar> \<le> float32_max"
      using enc np_linspace_float32_bounded [of "hd mz" "last mz" _ N]
      by (auto simp: edges_def get_encoding_dtype_def)
  qed
  have ends: "hd mz = Min (set mz) \<and> last mz = Max (set mz)" if "sorted mz"
    using sorted_hd_Min_last_Max [OF that assms(1)] by simp
  have up: "sorted edges" if "hd mz \<le> last mz"
    unfolding edges_def using that by (rule sorted_np_linspace)
  have asc: "\<forall>i < length mz.
      dig ! i \<le> N
      \<and> (\<forall>j < dig ! i. edges ! j \<le> mz ! i)
      \<and> (dig ! i < N \<longrightarrow> mz ! i < edges ! (dig ! i))" if "sorted edges"
    using np_digitize_increasing [OF dig that] lenN by simp
  have desc: "sorted (rev edges)
      \<and> (\<forall>i < length mz.
            dig ! i \<le> N
            \<and> (\<forall>j < dig ! i. mz ! i < edges ! j)
            \<and> (dig ! i < N \<longrightarrow> edges ! (dig ! i) \<le> mz ! i))" if ns: "\<not> sorted edges"
  proof
    from assms(1) have "0 < length mz" by simp
    then show "sorted (rev edges)" by (rule np_digitize_decreasing(1) [OF dig ns])
    show "\<forall>i < length mz.
            dig ! i \<le> N
            \<and> (\<forall>j < dig ! i. mz ! i < edges ! j)
            \<and> (dig ! i < N \<longrightarrow> edges ! (dig ! i) \<le> mz ! i)"
      using np_digitize_decreasing(2,3,4) [OF dig ns] lenN by simp
  qed
  have "bin_members dig mz b \<noteq> []" if "b \<in> set (np_unique dig)" for b
    using that len by (intro bin_members_nonempty) (simp_all add: np_unique_props)
  then have ne: "\<forall>b \<in> set (np_unique dig). bin_members dig mz b \<noteq> []" by blast
  have mzs: "np_bincount_weights (np_unique_inverse dig) mz
      = Inr (map (\<lambda>b. sum_list (bin_members dig mz b)) (np_unique dig))"
    using len by (intro np_bincount_weights_inverse) simp
  have ints: "np_bincount_weights (np_unique_inverse dig) inten
      = Inr (map (\<lambda>b. sum_list (bin_members dig inten b)) (np_unique dig))"
    using len assms(2) by (intro np_bincount_weights_inverse) simp
  have quot: "map2 (\<lambda>s c. s / real c)
        (map (\<lambda>b. sum_list (bin_members dig mz b)) (np_unique dig))
        (np_place_lt1 (np_bincount (np_unique_inverse dig)))
      = map (\<lambda>b. sum_list (bin_members dig mz b) / real (length (bin_members dig mz b)))
          (np_unique dig)"
    using len by (intro binned_quotients) simp
  have run: "bin_profile_spectrum mz inten N encoding
      = Inr (map (\<lambda>b. sum_list (bin_members dig mz b)
                        / real (length (bin_members dig mz b))) (np_unique dig),
             map (\<lambda>b. sum_list (bin_members dig inten b)) (np_unique dig))"
    using assms(1) dig
    by (simp add: bin_profile_spectrum_def Let_def edges_def [symmetric] mzs ints quot)
  show ?thesis
    by (intro exI [of _ edges] exI [of _ dig] conjI impI)
       (use edges_def lenN e64 e32 ends up dig len asc desc ne run in \<open>simp_all\<close>)
qed

lemma bin_profile_spectrum_scenario:
  "bin_profile_spectrum [1, 1.02, 1.03, 5] [10, 5, 5, 1] 2 64 = Inr ([3.05 / 3, 5], [20, 1])"
  by code_simp

lemma bin_profile_spectrum_unsorted_example:
  "bin_profile_spectrum [1.02, 1, 5, 1.03] [5, 10, 1, 5] 2 64
     = Inr ([1, 1.02, 6.03 / 2], [10, 5, 6])"
  "np_digitize [1.02, 1, 5, 1.03]
     (np_linspace (hd [1.02, 1, 5, 1.03]) (last [1.02, 1, 5, 1.03]) 2 (get_encoding_dtype 64))
     = Inr [1, 0, 2, 2]"
  "np_digitize [1.02, 1, 5, 1.03] (np_linspace 1 5 2 (get_encoding_dtype 64)) = Inr [1, 1, 2, 1]"
  by code_simp+

lemma bin_profile_spectrum_float32_example:
  "np_linspace 1 4.9 2 (get_encoding_dtype 32) = [1, 10276045 / 2097152]"
  "np_digitize [1, 4, 4.9] [1, 10276045 / 2097152] = Inr [1, 1, 1]"
  "np_unique [1, 1, 1] = [1]"
  "bin_profile_spectrum [1, 4, 4.9] [1, 2, 4] 2 32 = Inr ([3.3], [7])"
  "bin_profile_spectrum [1, 4, 4.9] [1, 2, 4] 2 64 = Inr ([2.5, 4.9], [3, 4])"
  by code_simp+

text \<open>
  The claim as written fails in two respects. On its own scenario the first output m/z
  is \<open>(1 + 1.02 + 1.03) / 3\<close>, not the intensity-weighted mean
  \<open>(10 * 1 + 5 * 1.02 + 5 * 1.03) / 20\<close>. And the edges span the first and the last m/z,
  not the minimum and the maximum: for the same four points in the order
  \<open>1.02, 1, 5, 1.03\<close> the edges are \<open>1.02\<close> and \<open>1.03\<close>, the digits are \<open>1, 0, 2, 2\<close>
  where edges over \<open>[1, 5]\<close> give \<open>1, 1, 2, 1\<close>, and three points come out, the last
  with the plain mean \<open>(5 + 1.03) / 2\<close> of its two members.
\<close>

theorem bin_profile_spectrum_weighted_mean_counterexample:
  "bin_profile_spectrum [1, 1.02, 1.03, 5] [10, 5, 5, 1] 2 64 = Inr ([3.05 / 3, 5], [20, 1])
   \<and> (3.05 / 3 :: real) \<noteq> (10 * 1 + 5 * 1.02 + 5 * 1.03) / (10 + 5 + 5)
   \<and> bin_profile_spectrum [1.02, 1, 5, 1.03] [5, 10, 1, 5] 2 64
       = Inr ([1, 1.02, 6.03 / 2], [10, 5, 6])
   \<and> (6.03 / 2 :: real) \<noteq> (1 * 5 + 5 * 1.03) / (1 + 5)
   \<and> np_digitize [1.02, 1, 5, 1.03]
        (np_linspace (hd [1.02, 1, 5, 1.03]) (last [1.02, 1, 5, 1.03]) 2
           (get_encoding_dtype 64))
       = Inr [1, 0, 2, 2]
   \<and> Min (set [1.02, 1, 5, 1.03 :: real]) = 1 \<and> Max (set [1.02, 1, 5, 1.03 :: real]) = 5
   \<and> np_digitize [1.02, 1, 5, 1.03] (np_linspace 1 5 2 (get_encoding_dtype 64))
       = Inr [1, 1, 2, 1]"
  using bin_profile_spectrum_scenario bin_profile_spectrum_unsorted_example by simp

theorem bin_profile_spectrum_plain_mean_witness:
  "np_linspace 1 4.9 2 (get_encoding_dtype 32) = [1, np_float32 4.9]
   \<and> (4.9 :: real) < np_float32 4.9
   \<and> np_digitize [1, 4, 4.9] (np_linspace 1 4.9 2 (get_encoding_dtype 32)) = Inr [1, 1, 1]
   \<and> bin_profile_spectrum [1, 4, 4.9] [1, 2, 4] 2 32
       = Inr (map (\<lambda>b. sum_list (bin_members [1, 1, 1] [1, 4, 4.9] b)
                         / real (length (bin_members [1, 1, 1] [1, 4, 4.9] b))) [1],
              map (\<lambda>b. sum_list (bin_members [1, 1, 1] [1, 2, 4] b)) [1])
   \<and> bin_profile_spectrum [1, 4, 4.9] [1, 2, 4] 2 32 = Inr ([3.3], [7])"
proof -
  have ne: "[1, 4, 4.9 :: real] \<noteq> []" by simp
  have len: "length [1, 2, 4 :: real] = length [1, 4, 4.9 :: real]" by simp
  have range: "\<bar>hd [1, 4, 4.9 :: real]\<bar> \<le> float32_max
      \<and> \<bar>last [1, 4, 4.9 :: real]\<bar> \<le> float32_max"
    by (simp add: float32_max_def)
  have f: "np_float32 4.9 = 10276045 / 2097152" by code_simp
  have edges: "np_linspace (hd [1, 4, 4.9]) (last [1, 4, 4.9]) 2 (get_encoding_dtype 32)
      = [1, 10276045 / 2097152]"
    using bin_profile_spectrum_float32_example(1) by simp
  from bin_profile_spectrum_plain_mean [where encoding = 32 and N = 2, OF ne len range]
  obtain dig where dig: "np_digitize [1, 4, 4.9] [1, 10276045 / 2097152] = Inr dig"
    and run: "bin_profile_spectrum [1, 4, 4.9] [1, 2, 4] 2 32
       = Inr (map (\<lambda>b. sum_list (bin_members dig [1, 4, 4.9] b)
                         / real (length (bin_members dig [1, 4, 4.9] b))) (np_unique dig),
              map (\<lambda>b. sum_list (bin_members dig [1, 2, 4] b)) (np_unique dig))"
    unfolding edges by blast
  from dig have d: "dig = [1, 1, 1]"
    by (simp add: bin_profile_spectrum_float32_example(2))
  show ?thesis
    using run bin_profile_spectrum_float32_example
    by (simp add: d f)
qed

section \<open>Properties of the merge of sub-scans and of PASEF windows\<close>


















text \<open>
  The grid in float32: the entries after the second are filled from the first two, so the
  third is \<open>100 + 2 * (np_float32 100.005 - 100)\<close>, not \<open>np_float32 100.01\<close>.
\<close>

lemma np_arange_float32_example:
  "np_arange 100 100.02 0.005 (get_encoding_dtype 32)
     = [100, 13107855 / 131072, 6554255 / 65536, 13109165 / 131072]"
  "np_arange 100 100.02 0.005 (get_encoding_dtype 64) = [100, 100.005, 100.01, 100.015]"
  "np_float32 100.01 = 13108511 / 131072"
  by code_simp+




section \<open>Properties of the records the TDF parser builds\<close>

lemma get_centroid_status_profile:
  "get_centroid_status ''profile'' x = Inr (False, Some True)"
  by (simp add: get_centroid_status_def)

lemma spectrum_data_keeps:
  assumes "populate_scan_dict_w_spectrum_data s mz it = Inr r"
  shows "mobility_array r = mobility_array s" "selected_ion_ccs r = selected_ion_ccs s"
    "charge_state r = charge_state s"
  using assms by (auto simp: populate_scan_dict_w_spectrum_data_def Let_def split: if_splits)

lemma metadata_keeps:
  assumes "populate_scan_dict_w_lcms_tsf_tdf_metadata s fd mode excl = Inr r"
  shows "mobility_array r = mobility_array s" "selected_ion_ccs r = selected_ion_ccs s"
    "charge_state r = charge_state s"
  using assms
  by (auto simp: populate_scan_dict_w_lcms_tsf_tdf_metadata_def split: sum.splits)

lemma attach_mobility_keeps:
  assumes "attach_mobility_array excl mob s = Inr r"
  shows "selected_ion_ccs r = selected_ion_ccs s" "charge_state r = charge_state s"
    "py_truthy excl \<Longrightarrow> r = s"
  using assms by (auto simp: attach_mobility_array_def split: if_splits option.splits)

lemma record_if_usable_keeps:
  assumes "record_if_usable excl ex s fill = Inr rs" and "r \<in> set rs"
  shows "selected_ion_ccs r = selected_ion_ccs (fill s)"
    and "charge_state r = charge_state (fill s)"
    and "py_truthy excl \<Longrightarrow> mobility_array r = mobility_array (fill s)"
proof -
  from assms obtain wd where wd: "populate_scan_dict_w_spectrum_data (fill s)
        (fst (the (fst ex))) (snd (the (fst ex))) = Inr wd"
    and at: "attach_mobility_array excl (snd ex) wd = Inr r"
    by (auto simp: record_if_usable_def split: sum.splits if_splits)
  show "selected_ion_ccs r = selected_ion_ccs (fill s)"
    using attach_mobility_keeps(1) [OF at] spectrum_data_keeps(2) [OF wd] by simp
  show "charge_state r = charge_state (fill s)"
    using attach_mobility_keeps(2) [OF at] spectrum_data_keeps(3) [OF wd] by simp
  show "mobility_array r = mobility_array (fill s)" if "py_truthy excl"
    using attach_mobility_keeps(3) [OF at that] spectrum_data_keeps(1) [OF wd] by simp
qed

lemma ddapasef_ms2_keeps:
  assumes "populate_scan_dict_w_ddapasef_ms2 s d p ps = Inr r"
  shows "mobility_array r = mobility_array s"
    and "selected_ion_ccs s = None \<Longrightarrow> ccs_needs_charge r"
  using assms
  by (auto simp: populate_scan_dict_w_ddapasef_ms2_def Let_def ccs_needs_charge_def
           split: list.splits pyfloat.splits)

lemma precursor_loop_records:
  assumes "precursor_loop d fd mode excl bins enc precs = Inr rs" and "r \<in> set rs"
  shows "mobility_array r = None \<and> ccs_needs_charge r"
  using assms
proof (induction precs arbitrary: rs)
  case Nil
  then show ?case by simp
next
  case (Cons p precs)
  from Cons.prems(1) obtain s0 where s0:
    "populate_scan_dict_w_lcms_tsf_tdf_metadata init_scan_dict fd mode excl = Inr s0"
    by (auto split: sum.splits)
  have s0_init: "mobility_array s0 = None" "selected_ion_ccs s0 = None"
    using metadata_keeps [OF s0] by (simp_all add: init_scan_dict_def)
  let ?pasef = "filter (\<lambda>r. pf_Precursor r = pr_Id p) (PasefFrameMsMsInfo d)"
  show ?case
  proof (cases "extract_ddapasef_precursor_spectrum d ?pasef mode bins enc")
    case (Inl e)
    with Cons.prems(1) s0 show ?thesis by (simp add: Let_def)
  next
    case (Inr ex)
    show ?thesis
    proof (cases ex)
      case None
      with Inr Cons.prems s0 Cons.IH show ?thesis by (simp add: Let_def)
    next
      case (Some arrays)
      obtain mz it where arrays: "arrays = (mz, it)" by (cases arrays)
      from Cons.prems(1) s0 Inr Some arrays obtain wp fin later where
        wp: "populate_scan_dict_w_ddapasef_ms2 s0 d p ?pasef = Inr wp"
        and fin: "populate_scan_dict_w_spectrum_data wp mz it = Inr fin"
        and later: "precursor_loop d fd mode excl bins enc precs = Inr later"
        and rs: "rs = fin # later"
        by (auto simp: Let_def split: sum.splits)
      have "mobility_array fin = None \<and> ccs_needs_charge fin"
        using ddapasef_ms2_keeps [OF wp] s0_init spectrum_data_keeps [OF fin]
        by (simp add: ccs_needs_charge_def)
      with Cons.prems(2) rs Cons.IH [OF later] show ?thesis by auto
    qed
  qed
qed

lemma dia_window_loop_records:
  assumes "dia_window_loop d fd mode excl bins enc frm ws = Inr rs" and "r \<in> set rs"
  shows "(py_truthy excl \<longrightarrow> mobility_array r = None) \<and> ccs_needs_charge r"
  using assms
proof (induction ws arbitrary: rs)
  case Nil
  then show ?case by simp
next
  case (Cons w ws)
  from Cons.prems(1) obtain s0 ex now later where
    s0: "populate_scan_dict_w_lcms_tsf_tdf_metadata init_scan_dict fd mode excl = Inr s0"
    and now: "record_if_usable excl ex s0 (\<lambda>s. populate_scan_dict_w_diapasef_ms2 s w) = Inr now"
    and later: "dia_window_loop d fd mode excl bins enc frm ws = Inr later"
    and rs: "rs = now @ later"
    by (auto split: sum.splits)
  have s0_init: "mobility_array s0 = None" "selected_ion_ccs s0 = None"
    using metadata_keeps [OF s0] by (simp_all add: init_scan_dict_def)
  have "(py_truthy excl \<longrightarrow> mobility_array x = None) \<and> ccs_needs_charge x" if "x \<in> set now" for x
    using record_if_usable_keeps [OF now that] s0_init
    by (simp add: ccs_needs_charge_def populate_scan_dict_w_diapasef_ms2_def)
  with Cons.prems(2) rs Cons.IH [OF later] show ?case by auto
qed


lemma init_after_metadata:
  assumes "populate_scan_dict_w_lcms_tsf_tdf_metadata init_scan_dict fd mode excl = Inr s0"
  shows "mobility_array s0 = None" "selected_ion_ccs s0 = None"
  using metadata_keeps [OF assms] by (simp_all add: init_scan_dict_def)

lemma parse_ms1_frame_records:
  assumes run: "parse_ms1_frame d fs fe mode excl bins enc frm fd = Inr (ps, qs)"
    and r: "r \<in> set ps \<union> set qs"
  shows "(py_truthy excl \<longrightarrow> mobility_array r = None) \<and> ccs_needs_charge r"
proof -
  from run obtain s0 ex where
    s0: "populate_scan_dict_w_lcms_tsf_tdf_metadata init_scan_dict fd mode excl = Inr s0"
    and parents: "record_if_usable excl ex (populate_scan_dict_w_ms1 s0 frm) (\<lambda>s. s) = Inr ps"
    and products: "qs = [] \<or> precursor_loop d fd mode excl bins enc
                      (filter (\<lambda>r. pr_Parent r = frm) (Precursors d)) = Inr qs"
    by (auto simp: parse_ms1_frame_def split: sum.splits if_splits)
  show ?thesis
  proof (cases "r \<in> set ps")
    case True
    show ?thesis
      using record_if_usable_keeps [OF parents True] init_after_metadata [OF s0]
      by (simp add: ccs_needs_charge_def populate_scan_dict_w_ms1_def)
  next
    case False
    with r products have "precursor_loop d fd mode excl bins enc
        (filter (\<lambda>r. pr_Parent r = frm) (Precursors d)) = Inr qs" and "r \<in> set qs"
      by auto
    then show ?thesis using precursor_loop_records by blast
  qed
qed

lemma parse_diapasef_frame_records:
  assumes run: "parse_diapasef_frame d mode excl bins enc frm fd = Inr (ps, qs)"
    and r: "r \<in> set ps \<union> set qs"
  shows "(py_truthy excl \<longrightarrow> mobility_array r = None) \<and> ccs_needs_charge r"
proof -
  from run obtain ws where
    loop: "dia_window_loop d fd mode excl bins enc frm ws = Inr ps" and "qs = []"
    by (auto simp: parse_diapasef_frame_def split: sum.splits)
  with r have "r \<in> set ps" by simp
  with loop show ?thesis by (rule dia_window_loop_records)
qed

lemma parse_bbcid_frame_records:
  assumes run: "parse_bbcid_frame d mode excl bins enc frm fd = Inr (ps, qs)"
    and r: "r \<in> set ps \<union> set qs"
  shows "(py_truthy excl \<longrightarrow> mobility_array r = None) \<and> ccs_needs_charge r"
proof -
  from run obtain s0 fm ex where
    s0: "populate_scan_dict_w_lcms_tsf_tdf_metadata init_scan_dict fd mode excl = Inr s0"
    and parents: "record_if_usable excl ex (populate_scan_dict_w_bbcid_iscid_ms2 s0 frm fm)
                    (\<lambda>s. s) = Inr ps"
    and "qs = []"
    by (auto simp: parse_bbcid_frame_def split: sum.splits)
  with r have "r \<in> set ps" by simp
  then show ?thesis
    using record_if_usable_keeps [OF parents] init_after_metadata [OF s0]
    by (simp add: ccs_needs_charge_def populate_scan_dict_w_bbcid_iscid_ms2_def)
qed

lemma parse_mrm_frame_records:
  assumes run: "parse_mrm_frame d mode excl bins enc frm fd = Inr (ps, qs)"
    and r: "r \<in> set ps \<union> set qs"
  shows "mobility_array r = None \<and> ccs_needs_charge r"
proof -
  from run obtain s0 fm ex where
    s0: "populate_scan_dict_w_lcms_tsf_tdf_metadata init_scan_dict fd mode excl = Inr s0"
    and parents: "record_if_usable (Some True) (ex, None) s0
                    (\<lambda>s. populate_scan_dict_w_tsf_ms2 s fm) = Inr ps"
    and "qs = []"
    by (auto simp: parse_mrm_frame_def split: sum.splits)
  with r have "r \<in> set ps" by simp
  then show ?thesis
    using record_if_usable_keeps [OF parents] init_after_metadata [OF s0]
    by (simp add: ccs_needs_charge_def populate_scan_dict_w_tsf_ms2_def py_truthy_def)
qed

lemma parse_prmpasef_frame_records:
  assumes run: "parse_prmpasef_frame d mode excl bins enc frm fd = Inr (ps, qs)"
    and r: "r \<in> set ps \<union> set qs"
  shows "mobility_array r = None \<and> ccs_needs_charge r"
proof -
  from run obtain s0 pm pt ex where
    s0: "populate_scan_dict_w_lcms_tsf_tdf_metadata init_scan_dict fd mode excl = Inr s0"
    and parents: "record_if_usable (Some True) (ex, None) s0
                    (\<lambda>s. populate_scan_dict_w_prmpasef_ms2 d s pm pt) = Inr ps"
    and "qs = []"
    by (auto simp: parse_prmpasef_frame_def split: sum.splits)
  with r have "r \<in> set ps" by simp
  then show ?thesis
    using record_if_usable_keeps [OF parents] init_after_metadata [OF s0]
    by (auto simp: ccs_needs_charge_def populate_scan_dict_w_prmpasef_ms2_def py_truthy_def
                   Let_def split: pyfloat.splits)
qed

lemma parse_tdf_frame_records:
  assumes run: "parse_tdf_frame d fs fe mode ms2 excl bins enc frm = Inr (ps, qs)"
    and r: "r \<in> set ps \<union> set qs"
  shows "(py_truthy excl \<longrightarrow> mobility_array r = None) \<and> ccs_needs_charge r"
proof -
  from run obtain fd where
    "parse_ms1_frame d fs fe mode excl bins enc frm fd = Inr (ps, qs)
     \<or> parse_diapasef_frame d mode excl bins enc frm fd = Inr (ps, qs)
     \<or> parse_bbcid_frame d mode excl bins enc frm fd = Inr (ps, qs)
     \<or> parse_mrm_frame d mode excl bins enc frm fd = Inr (ps, qs)
     \<or> parse_prmpasef_frame d mode excl bins enc frm fd = Inr (ps, qs)
     \<or> (ps = [] \<and> qs = [])"
    by (auto simp: parse_tdf_frame_def split: sum.splits if_splits)
  then show ?thesis
    using r parse_ms1_frame_records [of d fs fe mode excl bins enc frm _ ps qs r]
      parse_diapasef_frame_records [of d mode excl bins enc frm _ ps qs r]
      parse_bbcid_frame_records [of d mode excl bins enc frm _ ps qs r]
      parse_mrm_frame_records [of d mode excl bins enc frm _ ps qs r]
      parse_prmpasef_frame_records [of d mode excl bins enc frm _ ps qs r]
    by (elim disjE) auto
qed

lemma parse_tdf_frames_records:
  assumes "parse_tdf_frames d fs fe mode ms2 excl bins enc frms = Inr (ps, qs)"
    and "r \<in> set ps \<union> set qs"
  shows "(py_truthy excl \<longrightarrow> mobility_array r = None) \<and> ccs_needs_charge r"
  using assms
proof (induction frms arbitrary: ps qs)
  case Nil
  then show ?case by simp
next
  case (Cons frm frms)
  from Cons.prems(1) obtain p1 q1 p2 q2 where
    now: "parse_tdf_frame d fs fe mode ms2 excl bins enc frm = Inr (p1, q1)"
    and later: "parse_tdf_frames d fs fe mode ms2 excl bins enc frms = Inr (p2, q2)"
    and eq: "ps = p1 @ p2" "qs = q1 @ q2"
    by (auto split: sum.splits)
  from Cons.prems(2) eq have "r \<in> set p1 \<union> set q1 \<or> r \<in> set p2 \<union> set q2" by auto
  then show ?case
    using parse_tdf_frame_records [OF now] Cons.IH [OF later] by blast
qed


lemma parse_lcms_tdf_records:
  assumes "parse_lcms_tdf d fs fe mode ms2 excl bins enc = Inr (ps, qs)"
    and "r \<in> set ps \<union> set qs"
  shows "ccs_needs_charge r" and "mode = ''profile'' \<Longrightarrow> mobility_array r = None"
proof -
  from assms(1) obtain st where
    st: "get_centroid_status mode excl = Inr st"
    and run: "parse_tdf_frames d fs fe mode ms2 (snd st) bins enc [fs..<fe] = Inr (ps, qs)"
    by (auto simp: parse_lcms_tdf_def split: sum.splits)
  note rec = parse_tdf_frames_records [OF run assms(2)]
  show "ccs_needs_charge r" using rec by simp
  show "mobility_array r = None" if "mode = ''profile''"
  proof -
    from st that have "snd st = Some True" by (auto simp: get_centroid_status_def)
    with rec show ?thesis by (simp add: py_truthy_def)
  qed
qed

lemma profile_parse_example:
  "(case parse_lcms_tdf
           (tdf_empty \<lparr> Frames := [ms1_frame_example 1],
                        tims_extract_profile_for_frame := (\<lambda>frm b e. ([100, 200], [5, 7])) \<rparr>)
           1 2 ''profile'' False (Some False) 0 64 of
      Inl e \<Rightarrow> False
    | Inr parsed \<Rightarrow> map mz_array (fst parsed) = [Some [100, 200]] \<and> snd parsed = [])"
  by code_simp

lemma empty_3d_example:
  "extract_3d_tdf_spectrum (tdf_empty \<lparr> Frames := [ms1_frame_example 1] \<rparr>) 1 0 2 = Inr None"
  "parse_lcms_tdf (tdf_empty \<lparr> Frames := [ms1_frame_example 1] \<rparr>) 1 2 ''centroid'' False
     (Some False) 0 64 = Inl AttributeError"
  "parse_lcms_tdf (tdf_empty \<lparr> Frames := [ms1_frame_example 1] \<rparr>) 1 2 ''centroid'' False
     (Some True) 0 64 = Inr ([], [])"
  by code_simp+

text \<open>
  Claim C10. In profile mode \<^verbatim>\<open>get_centroid_status\<close> returns the exclude-mobility flag
  \<^verbatim>\<open>True\<close> whatever the caller passed; in centroid and raw mode it returns the caller's
  flag unchanged. Hence in every result of \<^verbatim>\<open>parse_lcms_tdf\<close> in profile mode no record,
  parent or product, has a mobility array.
\<close>

theorem profile_mode_excludes_mobility:
  "get_centroid_status ''profile'' exclude_mobility = Inr (False, Some True)
   \<and> (mode = ''centroid'' \<or> mode = ''raw'' \<longrightarrow>
        get_centroid_status mode exclude_mobility = Inr (True, exclude_mobility))
   \<and> (parse_lcms_tdf d frame_start frame_stop ''profile'' ms2_only exclude_mobility
         profile_bins encoding = Inr (parents, products) \<longrightarrow>
        (\<forall>r \<in> set parents \<union> set products. mobility_array r = None))"
proof (intro conjI impI ballI)
  show "get_centroid_status ''profile'' exclude_mobility = Inr (False, Some True)"
    by (rule get_centroid_status_profile)
next
  assume "mode = ''centroid'' \<or> mode = ''raw''"
  then show "get_centroid_status mode exclude_mobility = Inr (True, exclude_mobility)"
    by (auto simp: get_centroid_status_def)
next
  fix r
  assume "parse_lcms_tdf d frame_start frame_stop ''profile'' ms2_only exclude_mobility
            profile_bins encoding = Inr (parents, products)"
    and "r \<in> set parents \<union> set products"
  then show "mobility_array r = None"
    by (rule parse_lcms_tdf_records(2)) simp
qed

theorem profile_mode_excludes_mobility_witness:
  "get_centroid_status ''raw'' (Some False) = Inr (True, Some False)
   \<and> (\<exists>parents.
         parse_lcms_tdf
           (tdf_empty \<lparr> Frames := [ms1_frame_example 1],
                        tims_extract_profile_for_frame := (\<lambda>frm b e. ([100, 200], [5, 7])) \<rparr>)
           1 2 ''profile'' False (Some False) 0 64 = Inr (parents, [])
         \<and> map mz_array parents = [Some [100, 200]]
         \<and> (\<forall>r \<in> set parents \<union> set []. mobility_array r = None))"
proof -
  let ?d = "tdf_empty \<lparr> Frames := [ms1_frame_example 1],
                        tims_extract_profile_for_frame := (\<lambda>frm b e. ([100, 200], [5, 7])) \<rparr>"
  obtain parents where run: "parse_lcms_tdf ?d 1 2 ''profile'' False (Some False) 0 64
      = Inr (parents, [])" and mz: "map mz_array parents = [Some [100, 200]]"
    using profile_parse_example by (auto split: sum.splits)
  note inst = profile_mode_excludes_mobility
    [of "Some False" "''raw''" ?d 1 2 False 0 64 parents "[]"]
  have raw: "get_centroid_status ''raw'' (Some False) = Inr (True, Some False)"
    by (rule inst [THEN conjunct2, THEN conjunct1, THEN mp]) simp
  have none: "\<forall>r \<in> set parents \<union> set []. mobility_array r = None"
    by (rule inst [THEN conjunct2, THEN conjunct2, THEN mp]) (rule run)
  have "\<exists>parents. parse_lcms_tdf ?d 1 2 ''profile'' False (Some False) 0 64 = Inr (parents, [])
         \<and> map mz_array parents = [Some [100, 200]]
         \<and> (\<forall>r \<in> set parents \<union> set []. mobility_array r = None)"
    by (rule exI [of _ parents]) (intro conjI run mz none)
  with raw show ?thesis by (rule conjI)
qed

text \<open>
  Claim C9. With a NaN charge the ddaPASEF and the prmPASEF population leave
  \<open>selected_ion_ccs\<close> as it was (unset, for the fresh dictionary the parser passes),
  while \<open>selected_ion_mobility\<close> is set. Nothing else is lost: the record built for a NaN
  charge is the record built for a finite charge with only the cross-section put back
  and the charge itself NaN. In every result of \<^verbatim>\<open>parse_lcms_tdf\<close> a record whose charge
  state is NaN or unset has no \<open>selected_ion_ccs\<close>.
\<close>

theorem nan_charge_leaves_ccs_unset:
  "(pr_Charge precursor = NaN \<longrightarrow> pasef \<noteq> [] \<longrightarrow>
      (\<exists>r. populate_scan_dict_w_ddapasef_ms2 s d precursor pasef = Inr r
           \<and> selected_ion_ccs r = selected_ion_ccs s
           \<and> charge_state r = Some NaN
           \<and> selected_ion_mobility r
               = Some (tims_scannum_to_oneoverk0 d (pr_Parent precursor)
                         (pr_ScanNumber precursor))
           \<and> (\<forall>c r'. populate_scan_dict_w_ddapasef_ms2 s d (precursor \<lparr> pr_Charge := Fl c \<rparr>)
                        pasef = Inr r' \<longrightarrow>
                 r = r' \<lparr> selected_ion_ccs := selected_ion_ccs s,
                           charge_state := Some NaN \<rparr>)))
   \<and> (pt_Charge target = NaN \<longrightarrow>
        selected_ion_ccs (populate_scan_dict_w_prmpasef_ms2 d s prm target)
          = selected_ion_ccs s
        \<and> charge_state (populate_scan_dict_w_prmpasef_ms2 d s prm target) = Some NaN
        \<and> selected_ion_mobility (populate_scan_dict_w_prmpasef_ms2 d s prm target)
            = Some (pt_OneOverK0 target)
        \<and> (\<forall>c. populate_scan_dict_w_prmpasef_ms2 d s prm target
                 = (populate_scan_dict_w_prmpasef_ms2 d s prm (target \<lparr> pt_Charge := Fl c \<rparr>))
                     \<lparr> selected_ion_ccs := selected_ion_ccs s, charge_state := Some NaN \<rparr>))
   \<and> (parse_lcms_tdf d' frame_start frame_stop mode ms2_only exclude_mobility profile_bins encoding
         = Inr (parents, products) \<longrightarrow>
        (\<forall>r \<in> set parents \<union> set products.
           charge_state r = None \<or> charge_state r = Some NaN \<longrightarrow> selected_ion_ccs r = None))"
proof (intro conjI impI ballI)
  assume nan: "pr_Charge precursor = NaN" and ne: "pasef \<noteq> []"
  then obtain p0 rest where pasef: "pasef = p0 # rest" by (cases pasef) auto
  show "\<exists>r. populate_scan_dict_w_ddapasef_ms2 s d precursor pasef = Inr r
           \<and> selected_ion_ccs r = selected_ion_ccs s
           \<and> charge_state r = Some NaN
           \<and> selected_ion_mobility r
               = Some (tims_scannum_to_oneoverk0 d (pr_Parent precursor)
                         (pr_ScanNumber precursor))
           \<and> (\<forall>c r'. populate_scan_dict_w_ddapasef_ms2 s d (precursor \<lparr> pr_Charge := Fl c \<rparr>)
                        pasef = Inr r' \<longrightarrow>
                 r = r' \<lparr> selected_ion_ccs := selected_ion_ccs s,
                           charge_state := Some NaN \<rparr>)"
    using nan by (auto simp: populate_scan_dict_w_ddapasef_ms2_def pasef Let_def)
next
  assume nan: "pt_Charge target = NaN"
  show "selected_ion_ccs (populate_scan_dict_w_prmpasef_ms2 d s prm target) = selected_ion_ccs s"
    using nan by (simp add: populate_scan_dict_w_prmpasef_ms2_def Let_def)
  show "charge_state (populate_scan_dict_w_prmpasef_ms2 d s prm target) = Some NaN"
    using nan by (simp add: populate_scan_dict_w_prmpasef_ms2_def Let_def)
  show "selected_ion_mobility (populate_scan_dict_w_prmpasef_ms2 d s prm target)
          = Some (pt_OneOverK0 target)"
    using nan by (simp add: populate_scan_dict_w_prmpasef_ms2_def Let_def)
  show "\<forall>c. populate_scan_dict_w_prmpasef_ms2 d s prm target
             = (populate_scan_dict_w_prmpasef_ms2 d s prm (target \<lparr> pt_Charge := Fl c \<rparr>))
                 \<lparr> selected_ion_ccs := selected_ion_ccs s, charge_state := Some NaN \<rparr>"
    using nan by (simp add: populate_scan_dict_w_prmpasef_ms2_def Let_def)
next
  fix r
  assume run: "parse_lcms_tdf d' frame_start frame_stop mode ms2_only exclude_mobility
                 profile_bins encoding = Inr (parents, products)"
    and r: "r \<in> set parents \<union> set products"
    and charge: "charge_state r = None \<or> charge_state r = Some NaN"
  have "ccs_needs_charge r" using run r by (rule parse_lcms_tdf_records(1))
  with charge show "selected_ion_ccs r = None"
    by (auto simp: ccs_needs_charge_def)
qed

text \<open>
  A ddaPASEF window for the witnesses: MS1 frame 1 (scan mode 8) with one precursor whose
  charge is NaN, fragmented in frame 2.
\<close>

lemma ddapasef_nan_charge_example:
  "(case parse_lcms_tdf
           (tdf_empty
              \<lparr> Frames := [(ms1_frame_example 1) \<lparr> fr_ScanMode := 8 \<rparr>,
                           (ms1_frame_example 2) \<lparr> fr_ScanMode := 8, fr_MsMsType := 8 \<rparr>],
                Precursors := [\<lparr> pr_Id = 1, pr_Parent = 1, pr_ScanNumber = 3, pr_Charge = NaN,
                                   pr_AverageMz = 500, pr_LargestPeakMz = 500,
                                   pr_MonoisotopicMz = NaN, pr_Intensity = 10 \<rparr>],
                PasefFrameMsMsInfo := [\<lparr> pf_Frame = 2, pf_Precursor = 1, pf_ScanNumBegin = 0,
                                           pf_ScanNumEnd = 2, pf_IsolationWidth = 2,
                                           pf_CollisionEnergy = 30 \<rparr>],
                MzAcqRangeLower := 100, MzAcqRangeUpper := 100.01,
                tims_extract_centroided_spectrum_for_frame_v2 :=
                  (\<lambda>frm b e. if frm = 2 then ([100.002, 100.007], [5, 7]) else ([], [])) \<rparr>)
           1 3 ''centroid'' False (Some True) 0 64 of
      Inl e \<Rightarrow> False
    | Inr parsed \<Rightarrow>
        fst parsed = []
        \<and> map (\<lambda>r. (parent_frame r, charge_state r, selected_ion_mobility r, mz_array r))
              (snd parsed)
            = [(Some 1, Some NaN, Some (13 / 10), Some [100.002, 100.007])])"
  by code_simp

theorem nan_charge_leaves_ccs_unset_witness:
  "(\<exists>r. populate_scan_dict_w_ddapasef_ms2 init_scan_dict tdf_empty
           \<lparr> pr_Id = 1, pr_Parent = 1, pr_ScanNumber = 3, pr_Charge = NaN, pr_AverageMz = 500,
             pr_LargestPeakMz = 500, pr_MonoisotopicMz = NaN, pr_Intensity = 10 \<rparr>
           [\<lparr> pf_Frame = 2, pf_Precursor = 1, pf_ScanNumBegin = 0, pf_ScanNumEnd = 2,
              pf_IsolationWidth = 2, pf_CollisionEnergy = 30 \<rparr>] = Inr r
        \<and> selected_ion_ccs r = None \<and> charge_state r = Some NaN
        \<and> selected_ion_mobility r = Some (13 / 10))
   \<and> selected_ion_ccs (populate_scan_dict_w_prmpasef_ms2 tdf_empty init_scan_dict
        \<lparr> pm_Frame = 2, pm_Target = 1, pm_ScanNumBegin = 0, pm_ScanNumEnd = 2,
          pm_IsolationMz = 500, pm_IsolationWidth = 2, pm_CollisionEnergy = 30 \<rparr>
        \<lparr> pt_Id = 1, pt_OneOverK0 = 9 / 10, pt_Charge = NaN \<rparr>) = None
   \<and> (\<exists>products.
         parse_lcms_tdf
           (tdf_empty
              \<lparr> Frames := [(ms1_frame_example 1) \<lparr> fr_ScanMode := 8 \<rparr>,
                           (ms1_frame_example 2) \<lparr> fr_ScanMode := 8, fr_MsMsType := 8 \<rparr>],
                Precursors := [\<lparr> pr_Id = 1, pr_Parent = 1, pr_ScanNumber = 3, pr_Charge = NaN,
                                   pr_AverageMz = 500, pr_LargestPeakMz = 500,
                                   pr_MonoisotopicMz = NaN, pr_Intensity = 10 \<rparr>],
                PasefFrameMsMsInfo := [\<lparr> pf_Frame = 2, pf_Precursor = 1, pf_ScanNumBegin = 0,
                                           pf_ScanNumEnd = 2, pf_IsolationWidth = 2,
                                           pf_CollisionEnergy = 30 \<rparr>],
                MzAcqRangeLower := 100, MzAcqRangeUpper := 100.01,
                tims_extract_centroided_spectrum_for_frame_v2 :=
                  (\<lambda>frm b e. if frm = 2 then ([100.002, 100.007], [5, 7]) else ([], [])) \<rparr>)
           1 3 ''centroid'' False (Some True) 0 64 = Inr ([], products)
         \<and> map charge_state products = [Some NaN]
         \<and> map selected_ion_mobility products = [Some (13 / 10)]
         \<and> (\<forall>r \<in> set products. selected_ion_ccs r = None))"
proof -
  let ?prec = "\<lparr> pr_Id = 1, pr_Parent = 1, pr_ScanNumber = 3, pr_Charge = NaN,
                 pr_AverageMz = 500, pr_LargestPeakMz = 500, pr_MonoisotopicMz = NaN,
                 pr_Intensity = 10 \<rparr>"
  let ?pasef = "[\<lparr> pf_Frame = 2, pf_Precursor = 1, pf_ScanNumBegin = 0, pf_ScanNumEnd = 2,
                   pf_IsolationWidth = 2, pf_CollisionEnergy = 30 \<rparr>]"
  let ?prm = "\<lparr> pm_Frame = 2, pm_Target = 1, pm_ScanNumBegin = 0, pm_ScanNumEnd = 2,
                pm_IsolationMz = 500, pm_IsolationWidth = 2, pm_CollisionEnergy = 30 \<rparr>"
  let ?target = "\<lparr> pt_Id = 1, pt_OneOverK0 = 9 / 10, pt_Charge = NaN \<rparr>"
  let ?d = "tdf_empty
              \<lparr> Frames := [(ms1_frame_example 1) \<lparr> fr_ScanMode := 8 \<rparr>,
                           (ms1_frame_example 2) \<lparr> fr_ScanMode := 8, fr_MsMsType := 8 \<rparr>],
                Precursors := [?prec], PasefFrameMsMsInfo := ?pasef,
                MzAcqRangeLower := 100, MzAcqRangeUpper := 100.01,
                tims_extract_centroided_spectrum_for_frame_v2 :=
                  (\<lambda>frm b e. if frm = 2 then ([100.002, 100.007], [5, 7]) else ([], [])) \<rparr>"
  obtain products where run: "parse_lcms_tdf ?d 1 3 ''centroid'' False (Some True) 0 64
      = Inr ([], products)"
    and charges: "map charge_state products = [Some NaN]"
    and mobs: "map selected_ion_mobility products = [Some (13 / 10)]"
    using ddapasef_nan_charge_example by (auto split: sum.splits simp: prod_eq_iff)
  note inst = nan_charge_leaves_ccs_unset
    [of ?prec ?pasef init_scan_dict tdf_empty ?target ?prm ?d 1 3 "''centroid''" False
        "Some True" 0 64 "[]" products]
  have dda: "\<exists>r. populate_scan_dict_w_ddapasef_ms2 init_scan_dict tdf_empty ?prec ?pasef = Inr r
        \<and> selected_ion_ccs r = None \<and> charge_state r = Some NaN
        \<and> selected_ion_mobility r = Some (13 / 10)"
    using inst [THEN conjunct1] by (auto simp: init_scan_dict_def tdf_empty_def)
  have prm: "selected_ion_ccs (populate_scan_dict_w_prmpasef_ms2 tdf_empty init_scan_dict
        ?prm ?target) = None"
    using inst [THEN conjunct2, THEN conjunct1] by (simp add: init_scan_dict_def)
  have all: "\<forall>r \<in> set [] \<union> set products.
      charge_state r = None \<or> charge_state r = Some NaN \<longrightarrow> selected_ion_ccs r = None"
    by (rule inst [THEN conjunct2, THEN conjunct2, THEN mp]) (rule run)
  have "\<forall>r \<in> set products. selected_ion_ccs r = None"
  proof
    fix r assume r: "r \<in> set products"
    then have "charge_state r \<in> set (map charge_state products)" by simp
    then have "charge_state r = Some NaN" by (simp add: charges)
    with all r show "selected_ion_ccs r = None" by simp
  qed
  then have "\<exists>products. parse_lcms_tdf ?d 1 3 ''centroid'' False (Some True) 0 64
         = Inr ([], products)
         \<and> map charge_state products = [Some NaN]
         \<and> map selected_ion_mobility products = [Some (13 / 10)]
         \<and> (\<forall>r \<in> set products. selected_ion_ccs r = None)"
    using run charges mobs by (intro exI [of _ products]) simp
  with dda prm show ?thesis by (intro conjI)
qed

text \<open>
  Claim C8, at an input where the code departs from it. A frame none of whose sub-scans
  holds data makes the 3-D extractor return \<^verbatim>\<open>None\<close>s without raising, as the claim says;
  the caller then evaluates \<^verbatim>\<open>mz_array.size\<close> before its \<^verbatim>\<open>is not None\<close> tests and raises
  AttributeError instead of dropping the record. With mobility excluded the 2-D centroid
  extraction of the same frame is dropped silently.
\<close>

theorem empty_3d_extraction_raises_in_caller:
  "extract_3d_tdf_spectrum (tdf_empty \<lparr> Frames := [ms1_frame_example 1] \<rparr>) 1 0 2 = Inr None
   \<and> parse_lcms_tdf (tdf_empty \<lparr> Frames := [ms1_frame_example 1] \<rparr>) 1 2 ''centroid'' False
        (Some False) 0 64 = Inl AttributeError
   \<and> parse_lcms_tdf (tdf_empty \<lparr> Frames := [ms1_frame_example 1] \<rparr>) 1 2 ''centroid'' False
        (Some True) 0 64 = Inr ([], [])"
  using empty_3d_example by simp

lemma record_if_usable_None:
  "record_if_usable exclude_mobility (None, mobility) scan_dict fill = Inl AttributeError"
  by (simp add: record_if_usable_def arrays_usable_def)

section \<open>Properties of the serializer\<close>

lemma upt_Suc_Cons:
  assumes "b = Suc (a + n)"
  shows "[Suc a..<Suc b] = Suc a # [Suc (Suc a)..<Suc b]"
  by (rule upt_conv_Cons) (simp add: assms)

lemma upt_split_at:
  assumes "a \<le> m" and "m \<le> b"
  shows "[a..<b] = [a..<m] @ [m..<b]"
  using assms by (metis le_Suc_ex upt_add_eq_append)

lemma write_product_loop_appends:
  assumes "write_product_loop writer parent encoding products scan_count = Inr (writer', scan_count')"
  shows "\<exists>kids. writer' = writer @ kids
           \<and> scan_count' = scan_count + length kids
           \<and> map ws_id kids = map Some [Suc scan_count..<Suc scan_count']
           \<and> list_all2 (\<lambda>product kid. written_for product kid
                 \<and> ws_precursor_information kid
                 \<and> ws_spectrum_reference kid = map_option scan_number parent) products kids"
  using assms
proof (induction products arbitrary: writer scan_count)
  case Nil
  then show ?case by simp
next
  case (Cons product rest)
  let ?kid = "\<lparr> ws_id = Some (Suc scan_count),
                 ws_scan = product \<lparr> scan_number := Some (Suc scan_count) \<rparr>,
                 ws_precursor_information = True,
                 ws_spectrum_reference = map_option scan_number parent \<rparr>"
  from Cons.prems have rest: "write_product_loop (writer @ [?kid]) parent encoding rest
       (Suc scan_count) = Inr (writer', scan_count')"
    by (auto simp: write_lcms_ms2_spectrum_def split: sum.splits if_splits option.splits)
  from Cons.IH [OF rest] obtain kids where
    w: "writer' = (writer @ [?kid]) @ kids"
    and sc: "scan_count' = Suc scan_count + length kids"
    and ids: "map ws_id kids = map Some [Suc (Suc scan_count)..<Suc scan_count']"
    and all: "list_all2 (\<lambda>product kid. written_for product kid
         \<and> ws_precursor_information kid
         \<and> ws_spectrum_reference kid = map_option scan_number parent) rest kids"
    by auto
  show ?case
  proof (intro exI [of _ "?kid # kids"] conjI)
    show "writer' = writer @ ?kid # kids" using w by simp
    show "scan_count' = scan_count + length (?kid # kids)" using sc by simp
    have "map ws_id (?kid # kids) = Some (Suc scan_count) # map ws_id kids" by simp
    also have "\<dots> = map Some (Suc scan_count # [Suc (Suc scan_count)..<Suc scan_count'])"
      by (simp only: ids list.map)
    also have "\<dots> = map Some [Suc scan_count..<Suc scan_count']"
      using upt_Suc_Cons [of scan_count' scan_count "length kids"] sc by simp
    finally show "map ws_id (?kid # kids) = map Some [Suc scan_count..<Suc scan_count']" .
    show "list_all2 (\<lambda>product kid. written_for product kid
         \<and> ws_precursor_information kid
         \<and> ws_spectrum_reference kid = map_option scan_number parent) (product # rest)
         (?kid # kids)"
      using all by (simp add: written_for_def)
  qed
qed

lemma write_parent_loop_appends:
  assumes "write_parent_loop writer encoding parents products scan_count = Inr (writer', scan_count')"
  shows "\<exists>blocks. writer' = writer @ concat blocks
           \<and> scan_count' = scan_count + length (concat blocks)
           \<and> map ws_id (concat blocks) = map Some [Suc scan_count..<Suc scan_count']
           \<and> list_all2 (\<lambda>parent block. \<exists>head kids. block = head # kids
                 \<and> written_for parent head
                 \<and> \<not> ws_precursor_information head
                 \<and> ws_spectrum_reference head = None
                 \<and> list_all2 (\<lambda>product kid. written_for product kid
                       \<and> ws_precursor_information kid
                       \<and> ws_spectrum_reference kid = Some (ws_id head))
                     (filter (\<lambda>i. parent_frame i = frame parent) products) kids)
               parents blocks"
  using assms
proof (induction parents arbitrary: writer scan_count)
  case Nil
  then show ?case by simp
next
  case (Cons parent rest)
  let ?numbered = "parent \<lparr> scan_number := Some (Suc scan_count) \<rparr>"
  let ?head = "\<lparr> ws_id = Some (Suc scan_count), ws_scan = ?numbered,
                  ws_precursor_information = False, ws_spectrum_reference = None \<rparr>"
  let ?products = "filter (\<lambda>i. parent_frame i = frame parent) products"
  let ?block_ok = "\<lambda>parent block. \<exists>head kids. block = head # kids
         \<and> written_for parent head
         \<and> \<not> ws_precursor_information head
         \<and> ws_spectrum_reference head = None
         \<and> list_all2 (\<lambda>product kid. written_for product kid
               \<and> ws_precursor_information kid
               \<and> ws_spectrum_reference kid = Some (ws_id head))
             (filter (\<lambda>i. parent_frame i = frame parent) products) kids"
  from Cons.prems obtain w2 sc2 where
    kidsrun: "write_product_loop (writer @ [?head]) (Some ?numbered) encoding ?products
                (Suc scan_count) = Inr (w2, sc2)"
    and restrun: "write_parent_loop w2 encoding rest products sc2 = Inr (writer', scan_count')"
    by (auto simp: Let_def write_lcms_ms1_spectrum_def split: sum.splits if_splits)
  from write_product_loop_appends [OF kidsrun] obtain kids where
    w2: "w2 = (writer @ [?head]) @ kids"
    and sc2: "sc2 = Suc scan_count + length kids"
    and kid_ids: "map ws_id kids = map Some [Suc (Suc scan_count)..<Suc sc2]"
    and kid_all: "list_all2 (\<lambda>product kid. written_for product kid
         \<and> ws_precursor_information kid
         \<and> ws_spectrum_reference kid = map_option scan_number (Some ?numbered)) ?products kids"
    by auto
  from Cons.IH [OF restrun] obtain blocks where
    w': "writer' = w2 @ concat blocks"
    and sc': "scan_count' = sc2 + length (concat blocks)"
    and block_ids: "map ws_id (concat blocks) = map Some [Suc sc2..<Suc scan_count']"
    and block_all: "list_all2 ?block_ok rest blocks"
    by auto
  show ?case
  proof (intro exI [of _ "(?head # kids) # blocks"] conjI)
    show "writer' = writer @ concat ((?head # kids) # blocks)" using w' w2 by simp
    show "scan_count' = scan_count + length (concat ((?head # kids) # blocks))"
      using sc' sc2 by simp
    have split: "[Suc (Suc scan_count)..<Suc scan_count']
        = [Suc (Suc scan_count)..<Suc sc2] @ [Suc sc2..<Suc scan_count']"
      using sc2 sc' by (intro upt_split_at) simp_all
    have "map ws_id (concat ((?head # kids) # blocks))
        = Some (Suc scan_count) # map ws_id kids @ map ws_id (concat blocks)"
      by simp
    also have "\<dots> = map Some (Suc scan_count # [Suc (Suc scan_count)..<Suc scan_count'])"
      by (simp only: kid_ids block_ids split list.map map_append)
    also have "\<dots> = map Some [Suc scan_count..<Suc scan_count']"
      using upt_Suc_Cons [of scan_count' scan_count "length kids + length (concat blocks)"]
        sc2 sc' by simp
    finally show "map ws_id (concat ((?head # kids) # blocks))
        = map Some [Suc scan_count..<Suc scan_count']" .
    have "?block_ok parent (?head # kids)"
      using kid_all by (intro exI [of _ ?head] exI [of _ kids]) (simp add: written_for_def)
    with block_all show "list_all2 ?block_ok (parent # rest) ((?head # kids) # blocks)"
      by simp
  qed
qed


lemma numbered_compose:
  assumes "map ws_id n1 = map Some [Suc a..<Suc b]" and "map ws_id n2 = map Some [Suc b..<Suc c]"
    and "b = a + length n1" and "c = b + length n2"
  shows "map ws_id (n1 @ n2) = map Some [Suc a..<Suc c]"
proof -
  have "[Suc a..<Suc c] = [Suc a..<Suc b] @ [Suc b..<Suc c]"
    using assms(3,4) by (intro upt_split_at) simp_all
  then show ?thesis by (simp only: map_append assms(1,2))
qed

lemma write_parsed_chunk_appends:
  assumes "write_parsed_chunk writer scan_count ms2_only encoding parents products
             = Inr (writer', scan_count')"
  shows "\<exists>new. writer' = writer @ new \<and> scan_count' = scan_count + length new
           \<and> map ws_id new = map Some [Suc scan_count..<Suc scan_count']"
proof (cases ms2_only)
  case True
  with assms have "write_product_loop writer None encoding products scan_count
      = Inr (writer', scan_count')"
    by (simp add: write_parsed_chunk_def)
  from write_product_loop_appends [OF this] show ?thesis by blast
next
  case False
  with assms have "write_parent_loop writer encoding parents products scan_count
      = Inr (writer', scan_count')"
    by (simp add: write_parsed_chunk_def)
  from write_parent_loop_appends [OF this] show ?thesis by blast
qed

lemma write_lcms_chunk_to_mzml_appends:
  assumes "write_lcms_chunk_to_mzml data writer frame_start frame_stop scan_count mode ms2_only
             exclude_mobility profile_bins encoding = Inr (writer', scan_count')"
  shows "\<exists>new. writer' = writer @ new \<and> scan_count' = scan_count + length new
           \<and> map ws_id new = map Some [Suc scan_count..<Suc scan_count']"
proof -
  from assms obtain parsed where
    "write_parsed_chunk writer scan_count ms2_only encoding (fst parsed) (snd parsed)
       = Inr (writer', scan_count')"
    by (auto simp: write_lcms_chunk_to_mzml_def split: sum.splits)
  then show ?thesis by (rule write_parsed_chunk_appends)
qed

lemma write_chunk_list_appends:
  assumes "write_chunk_list data mode ms2_only exclude_mobility profile_bins encoding chunk_list
             writer scan_count = Inr (writer', scan_count')"
  shows "\<exists>new. writer' = writer @ new \<and> scan_count' = scan_count + length new
           \<and> map ws_id new = map Some [Suc scan_count..<Suc scan_count']"
  using assms
proof (induction chunk_list arbitrary: writer scan_count)
  case Nil
  then show ?case by simp
next
  case (Cons window rest)
  from Cons.prems obtain w1 sc1 where
    first: "write_lcms_chunk_to_mzml data writer (fst window) (snd window) scan_count mode
              ms2_only exclude_mobility profile_bins encoding = Inr (w1, sc1)"
    and later: "write_chunk_list data mode ms2_only exclude_mobility profile_bins encoding rest
              w1 sc1 = Inr (writer', scan_count')"
    by (auto split: sum.splits)
  from write_lcms_chunk_to_mzml_appends [OF first] obtain n1 where
    n1: "w1 = writer @ n1" "sc1 = scan_count + length n1"
      "map ws_id n1 = map Some [Suc scan_count..<Suc sc1]"
    by blast
  from Cons.IH [OF later] obtain n2 where
    n2: "writer' = w1 @ n2" "scan_count' = sc1 + length n2"
      "map ws_id n2 = map Some [Suc sc1..<Suc scan_count']"
    by blast
  show ?case
  proof (intro exI [of _ "n1 @ n2"] conjI)
    show "writer' = writer @ n1 @ n2" using n1(1) n2(1) by simp
    show "scan_count' = scan_count + length (n1 @ n2)" using n1(2) n2(2) by simp
    show "map ws_id (n1 @ n2) = map Some [Suc scan_count..<Suc scan_count']"
      using n1(3) n2(3) n1(2) n2(2) by (rule numbered_compose)
  qed
qed


lemma chunk_while_appends:
  assumes "chunk_while data mode ms2_only exclude_mobility profile_bins encoding chunk_size
             chunk j writer scan_count = Inr (chunk', j', writer', scan_count')"
  shows "\<exists>new. writer' = writer @ new \<and> scan_count' = scan_count + length new
           \<and> map ws_id new = map Some [Suc scan_count..<Suc scan_count']"
  using assms
proof (induction data mode ms2_only exclude_mobility profile_bins encoding chunk_size chunk j
         writer scan_count rule: chunk_while.induct)
  case (1 data mode ms2_only exclude_mobility profile_bins encoding chunk_size chunk j writer
          scan_count)
  let ?chunk_list = "zip (take chunk_size (drop chunk (ms1_frames data)))
                         (take chunk_size (drop (chunk + 1) (ms1_frames data)))"
  show ?case
  proof (cases "chunk + chunk_size + 1 \<le> length (ms1_frames data)")
    case False
    with "1.prems" have "writer' = writer" "scan_count' = scan_count"
      by (simp_all add: chunk_while.simps [of data mode ms2_only exclude_mobility profile_bins
                          encoding chunk_size chunk j writer scan_count])
    then show ?thesis by simp
  next
    case True
    with "1.prems" obtain after where
      ne: "?chunk_list \<noteq> []"
      and first: "write_chunk_list data mode ms2_only exclude_mobility profile_bins encoding
                    ?chunk_list writer scan_count = Inr after"
      and later: "chunk_while data mode ms2_only exclude_mobility profile_bins encoding
                    chunk_size (chunk + chunk_size) (Some (snd (last ?chunk_list)))
                    (fst after) (snd after) = Inr (chunk', j', writer', scan_count')"
      by (auto simp: chunk_while.simps [of data mode ms2_only exclude_mobility profile_bins
                       encoding chunk_size chunk j writer scan_count]
               split: if_splits sum.splits)
    from first have first': "write_chunk_list data mode ms2_only exclude_mobility profile_bins
        encoding ?chunk_list writer scan_count = Inr (fst after, snd after)"
      by simp
    from write_chunk_list_appends [OF first'] obtain n1 where
      n1: "fst after = writer @ n1" "snd after = scan_count + length n1"
        "map ws_id n1 = map Some [Suc scan_count..<Suc (snd after)]"
      by blast
    from "1.IH" [OF True ne first later] obtain n2 where
      n2: "writer' = fst after @ n2" "scan_count' = snd after + length n2"
        "map ws_id n2 = map Some [Suc (snd after)..<Suc scan_count']"
      by blast
    show ?thesis
    proof (intro exI [of _ "n1 @ n2"] conjI)
      show "writer' = writer @ n1 @ n2" using n1(1) n2(1) by simp
      show "scan_count' = scan_count + length (n1 @ n2)" using n1(2) n2(2) by simp
      show "map ws_id (n1 @ n2) = map Some [Suc scan_count..<Suc scan_count']"
        using n1(3) n2(3) n1(2) n2(2) by (rule numbered_compose)
    qed
  qed
qed

lemma chunk_else_appends:
  assumes "chunk_else data mode ms2_only exclude_mobility profile_bins encoding chunk j writer
             scan_count = Inr (writer', scan_count')"
  shows "\<exists>new. writer' = writer @ new \<and> scan_count' = scan_count + length new
           \<and> map ws_id new = map Some [Suc scan_count..<Suc scan_count']"
proof -
  from assms obtain chunk_list where
    "write_chunk_list data mode ms2_only exclude_mobility profile_bins encoding chunk_list
       writer scan_count = Inr (writer', scan_count')"
    by (auto simp: chunk_else_def Let_def split: option.splits)
  then show ?thesis by (rule write_chunk_list_appends)
qed


lemma write_lcms_mzml_run:
  assumes "write_lcms_mzml data render mode ms2_only exclude_mobility profile_bins encoding
             chunk_size = Inr run"
  shows "get_spectra_count data = Inr (run_declared run)"
    and "map ws_id (run_written run) = map Some [Suc 0..<Suc (run_scan_count run)]"
    and "run_scan_count run = length (run_written run)"
    and "run_declared run = run_scan_count run \<Longrightarrow>
           run_files run = \<lparr> tmp_mzML = Some (render (run_declared run) (run_written run)),
                             final_mzML = None \<rparr>"
    and "run_declared run \<noteq> run_scan_count run \<Longrightarrow>
           run_files run
             = \<lparr> tmp_mzML = None,
                 final_mzML = Some (map (\<lambda>line. py_replace line
                                           (spectrum_list_tag (run_declared run))
                                           (spectrum_list_tag (run_scan_count run)))
                                      (render (run_declared run) (run_written run))) \<rparr>"
proof -
  from assms obtain num chunk j w1 sc1 w2 sc2 where
    num: "get_spectra_count data = Inr num"
    and loop: "chunk_while data mode ms2_only exclude_mobility profile_bins encoding chunk_size
                 0 None [] 0 = Inr (chunk, j, w1, sc1)"
    and rest: "chunk_else data mode ms2_only exclude_mobility profile_bins encoding chunk j w1
                 sc1 = Inr (w2, sc2)"
    and run: "run_declared run = num" "run_written run = w2" "run_scan_count run = sc2"
    and files: "run_files run
        = (if num \<noteq> sc2
           then \<lparr> tmp_mzML = None,
                  final_mzML = Some (map (\<lambda>line. py_replace line (spectrum_list_tag num)
                                            (spectrum_list_tag sc2)) (render num w2)) \<rparr>
           else \<lparr> tmp_mzML = Some (render num w2), final_mzML = None \<rparr>)"
    by (auto simp: write_lcms_mzml_def update_spectra_count_def Let_def
             split: sum.splits prod.splits if_splits)
  from chunk_while_appends [OF loop] obtain n1 where
    n1: "w1 = n1" "sc1 = length n1" "map ws_id n1 = map Some [Suc 0..<Suc sc1]"
    by auto
  from chunk_else_appends [OF rest] obtain n2 where
    n2: "w2 = w1 @ n2" "sc2 = sc1 + length n2" "map ws_id n2 = map Some [Suc sc1..<Suc sc2]"
    by blast
  show "get_spectra_count data = Inr (run_declared run)" using num run by simp
  have "map ws_id (n1 @ n2) = map Some [Suc 0..<Suc sc2]"
    using n1(3) n2(3) _ n2(2) by (rule numbered_compose) (simp add: n1(2))
  then show "map ws_id (run_written run) = map Some [Suc 0..<Suc (run_scan_count run)]"
    using run n1(1) n2(1) by simp
  show "run_scan_count run = length (run_written run)"
    using run n1 n2 by simp
  show "run_files run = \<lparr> tmp_mzML = Some (render (run_declared run) (run_written run)),
                             final_mzML = None \<rparr>"
    if "run_declared run = run_scan_count run"
    using that files run by simp
  show "run_files run
      = \<lparr> tmp_mzML = None,
          final_mzML = Some (map (\<lambda>line. py_replace line
                                    (spectrum_list_tag (run_declared run))
                                    (spectrum_list_tag (run_scan_count run)))
                               (render (run_declared run) (run_written run))) \<rparr>"
    if "run_declared run \<noteq> run_scan_count run"
    using that files run by simp
qed

text \<open>Every written spectrum carries, as its id, the scan number of its own record.\<close>

lemma write_product_loop_own_id:
  assumes "write_product_loop writer parent encoding products scan_count = Inr (writer', scan_count')"
    and "\<forall>x \<in> set writer. scan_number (ws_scan x) = ws_id x"
  shows "\<forall>x \<in> set writer'. scan_number (ws_scan x) = ws_id x"
  using assms
proof (induction products arbitrary: writer scan_count)
  case Nil
  then show ?case by simp
next
  case (Cons product rest)
  from Cons.prems(1) obtain w1 where
    first: "write_lcms_ms2_spectrum writer parent encoding
              (product \<lparr> scan_number := Some (scan_count + 1) \<rparr>) = Inr w1"
    and later: "write_product_loop w1 parent encoding rest (scan_count + 1)
              = Inr (writer', scan_count')"
    by (auto split: sum.splits)
  from first Cons.prems(2) have "\<forall>x \<in> set w1. scan_number (ws_scan x) = ws_id x"
    by (auto simp: write_lcms_ms2_spectrum_def split: if_splits)
  with later show ?case by (rule Cons.IH)
qed

lemma write_parent_loop_own_id:
  assumes "write_parent_loop writer encoding parents products scan_count = Inr (writer', scan_count')"
    and "\<forall>x \<in> set writer. scan_number (ws_scan x) = ws_id x"
  shows "\<forall>x \<in> set writer'. scan_number (ws_scan x) = ws_id x"
  using assms
proof (induction parents arbitrary: writer scan_count)
  case Nil
  then show ?case by simp
next
  case (Cons parent rest)
  from Cons.prems(1) obtain w1 w2 sc2 where
    first: "write_lcms_ms1_spectrum writer (parent \<lparr> scan_number := Some (scan_count + 1) \<rparr>)
              encoding = Inr w1"
    and kids: "write_product_loop w1 (Some (parent \<lparr> scan_number := Some (scan_count + 1) \<rparr>))
              encoding (filter (\<lambda>i. parent_frame i = frame parent) products) (scan_count + 1)
              = Inr (w2, sc2)"
    and later: "write_parent_loop w2 encoding rest products sc2 = Inr (writer', scan_count')"
    by (auto simp: Let_def split: sum.splits)
  from first Cons.prems(2) have "\<forall>x \<in> set w1. scan_number (ws_scan x) = ws_id x"
    by (auto simp: write_lcms_ms1_spectrum_def split: if_splits)
  with kids have "\<forall>x \<in> set w2. scan_number (ws_scan x) = ws_id x"
    by (rule write_product_loop_own_id)
  with later show ?case by (rule Cons.IH)
qed

lemma write_lcms_chunk_to_mzml_own_id:
  assumes "write_lcms_chunk_to_mzml data writer frame_start frame_stop scan_count mode ms2_only
             exclude_mobility profile_bins encoding = Inr (writer', scan_count')"
    and "\<forall>x \<in> set writer. scan_number (ws_scan x) = ws_id x"
  shows "\<forall>x \<in> set writer'. scan_number (ws_scan x) = ws_id x"
proof -
  from assms(1) obtain parsed where
    run: "write_parsed_chunk writer scan_count ms2_only encoding (fst parsed) (snd parsed)
       = Inr (writer', scan_count')"
    by (auto simp: write_lcms_chunk_to_mzml_def split: sum.splits)
  show ?thesis
  proof (cases ms2_only)
    case True
    with run have "write_product_loop writer None encoding (snd parsed) scan_count
        = Inr (writer', scan_count')"
      by (simp add: write_parsed_chunk_def)
    then show ?thesis using assms(2) by (rule write_product_loop_own_id)
  next
    case False
    with run have "write_parent_loop writer encoding (fst parsed) (snd parsed) scan_count
        = Inr (writer', scan_count')"
      by (simp add: write_parsed_chunk_def)
    then show ?thesis using assms(2) by (rule write_parent_loop_own_id)
  qed
qed

lemma write_chunk_list_own_id:
  assumes "write_chunk_list data mode ms2_only exclude_mobility profile_bins encoding chunk_list
             writer scan_count = Inr (writer', scan_count')"
    and "\<forall>x \<in> set writer. scan_number (ws_scan x) = ws_id x"
  shows "\<forall>x \<in> set writer'. scan_number (ws_scan x) = ws_id x"
  using assms
proof (induction chunk_list arbitrary: writer scan_count)
  case Nil
  then show ?case by simp
next
  case (Cons window rest)
  from Cons.prems(1) obtain w1 sc1 where
    first: "write_lcms_chunk_to_mzml data writer (fst window) (snd window) scan_count mode
              ms2_only exclude_mobility profile_bins encoding = Inr (w1, sc1)"
    and later: "write_chunk_list data mode ms2_only exclude_mobility profile_bins encoding rest
              w1 sc1 = Inr (writer', scan_count')"
    by (auto split: sum.splits)
  from first Cons.prems(2) have "\<forall>x \<in> set w1. scan_number (ws_scan x) = ws_id x"
    by (rule write_lcms_chunk_to_mzml_own_id)
  with later show ?case by (rule Cons.IH)
qed

lemma chunk_while_own_id:
  assumes "chunk_while data mode ms2_only exclude_mobility profile_bins encoding chunk_size
             chunk j writer scan_count = Inr (chunk', j', writer', scan_count')"
    and "\<forall>x \<in> set writer. scan_number (ws_scan x) = ws_id x"
  shows "\<forall>x \<in> set writer'. scan_number (ws_scan x) = ws_id x"
  using assms
proof (induction data mode ms2_only exclude_mobility profile_bins encoding chunk_size chunk j
         writer scan_count rule: chunk_while.induct)
  case (1 data mode ms2_only exclude_mobility profile_bins encoding chunk_size chunk j writer
          scan_count)
  let ?chunk_list = "zip (take chunk_size (drop chunk (ms1_frames data)))
                         (take chunk_size (drop (chunk + 1) (ms1_frames data)))"
  show ?case
  proof (cases "chunk + chunk_size + 1 \<le> length (ms1_frames data)")
    case False
    with "1.prems"(1) have "writer' = writer"
      by (simp add: chunk_while.simps [of data mode ms2_only exclude_mobility profile_bins
                      encoding chunk_size chunk j writer scan_count])
    with "1.prems"(2) show ?thesis by simp
  next
    case True
    with "1.prems"(1) obtain after where
      ne: "?chunk_list \<noteq> []"
      and first: "write_chunk_list data mode ms2_only exclude_mobility profile_bins encoding
                    ?chunk_list writer scan_count = Inr after"
      and later: "chunk_while data mode ms2_only exclude_mobility profile_bins encoding
                    chunk_size (chunk + chunk_size) (Some (snd (last ?chunk_list)))
                    (fst after) (snd after) = Inr (chunk', j', writer', scan_count')"
      by (auto simp: chunk_while.simps [of data mode ms2_only exclude_mobility profile_bins
                       encoding chunk_size chunk j writer scan_count]
               split: if_splits sum.splits)
    from first have "write_chunk_list data mode ms2_only exclude_mobility profile_bins
        encoding ?chunk_list writer scan_count = Inr (fst after, snd after)"
      by simp
    then have "\<forall>x \<in> set (fst after). scan_number (ws_scan x) = ws_id x"
      using "1.prems"(2) by (rule write_chunk_list_own_id)
    with "1.IH" [OF True ne first later] show ?thesis .
  qed
qed

lemma write_lcms_mzml_own_id:
  assumes "write_lcms_mzml data render mode ms2_only exclude_mobility profile_bins encoding
             chunk_size = Inr run"
  shows "\<forall>x \<in> set (run_written run). scan_number (ws_scan x) = ws_id x"
proof -
  from assms obtain chunk j w1 sc1 w2 sc2 where
    loop: "chunk_while data mode ms2_only exclude_mobility profile_bins encoding chunk_size
                 0 None [] 0 = Inr (chunk, j, w1, sc1)"
    and rest: "chunk_else data mode ms2_only exclude_mobility profile_bins encoding chunk j w1
                 sc1 = Inr (w2, sc2)"
    and run: "run_written run = w2"
    by (auto simp: write_lcms_mzml_def update_spectra_count_def Let_def
             split: sum.splits prod.splits if_splits)
  from loop have w1: "\<forall>x \<in> set w1. scan_number (ws_scan x) = ws_id x"
    by (rule chunk_while_own_id) simp
  from rest obtain chunk_list where
    "write_chunk_list data mode ms2_only exclude_mobility profile_bins encoding chunk_list
       w1 sc1 = Inr (w2, sc2)"
    by (auto simp: chunk_else_def Let_def split: option.splits)
  then have "\<forall>x \<in> set w2. scan_number (ws_scan x) = ws_id x"
    using w1 by (rule write_chunk_list_own_id)
  with run show ?thesis by simp
qed

lemma three_frame_run:
  "map_sum id (\<lambda>run. (run_declared run, run_scan_count run,
                        map (frame \<circ> ws_scan) (run_written run)))
     (write_lcms_mzml three_frame_example header_only ''centroid'' False (Some True) 0 64 10)
   = Inr (3, 2, [Some 1, Some 3])"
  by code_simp

text \<open>
  Claim C1. In every run that \<^verbatim>\<open>write_lcms_mzml\<close> completes, the ids of the spectra
  written are 1, 2, 3, ... in the order of writing, up to the number of spectra written,
  which is the final \<^verbatim>\<open>scan_count\<close>; each id is the \<open>scan_number\<close> of the record written
  with it. Records dropped by the parser never reach the writer and take no number.
\<close>

theorem scan_numbers_contiguous:
  assumes "write_lcms_mzml data render mode ms2_only exclude_mobility profile_bins encoding
             chunk_size = Inr run"
  shows "map ws_id (run_written run) = map Some [1..<Suc (length (run_written run))]
         \<and> map (scan_number \<circ> ws_scan) (run_written run)
             = map Some [1..<Suc (length (run_written run))]
         \<and> run_scan_count run = length (run_written run)"
proof -
  have len: "run_scan_count run = length (run_written run)"
    using assms by (rule write_lcms_mzml_run(3))
  have ids: "map ws_id (run_written run) = map Some [1..<Suc (length (run_written run))]"
    using write_lcms_mzml_run(2) [OF assms] len by simp
  have "map (scan_number \<circ> ws_scan) (run_written run) = map ws_id (run_written run)"
    using write_lcms_mzml_own_id [OF assms] by simp
  with ids len show ?thesis by simp
qed

theorem scan_numbers_contiguous_witness:
  "map_sum id (\<lambda>run. (map (frame \<circ> ws_scan) (run_written run), map ws_id (run_written run),
                        map (scan_number \<circ> ws_scan) (run_written run), run_scan_count run))
     (write_lcms_mzml three_frame_example header_only ''centroid'' False (Some True) 0 64 10)
   = Inr ([Some 1, Some 3], [Some 1, Some 2], [Some 1, Some 2], 2)"
proof -
  obtain run where run: "write_lcms_mzml three_frame_example header_only ''centroid'' False
      (Some True) 0 64 10 = Inr run"
    and frames: "map (frame \<circ> ws_scan) (run_written run) = [Some 1, Some 3]"
    using three_frame_run by (cases "write_lcms_mzml three_frame_example header_only
      ''centroid'' False (Some True) 0 64 10") auto
  from frames have "length (map (frame \<circ> ws_scan) (run_written run)) = 2" by simp
  then have len: "length (run_written run) = 2" by simp
  have upt: "[1..<Suc 2] = [1, 2]" by (simp add: upt_rec)
  from scan_numbers_contiguous [OF run] len upt
  have "map ws_id (run_written run) = [Some 1, Some 2]"
    and "map (scan_number \<circ> ws_scan) (run_written run) = [Some 1, Some 2]"
    and "run_scan_count run = 2"
    by simp_all
  with run frames show ?thesis by simp
qed

section \<open>Properties of the count reconciliation\<close>









lemma bbcid_run:
  "map_sum id (\<lambda>run. (run_declared run, run_scan_count run,
                        map (ms_level \<circ> ws_scan) (run_written run),
                        map ws_spectrum_reference (run_written run)))
     (write_lcms_mzml bbcid_example header_only ''centroid'' False (Some True) 0 64 10)
   = Inr (2, 3, [Some 1, Some 2, Some 1], [None, None, None])"
  by code_simp




section \<open>Properties of the linking of products to parents\<close>

lemma ddapasef_chunk_example:
  "map_sum id (\<lambda>parsed. (map frame (fst parsed), map ms_level (fst parsed),
                           map parent_frame (snd parsed), map ms_level (snd parsed)))
     (parse_lcms_chunk
        \<lparr> schema = TDF (ddapasef_example ([300, 400], [5, 7])), ms1_frames = [10] \<rparr>
        10 12 ''centroid'' False (Some True) 0 64)
   = Inr ([Some 10], [Some 1], [Some 10, Some 10], [Some 2, Some 2])"
  "map_sum id (\<lambda>written. (map ws_id (fst written), map ws_spectrum_reference (fst written),
                            map (frame \<circ> ws_scan) (fst written),
                            map (parent_frame \<circ> ws_scan) (fst written), snd written))
     (write_lcms_chunk_to_mzml
        \<lparr> schema = TDF (ddapasef_example ([300, 400], [5, 7])), ms1_frames = [10] \<rparr>
        [] 10 12 0 ''centroid'' False (Some True) 0 64)
   = Inr ([Some 1, Some 2, Some 3], [None, Some (Some 1), Some (Some 1)],
          [Some 10, None, None], [None, Some 10, Some 10], 3)"
  by code_simp+

text \<open>
  Claim C6. When a window is written with MS1 spectra included, what is written is one
  block for each parent record, in the order of the parent records: the parent itself,
  without reference to another spectrum, then its children, which are the product
  records whose \<open>parent_frame\<close> equals the \<open>frame\<close> of the parent, in their order, each
  with precursor information and a reference to the id of the parent. The ids run on
  from the count before the window without a gap through all the blocks, so a parent
  and its children are numbered consecutively.
\<close>

theorem parent_then_children_consecutive:
  assumes "parse_lcms_chunk data frame_start frame_stop mode False exclude_mobility
             profile_bins encoding = Inr (parent_scans, product_scans)"
    and "write_lcms_chunk_to_mzml data writer frame_start frame_stop scan_count mode False
           exclude_mobility profile_bins encoding = Inr (writer', scan_count')"
  shows "\<exists>blocks. writer' = writer @ concat blocks
           \<and> scan_count' = scan_count + length (concat blocks)
           \<and> map ws_id (concat blocks) = map Some [Suc scan_count..<Suc scan_count']
           \<and> list_all2 (\<lambda>parent block. \<exists>head kids. block = head # kids
                 \<and> written_for parent head
                 \<and> \<not> ws_precursor_information head
                 \<and> ws_spectrum_reference head = None
                 \<and> list_all2 (\<lambda>product kid. written_for product kid
                       \<and> ws_precursor_information kid
                       \<and> ws_spectrum_reference kid = Some (ws_id head))
                     (filter (\<lambda>i. parent_frame i = frame parent) product_scans) kids)
               parent_scans blocks"
proof -
  from assms have "write_parent_loop writer encoding parent_scans product_scans scan_count
      = Inr (writer', scan_count')"
    by (simp add: write_lcms_chunk_to_mzml_def write_parsed_chunk_def)
  then show ?thesis by (rule write_parent_loop_appends)
qed

theorem parent_then_children_consecutive_witness:
  "\<exists>parent products head kid1 kid2.
      parse_lcms_chunk
        \<lparr> schema = TDF (ddapasef_example ([300, 400], [5, 7])), ms1_frames = [10] \<rparr>
        10 12 ''centroid'' False (Some True) 0 64 = Inr ([parent], products)
      \<and> frame parent = Some 10 \<and> map parent_frame products = [Some 10, Some 10]
      \<and> write_lcms_chunk_to_mzml
          \<lparr> schema = TDF (ddapasef_example ([300, 400], [5, 7])), ms1_frames = [10] \<rparr>
          [] 10 12 0 ''centroid'' False (Some True) 0 64 = Inr ([head, kid1, kid2], 3)
      \<and> map ws_id [head, kid1, kid2] = [Some 1, Some 2, Some 3]
      \<and> written_for parent head \<and> ws_spectrum_reference head = None
      \<and> list_all2 written_for products [kid1, kid2]
      \<and> map ws_spectrum_reference [kid1, kid2] = [Some (Some 1), Some (Some 1)]"
proof -
  let ?data = "\<lparr> schema = TDF (ddapasef_example ([300, 400], [5, 7])), ms1_frames = [10] \<rparr>"
  obtain parents products where
    parse: "parse_lcms_chunk ?data 10 12 ''centroid'' False (Some True) 0 64
              = Inr (parents, products)"
    and pf: "map frame parents = [Some 10]"
    and qf: "map parent_frame products = [Some 10, Some 10]"
    using ddapasef_chunk_example(1)
    by (cases "parse_lcms_chunk ?data 10 12 ''centroid'' False (Some True) 0 64") auto
  from pf obtain parent where parents: "parents = [parent]" and fr: "frame parent = Some 10"
    by (cases parents) auto
  obtain written where
    wr: "write_lcms_chunk_to_mzml ?data [] 10 12 0 ''centroid'' False (Some True) 0 64
              = Inr (written, 3)"
    and ids: "map ws_id written = [Some 1, Some 2, Some 3]"
    using ddapasef_chunk_example(2)
    by (cases "write_lcms_chunk_to_mzml ?data [] 10 12 0 ''centroid'' False (Some True) 0 64")
       auto
  from parent_then_children_consecutive [OF parse wr] parents obtain head kids where
    w: "written = head # kids"
    and head: "written_for parent head" "ws_spectrum_reference head = None"
    and kids: "list_all2 (\<lambda>product kid. written_for product kid
                   \<and> ws_precursor_information kid
                   \<and> ws_spectrum_reference kid = Some (ws_id head))
                 (filter (\<lambda>i. parent_frame i = frame parent) products) kids"
    by (auto simp: list_all2_Cons1)
  have all: "filter (\<lambda>i. parent_frame i = frame parent) products = products"
  proof (rule filter_True)
    show "\<forall>x \<in> set products. parent_frame x = frame parent"
    proof
      fix x assume "x \<in> set products"
      then have "parent_frame x \<in> set (map parent_frame products)" by simp
      then show "parent_frame x = frame parent" by (simp add: qf fr)
    qed
  qed
  from ids w obtain kid1 kid2 where k: "kids = [kid1, kid2]"
    and hid: "ws_id head = Some 1"
    by (cases kids; cases "tl kids"; cases "tl (tl kids)") auto
  have kw: "list_all2 written_for products [kid1, kid2]"
    using kids unfolding all k by (rule list_all2_mono) simp
  have refs: "map ws_spectrum_reference [kid1, kid2] = [Some (Some 1), Some (Some 1)]"
    using kids unfolding all k hid
    by (auto simp: list_all2_Cons2)
  show ?thesis
    using parse wr ids head kw refs fr qf
    unfolding parents w k
    by (intro exI [of _ parent] exI [of _ products] exI [of _ head] exI [of _ kid1]
              exI [of _ kid2]) simp
qed

text \<open>
  With MS1 spectra excluded every product record of the window is written on its own,
  with precursor information and without reference to a parent.
\<close>

lemma ms2_only_products_standalone:
  assumes "write_parsed_chunk writer scan_count True encoding parent_scans product_scans
             = Inr (writer', scan_count')"
  shows "\<exists>kids. writer' = writer @ kids
           \<and> list_all2 (\<lambda>product kid. written_for product kid
                 \<and> ws_precursor_information kid
                 \<and> ws_spectrum_reference kid = None) product_scans kids"
proof -
  from assms have "write_product_loop writer None encoding product_scans scan_count
      = Inr (writer', scan_count')"
    by (simp add: write_parsed_chunk_def)
  from write_product_loop_appends [OF this] show ?thesis by auto
qed

lemma orphan_products_example:
  "map_sum id (\<lambda>parsed. (fst parsed = [], map parent_frame (snd parsed),
                           map ms_level (snd parsed), map mz_array (snd parsed)))
     (parse_lcms_chunk \<lparr> schema = TDF (ddapasef_example ([], [])), ms1_frames = [10] \<rparr>
        10 12 ''centroid'' False (Some True) 0 64)
   = Inr (True, [Some 10, Some 10], [Some 2, Some 2], [Some [100.002], Some [100.002]])"
  "write_lcms_chunk_to_mzml \<lparr> schema = TDF (ddapasef_example ([], [])), ms1_frames = [10] \<rparr>
     [] 10 12 0 ''centroid'' False (Some True) 0 64 = Inr ([], 0)"
  "write_lcms_chunk_to_mzml
     \<lparr> schema = TDF (ddapasef_example ([300, 400], [5, 7])), ms1_frames = [10] \<rparr>
     [] 10 12 0 ''centroid'' True (Some True) 0 64 = Inr ([], 0)"
  "map_sum id (\<lambda>run. (run_declared run, run_scan_count run, run_written run = []))
     (write_lcms_mzml bbcid_example header_only ''centroid'' True (Some True) 0 64 10)
   = Inr (2, 0, True)"
  by code_simp+

text \<open>
  Claim C7, at inputs where the code departs from it. In a ddaPASEF window whose MS1
  frame decodes to empty arrays the parent record is dropped and the two product
  records, both with \<open>parent_frame\<close> 10, have no matching parent; with MS1 spectra
  included nothing is written for the window, the products are not emitted. With MS1
  spectra excluded (\<^verbatim>\<open>ms2_only\<close>) nothing is written for a TDF file either: neither the
  products of the ddaPASEF window, which the parser then does not build, nor the bbCID
  frame, whose record is among the parent records. With MS1 spectra included the bbCID
  frame is written on its own without reference, as the claim says.
\<close>

theorem orphan_products_not_emitted:
  "map_sum id (\<lambda>parsed. (fst parsed = [], map parent_frame (snd parsed),
                           map ms_level (snd parsed), map mz_array (snd parsed)))
     (parse_lcms_chunk \<lparr> schema = TDF (ddapasef_example ([], [])), ms1_frames = [10] \<rparr>
        10 12 ''centroid'' False (Some True) 0 64)
   = Inr (True, [Some 10, Some 10], [Some 2, Some 2], [Some [100.002], Some [100.002]])
   \<and> write_lcms_chunk_to_mzml
        \<lparr> schema = TDF (ddapasef_example ([], [])), ms1_frames = [10] \<rparr>
        [] 10 12 0 ''centroid'' False (Some True) 0 64 = Inr ([], 0)
   \<and> write_lcms_chunk_to_mzml
        \<lparr> schema = TDF (ddapasef_example ([300, 400], [5, 7])), ms1_frames = [10] \<rparr>
        [] 10 12 0 ''centroid'' True (Some True) 0 64 = Inr ([], 0)
   \<and> map_sum id (\<lambda>run. (run_declared run, run_scan_count run, run_written run = []))
        (write_lcms_mzml bbcid_example header_only ''centroid'' True (Some True) 0 64 10)
       = Inr (2, 0, True)
   \<and> map_sum id (\<lambda>run. (map (ms_level \<circ> ws_scan) (run_written run),
                           map ws_spectrum_reference (run_written run)))
        (write_lcms_mzml bbcid_example header_only ''centroid'' False (Some True) 0 64 10)
       = Inr ([Some 1, Some 2, Some 1], [None, None, None])"
proof -
  have "map_sum id (\<lambda>run. (map (ms_level \<circ> ws_scan) (run_written run),
                           map ws_spectrum_reference (run_written run)))
        (write_lcms_mzml bbcid_example header_only ''centroid'' False (Some True) 0 64 10)
       = Inr ([Some 1, Some 2, Some 1], [None, None, None])"
    using bbcid_run
    by (cases "write_lcms_mzml bbcid_example header_only ''centroid'' False (Some True) 0 64
          10") auto
  with orphan_products_example show ?thesis by simp
qed

end
